(* ===== verification/Prelude.thy ===== *)
theory Prelude
  imports Main "HOL-Library.Sublist" "HOL-Library.Multiset"
begin

text \<open>
  Shared vocabulary of the go-imagefy development: the fact collections the component
  theories extend, the names of the types every component uses (Go strings are byte
  sequences, Go errors are their messages, a Go call that returns a value and an error is
  a sum), and the generic facts about lists and options the component proofs rest on.
\<close>

section \<open>Fact collections\<close>

named_theorems go_defs \<open>definitions of the Go library functions the program calls\<close>
named_theorems lic_defs \<open>definitions of the licence components\<close>
named_theorems pipe_defs \<open>definitions of the pipeline stages\<close>

section \<open>Names of the model's types\<close>

text \<open>
  A Go string is an immutable byte sequence; \<^typ>\<open>char\<close> has exactly 256 values, so a Go
  string and a \<^verbatim>\<open>[]byte\<close> slice are both a \<^typ>\<open>string\<close>. An error is represented by its
  message. A function that returns \<^verbatim>\<open>(T, error)\<close> returns \<^verbatim>\<open>error + T\<close>.
\<close>

type_synonym bytes = string
type_synonym error = string
type_synonym 'a result = "error + 'a"

text \<open>Go's \<^verbatim>\<open>x := s; if x == "" { x = d }\<close> default idiom.\<close>

definition or_default :: "string \<Rightarrow> string \<Rightarrow> string" where
  "or_default s d = (if s = '''' then d else s)"

lemma or_default_nonempty [simp]: "d \<noteq> '''' \<Longrightarrow> or_default s d \<noteq> ''''"
  by (simp add: or_default_def)

lemma or_default_idem [simp]: "or_default (or_default s d) d = or_default s d"
  by (simp add: or_default_def)

section \<open>Lists\<close>

text \<open>The loop \<^verbatim>\<open>for _, x := range xs { if p(x) { return x } }\<close>.\<close>

lemma find_Some_set: "List.find P xs = Some x \<Longrightarrow> x \<in> set xs \<and> P x"
  by (auto simp: find_Some_iff)

lemma list_ex_mono: "list_ex P xs \<Longrightarrow> (\<And>x. x \<in> set xs \<Longrightarrow> P x \<Longrightarrow> Q x) \<Longrightarrow> list_ex Q xs"
  by (auto simp: list_ex_iff)

text \<open>
  The loop \<^verbatim>\<open>for _, r := range rs { if skip(r) { continue }; out = append(out, f(r)) }\<close>
  that every search provider runs: keep the accepted elements, converted, in order.
\<close>

definition filter_map :: "('a \<Rightarrow> 'b option) \<Rightarrow> 'a list \<Rightarrow> 'b list" where
  "filter_map f xs = List.map_filter f xs"

lemma filter_map_simps [simp]:
  "filter_map f [] = []"
  "filter_map f (x # xs) = (case f x of None \<Rightarrow> filter_map f xs | Some y \<Rightarrow> y # filter_map f xs)"
  by (simp_all add: filter_map_def split: option.splits)

lemma set_filter_map [simp]: "set (filter_map f xs) = {y. \<exists>x\<in>set xs. f x = Some y}"
  by (induction xs) (auto split: option.splits)

lemma length_filter_map: "length (filter_map f xs) \<le> length xs"
  by (induction xs) (auto split: option.splits)

lemma filter_map_append [simp]: "filter_map f (xs @ ys) = filter_map f xs @ filter_map f ys"
  by (induction xs) (auto split: option.splits)

lemma mset_concat_filter_map:
  "mset (concat (filter_map f xs)) =
     sum_mset (image_mset (\<lambda>x. case f x of None \<Rightarrow> {#} | Some y \<Rightarrow> mset y) (mset xs))"
  by (induction xs) (auto split: option.splits)

lemma list_all_update: "list_all P xs \<Longrightarrow> P y \<Longrightarrow> list_all P (xs[i := y])"
  by (auto simp: list_all_iff dest: set_update_subset_insert [THEN subsetD])

text \<open>Changing one element of a list changes a count or a sum by that element alone.\<close>

lemma count_update:
  "i < length xs \<Longrightarrow>
     length (filter P (xs[i := y])) + (if P (xs ! i) then 1 else 0) = length (filter P xs) + (if P y then 1 else 0)"
proof (induction xs arbitrary: i)
  case (Cons x xs)
  show ?case
  proof (cases i)
    case (Suc j)
    with Cons.IH [of j] Cons.prems show ?thesis by (cases "P x") simp_all
  qed simp
qed simp

lemma sum_update_less:
  fixes f :: "'a \<Rightarrow> nat"
  assumes "i < length xs" and "f y < f (xs ! i)"
  shows "sum_list (map f (xs[i := y])) < sum_list (map f xs)"
  using assms by (induction xs arbitrary: i) (auto split: nat.splits simp: less_Suc_eq_0_disj)

lemma fold_keeps: "(\<And>x s. x \<in> set xs \<Longrightarrow> P s \<Longrightarrow> P (f x s)) \<Longrightarrow> P s \<Longrightarrow> P (fold f xs s)"
  by (induction xs arbitrary: s) auto

lemma sorted_subseq: "subseq ys xs \<Longrightarrow> sorted (map f xs) \<Longrightarrow> sorted (map f ys)"
  by (induction rule: list_emb.induct) (auto dest: list_emb_set)

end
