(* ===== verification/Go_Strings.thy ===== *)
theory Go_Strings
  imports Prelude
begin

text \<open>
  The functions of Go's packages \<^verbatim>\<open>strings\<close>, \<^verbatim>\<open>unicode/utf8\<close> and \<^verbatim>\<open>path\<close> that the program
  calls, on byte strings. Case mapping and white space beyond ASCII come from the Unicode
  Character Database, which is a parameter (\<^verbatim>\<open>unicode\<close>) of every function that consults it.
\<close>

section \<open>Searching\<close>

text \<open>\<^verbatim>\<open>strings.Index\<close>: the first offset where \<open>sub\<close> occurs (\<^verbatim>\<open>-1\<close> is \<open>None\<close>).\<close>

fun Index :: "string \<Rightarrow> string \<Rightarrow> nat option" where
  "Index [] sub = (if sub = [] then Some 0 else None)"
| "Index (c # s) sub = (if prefix sub (c # s) then Some 0 else map_option Suc (Index s sub))"

definition Contains :: "string \<Rightarrow> string \<Rightarrow> bool" where
  "Contains s sub \<longleftrightarrow> Index s sub \<noteq> None"

definition HasPrefix :: "string \<Rightarrow> string \<Rightarrow> bool" where
  "HasPrefix s p \<longleftrightarrow> prefix p s"

definition HasSuffix :: "string \<Rightarrow> string \<Rightarrow> bool" where
  "HasSuffix s p \<longleftrightarrow> suffix p s"

fun IndexByte :: "string \<Rightarrow> char \<Rightarrow> nat option" where
  "IndexByte [] b = None"
| "IndexByte (c # s) b = (if c = b then Some 0 else map_option Suc (IndexByte s b))"

text \<open>\<^verbatim>\<open>strings.LastIndexByte\<close>.\<close>

definition LastIndexByte :: "string \<Rightarrow> char \<Rightarrow> nat option" where
  "LastIndexByte s b = map_option (\<lambda>i. length s - Suc i) (IndexByte (rev s) b)"

text \<open>\<^verbatim>\<open>strings.Cut(s, sep)\<close> for a one-byte separator: before, after, found.\<close>

definition Cut :: "string \<Rightarrow> char \<Rightarrow> string \<times> string \<times> bool" where
  "Cut s b = (case IndexByte s b of
      None \<Rightarrow> (s, [], False)
    | Some i \<Rightarrow> (take i s, drop (Suc i) s, True))"

definition TrimSuffix :: "string \<Rightarrow> string \<Rightarrow> string" where
  "TrimSuffix s p = (if HasSuffix s p then take (length s - length p) s else s)"

text \<open>\<^verbatim>\<open>strings.TrimRight(s, c)\<close> for a cutset of one ASCII byte.\<close>

definition TrimRightByte :: "string \<Rightarrow> char \<Rightarrow> string" where
  "TrimRightByte s b = rev (dropWhile (\<lambda>c. c = b) (rev s))"

fun Join :: "string list \<Rightarrow> string \<Rightarrow> string" where
  "Join [] sep = []"
| "Join [s] sep = s"
| "Join (s # t # ss) sep = s @ sep @ Join (t # ss) sep"

text \<open>\<^verbatim>\<open>strings.Split(s, sep)\<close> for a one-byte separator.\<close>

fun SplitByte :: "string \<Rightarrow> char \<Rightarrow> string list" where
  "SplitByte [] b = [[]]"
| "SplitByte (c # s) b =
     (if c = b then [] # SplitByte s b
      else case SplitByte s b of [] \<Rightarrow> [[c]] | t # ts \<Rightarrow> (c # t) # ts)"

section \<open>UTF-8\<close>

type_synonym rune = nat

definition RuneError :: rune where
  "RuneError = 0xFFFD"

definition byte_in :: "nat \<Rightarrow> nat \<Rightarrow> char \<Rightarrow> bool" where
  "byte_in lo hi c \<longleftrightarrow> lo \<le> of_char c \<and> of_char c \<le> hi"

text \<open>
  \<^verbatim>\<open>utf8.DecodeRuneInString\<close>: the first code point and its width in bytes; a byte that
  starts no valid encoding is \<^const>\<open>RuneError\<close> of width 1.
\<close>

definition DecodeRune :: "string \<Rightarrow> rune \<times> nat" where
  "DecodeRune s = (case s of
      [] \<Rightarrow> (RuneError, 0)
    | c0 # s1 \<Rightarrow>
       (let b0 = of_char c0 in
        if b0 < 0x80 then (b0, 1)
        else if 0xC2 \<le> b0 \<and> b0 \<le> 0xDF then
          (case s1 of
             c1 # _ \<Rightarrow> if byte_in 0x80 0xBF c1
                        then ((b0 - 0xC0) * 64 + (of_char c1 - 0x80), 2) else (RuneError, 1)
           | [] \<Rightarrow> (RuneError, 1))
        else if 0xE0 \<le> b0 \<and> b0 \<le> 0xEF then
          (case s1 of
             c1 # c2 # _ \<Rightarrow>
               if byte_in (if b0 = 0xE0 then 0xA0 else 0x80) (if b0 = 0xED then 0x9F else 0xBF) c1
                  \<and> byte_in 0x80 0xBF c2
               then ((b0 - 0xE0) * 4096 + (of_char c1 - 0x80) * 64 + (of_char c2 - 0x80), 3)
               else (RuneError, 1)
           | _ \<Rightarrow> (RuneError, 1))
        else if 0xF0 \<le> b0 \<and> b0 \<le> 0xF4 then
          (case s1 of
             c1 # c2 # c3 # _ \<Rightarrow>
               if byte_in (if b0 = 0xF0 then 0x90 else 0x80) (if b0 = 0xF4 then 0x8F else 0xBF) c1
                  \<and> byte_in 0x80 0xBF c2 \<and> byte_in 0x80 0xBF c3
               then ((b0 - 0xF0) * 262144 + (of_char c1 - 0x80) * 4096
                     + (of_char c2 - 0x80) * 64 + (of_char c3 - 0x80), 4)
               else (RuneError, 1)
           | _ \<Rightarrow> (RuneError, 1))
        else (RuneError, 1)))"

text \<open>\<^verbatim>\<open>utf8.AppendRune\<close>: surrogates and values above U+10FFFF encode as U+FFFD.\<close>

definition EncodeRune :: "rune \<Rightarrow> string" where
  "EncodeRune r0 =
     (let r = (if r0 > 0x10FFFF \<or> (0xD800 \<le> r0 \<and> r0 \<le> 0xDFFF) then RuneError else r0) in
      if r < 0x80 then [char_of r]
      else if r < 0x800 then [char_of (0xC0 + r div 64), char_of (0x80 + r mod 64)]
      else if r < 0x10000 then
        [char_of (0xE0 + r div 4096), char_of (0x80 + r div 64 mod 64), char_of (0x80 + r mod 64)]
      else
        [char_of (0xF0 + r div 262144), char_of (0x80 + r div 4096 mod 64),
         char_of (0x80 + r div 64 mod 64), char_of (0x80 + r mod 64)])"

text \<open>The runes a \<^verbatim>\<open>for range\<close> loop visits, each with the bytes it was read from.\<close>

function chunks :: "string \<Rightarrow> (rune \<times> string) list" where
  "chunks [] = []"
| "chunks (c # s) =
     (let (r, w) = DecodeRune (c # s) in (r, take w (c # s)) # chunks (drop (w - 1) s))"
  by pat_completeness auto
termination
  by (relation "measure length") auto

definition runes :: "string \<Rightarrow> rune list" where
  "runes s = map fst (chunks s)"

definition RuneCount :: "string \<Rightarrow> nat" where
  "RuneCount s = length (chunks s)"

section \<open>Case mapping and white space\<close>

text \<open>
  What the program needs of the Unicode tables of package \<^verbatim>\<open>unicode\<close>, consulted for code
  points from 128 on only.
\<close>

record unicode =
  uc_lower :: "rune \<Rightarrow> rune"
  uc_upper :: "rune \<Rightarrow> rune"
  uc_space :: "rune \<Rightarrow> bool"

definition is_ascii :: "string \<Rightarrow> bool" where
  "is_ascii s \<longleftrightarrow> list_all (\<lambda>c. of_char c < (0x80::nat)) s"

definition upper_ascii :: "rune \<Rightarrow> bool" where
  "upper_ascii r \<longleftrightarrow> 65 \<le> r \<and> r \<le> 90"

definition lower_ascii :: "rune \<Rightarrow> bool" where
  "lower_ascii r \<longleftrightarrow> 97 \<le> r \<and> r \<le> 122"

definition lower_byte :: "char \<Rightarrow> char" where
  "lower_byte c = (if upper_ascii (of_char c) then char_of (of_char c + 32 :: nat) else c)"

definition upper_byte :: "char \<Rightarrow> char" where
  "upper_byte c = (if lower_ascii (of_char c) then char_of (of_char c - 32 :: nat) else c)"

text \<open>\<^verbatim>\<open>unicode.ToLower\<close>, \<^verbatim>\<open>unicode.ToUpper\<close> and \<^verbatim>\<open>unicode.IsSpace\<close>.\<close>

definition lower_rune :: "unicode \<Rightarrow> rune \<Rightarrow> rune" where
  "lower_rune u r = (if r < 0x80 then (if upper_ascii r then r + 32 else r) else uc_lower u r)"

definition upper_rune :: "unicode \<Rightarrow> rune \<Rightarrow> rune" where
  "upper_rune u r = (if r < 0x80 then (if lower_ascii r then r - 32 else r) else uc_upper u r)"

definition space_rune :: "unicode \<Rightarrow> rune \<Rightarrow> bool" where
  "space_rune u r =
     (if r < 0x80 then (9 \<le> r \<and> r \<le> 13) \<or> r = 32
      else if r \<le> 0xFF then r = 0x85 \<or> r = 0xA0
      else uc_space u r)"

text \<open>\<^verbatim>\<open>strings.ToLower\<close>: bytewise on ASCII input, rune by rune (\<^verbatim>\<open>strings.Map\<close>) otherwise.\<close>

definition ToLower :: "unicode \<Rightarrow> string \<Rightarrow> string" where
  "ToLower u s = (if is_ascii s then map lower_byte s
     else concat (map (\<lambda>r. EncodeRune (lower_rune u r)) (runes s)))"

definition ToUpper :: "unicode \<Rightarrow> string \<Rightarrow> string" where
  "ToUpper u s = (if is_ascii s then map upper_byte s
     else concat (map (\<lambda>r. EncodeRune (upper_rune u r)) (runes s)))"

text \<open>
  \<^verbatim>\<open>utf8.DecodeLastRuneInString\<close>, on the reversed string: back up over at most three
  continuation bytes to a byte that can start a rune; if the rune decoded there does not
  end at the end of the string, the last byte is \<^const>\<open>RuneError\<close> of width 1.
\<close>

definition DecodeLastRune :: "string \<Rightarrow> rune \<times> nat" where
  "DecodeLastRune s =
     (let t = rev s;
          k = length (takeWhile (byte_in 0x80 0xBF) (take 4 t));
          w = Suc k
      in if s = [] then (RuneError, 0)
         else if w \<le> 4 \<and> w \<le> length s \<and> snd (DecodeRune (rev (take w t))) = w
           then (fst (DecodeRune (rev (take w t))), w)
         else (RuneError, 1))"

text \<open>\<^verbatim>\<open>strings.TrimLeftFunc\<close> and \<^verbatim>\<open>strings.TrimRightFunc\<close>.\<close>

function TrimLeftFunc :: "(rune \<Rightarrow> bool) \<Rightarrow> string \<Rightarrow> string" where
  "TrimLeftFunc p [] = []"
| "TrimLeftFunc p (c # s) =
     (let (r, w) = DecodeRune (c # s) in
      if p r then TrimLeftFunc p (drop (w - 1) s) else c # s)"
  by pat_completeness auto
termination
  by (relation "measure (\<lambda>(p, s). length s)") auto

function TrimRightFunc :: "(rune \<Rightarrow> bool) \<Rightarrow> string \<Rightarrow> string" where
  "TrimRightFunc p s =
     (if s = [] then []
      else let (r, w) = DecodeLastRune s in
        if p r then TrimRightFunc p (take (length s - max 1 w) s) else s)"
  by pat_completeness auto
termination
  by (relation "measure (\<lambda>(p, s). length s)") (auto simp: max_def)

declare TrimRightFunc.simps [simp del]

definition TrimFunc :: "(rune \<Rightarrow> bool) \<Rightarrow> string \<Rightarrow> string" where
  "TrimFunc p s = TrimRightFunc p (TrimLeftFunc p s)"

definition TrimSpace :: "unicode \<Rightarrow> string \<Rightarrow> string" where
  "TrimSpace u s = TrimFunc (space_rune u) s"

text \<open>\<^verbatim>\<open>strings.Trim(s, cutset)\<close> for a cutset given by its runes.\<close>

definition Trim :: "string \<Rightarrow> rune list \<Rightarrow> string" where
  "Trim s cutset = TrimFunc (\<lambda>r. List.member cutset r) s"

text \<open>\<^verbatim>\<open>strings.Fields\<close>: maximal runs of non-space runes.\<close>

fun fields_chunks :: "unicode \<Rightarrow> (rune \<times> string) list \<Rightarrow> string \<Rightarrow> string list" where
  "fields_chunks u [] acc = (if acc = [] then [] else [acc])"
| "fields_chunks u ((r, bs) # cs) acc =
     (if space_rune u r then (if acc = [] then [] else [acc]) @ fields_chunks u cs []
      else fields_chunks u cs (acc @ bs))"

definition Fields :: "unicode \<Rightarrow> string \<Rightarrow> string list" where
  "Fields u s = fields_chunks u (chunks s) []"

section \<open>Paths\<close>

text \<open>\<^verbatim>\<open>path.Ext\<close>: the suffix from the last dot of the last slash-separated element.\<close>

definition path_Ext :: "string \<Rightarrow> string" where
  "path_Ext p =
     (let t = takeWhile (\<lambda>c. c \<noteq> CHR ''/'') (rev p) in
      case IndexByte t (CHR ''.'') of
        None \<Rightarrow> [] | Some i \<Rightarrow> rev (take (Suc i) t))"

text \<open>\<^verbatim>\<open>path.Base\<close>: trailing slashes removed, then the last element; \<^verbatim>\<open>.\<close> and \<^verbatim>\<open>/\<close> for empty.\<close>

definition path_Base :: "string \<Rightarrow> string" where
  "path_Base p =
     (if p = [] then ''.''
      else let q = TrimRightByte p (CHR ''/'');
               b = rev (takeWhile (\<lambda>c. c \<noteq> CHR ''/'') (rev q))
           in if b = [] then ''/'' else b)"

section \<open>Decimal output\<close>

text \<open>\<^verbatim>\<open>%d\<close> of package \<^verbatim>\<open>fmt\<close>.\<close>

fun digits_of :: "nat \<Rightarrow> string" where
  "digits_of n = (if n < 10 then [char_of (48 + n)] else digits_of (n div 10) @ [char_of (48 + n mod 10)])"

declare digits_of.simps [simp del]

definition show_int :: "int \<Rightarrow> string" where
  "show_int i = (if i < 0 then CHR ''-'' # digits_of (nat (- i)) else digits_of (nat i))"

section \<open>Facts\<close>

lemma Index_Some_iff: "Index s sub \<noteq> None \<longleftrightarrow> sublist sub s"
proof (induction s)
  case Nil
  show ?case by auto
next
  case (Cons c s)
  then show ?case by (auto simp: sublist_Cons_right)
qed

lemma Contains_iff_sublist: "Contains s sub \<longleftrightarrow> sublist sub s"
  by (simp only: Contains_def Index_Some_iff)

lemma Contains_iff: "Contains s sub \<longleftrightarrow> (\<exists>ps ss. s = ps @ sub @ ss)"
  by (simp add: Contains_iff_sublist sublist_def)

lemma Contains_Nil_right [simp]: "Contains s []"
  by (simp add: Contains_iff_sublist)

lemma Contains_refl [simp]: "Contains s s"
  by (simp add: Contains_iff_sublist)

lemma Contains_append [intro]: "Contains s sub \<Longrightarrow> Contains (p @ s @ q) sub"
  by (meson Contains_iff_sublist sublist_appendI sublist_order.order_trans)

lemma Contains_trans: "Contains s t \<Longrightarrow> Contains t v \<Longrightarrow> Contains s v"
  by (meson Contains_iff_sublist sublist_order.order_trans)

lemma Index_SomeD:
  "Index s sub = Some i \<Longrightarrow> s = take i s @ sub @ drop (i + length sub) s \<and> i + length sub \<le> length s"
proof (induction s arbitrary: i)
  case Nil
  then show ?case by (auto split: if_splits)
next
  case (Cons c s)
  show ?case
  proof (cases "prefix sub (c # s)")
    case True
    then obtain t where "c # s = sub @ t" by (auto simp: prefix_def)
    moreover have "i = 0" using Cons.prems True by simp
    ultimately show ?thesis by (metis add_0 append_eq_conv_conj append_self_conv2 length_append le_add1 take0)
  next
    case False
    then obtain j where "Index s sub = Some j" "i = Suc j" using Cons.prems by auto
    with Cons.IH show ?thesis by simp
  qed
qed

lemma Index_here: "Index s sub = Some i \<Longrightarrow> prefix sub (drop i s) \<and> i + length sub \<le> length s"
proof (induction s arbitrary: i)
  case (Cons c s)
  then show ?case by (auto split: if_splits dest: prefix_length_le)
qed (auto split: if_splits)

lemma Index_least: "Index s sub = Some i \<Longrightarrow> j < i \<Longrightarrow> \<not> prefix sub (drop j s)"
proof (induction s arbitrary: i j)
  case Nil
  then show ?case by (auto split: if_splits)
next
  case (Cons c s)
  then show ?case by (cases j) (auto split: if_splits)
qed

lemma Index_None: "Index s sub = None \<Longrightarrow> \<not> prefix sub (drop j s)"
proof (induction s arbitrary: j)
  case (Cons c s)
  then show ?case by (cases j) (auto split: if_splits)
qed (auto split: if_splits)

lemma DecodeRune_ascii: "of_char c < (0x80::nat) \<Longrightarrow> DecodeRune (c # s) = (of_char c, 1)"
  by (simp add: DecodeRune_def)

lemma DecodeRune_width: "s \<noteq> [] \<Longrightarrow> 1 \<le> snd (DecodeRune s) \<and> snd (DecodeRune s) \<le> length s"
  by (auto simp: DecodeRune_def Let_def split: list.splits)

lemma chunks_concat: "concat (map snd (chunks s)) = s"
proof (induction s rule: chunks.induct)
  case (2 c s)
  obtain r w where rw: "DecodeRune (c # s) = (r, w)" by fastforce
  then have "1 \<le> w" using DecodeRune_width [of "c # s"] by simp
  then obtain v where "w = Suc v" by (cases w) auto
  with 2 rw show ?case by simp
qed simp

lemma chunks_ascii: "is_ascii s \<Longrightarrow> chunks s = map (\<lambda>c. (of_char c, [c])) s"
  by (induction s) (auto simp: is_ascii_def DecodeRune_ascii)

text \<open>A byte below 128 is a rune of its own wherever it occurs.\<close>

lemma DecodeRune_wide:
  assumes "(128::nat) \<le> of_char b"
  shows "list_all (\<lambda>c. (128::nat) \<le> of_char c) (take (snd (DecodeRune (b # s))) (b # s))"
proof -
  consider "s = []" | c1 where "s = [c1]" | c1 c2 where "s = [c1, c2]"
    | c1 c2 c3 t where "s = c1 # c2 # c3 # t"
    by (metis list.exhaust)
  then show ?thesis
  proof cases
    case 4
    then show ?thesis
      using assms unfolding DecodeRune_def Let_def byte_in_def 4 list.case
      by (simp only: split: if_split) simp
  qed (use assms in \<open>simp_all add: DecodeRune_def Let_def byte_in_def\<close>)
qed

lemma DecodeRune_ascii_byte:
  assumes "s \<noteq> []" and "c \<in> set (take (snd (DecodeRune s)) s)" and "of_char c < (0x80::nat)"
  shows "take (snd (DecodeRune s)) s = [c] \<and> fst (DecodeRune s) = of_char c"
proof -
  obtain b t where s: "s = b # t" using assms(1) by (cases s) auto
  show ?thesis
  proof (cases "of_char b < (128::nat)")
    case True
    then show ?thesis using assms(2) by (simp add: s DecodeRune_ascii)
  next
    case False
    with DecodeRune_wide [of b t] assms(2,3) show ?thesis unfolding s by (auto simp: list_all_iff)
  qed
qed

lemma chunks_ascii_byte:
  "(r, bs) \<in> set (chunks s) \<Longrightarrow> c \<in> set bs \<Longrightarrow> of_char c < (0x80::nat) \<Longrightarrow> r = of_char c"
proof (induction s rule: chunks.induct)
  case (2 b s)
  obtain r0 w0 where rw: "DecodeRune (b # s) = (r0, w0)" by fastforce
  then have cs: "chunks (b # s) = (r0, take w0 (b # s)) # chunks (drop (w0 - 1) s)" by simp
  show ?case
  proof (cases "(r, bs) = (r0, take w0 (b # s))")
    case True
    then show ?thesis using DecodeRune_ascii_byte [of "b # s" c] "2.prems" rw by auto
  next
    case False
    with "2.prems"(1)[unfolded cs] have "(r, bs) \<in> set (chunks (drop (w0 - 1) s))" by auto
    from "2.IH" [OF rw [symmetric] refl this "2.prems"(2,3)] show ?thesis .
  qed
qed simp

lemma is_ascii_simps [simp]:
  "is_ascii []"
  "is_ascii (c # s) \<longleftrightarrow> of_char c < (0x80::nat) \<and> is_ascii s"
  "is_ascii (s @ t) \<longleftrightarrow> is_ascii s \<and> is_ascii t"
  by (simp_all add: is_ascii_def)

lemma of_char_lower_byte:
  "of_char (lower_byte c) = (if upper_ascii (of_char c) then of_char c + 32 else of_char c :: nat)"
  by (auto simp: lower_byte_def upper_ascii_def)

lemma of_char_upper_byte:
  "of_char (upper_byte c) = (if lower_ascii (of_char c) then of_char c - 32 else of_char c :: nat)"
  by (auto simp: upper_byte_def lower_ascii_def)

lemma lower_byte_idem [simp]: "lower_byte (lower_byte c) = lower_byte c"
  unfolding lower_byte_def [of "lower_byte c"] by (auto simp: of_char_lower_byte upper_ascii_def)

lemma ToLower_ascii: "is_ascii s \<Longrightarrow> ToLower u s = map lower_byte s"
  by (simp add: ToLower_def)

lemma ToUpper_ascii: "is_ascii s \<Longrightarrow> ToUpper u s = map upper_byte s"
  by (simp add: ToUpper_def)

lemma ToLower_Nil [simp]: "ToLower u [] = []"
  by (simp add: ToLower_def)

lemma ToUpper_Nil [simp]: "ToUpper u [] = []"
  by (simp add: ToUpper_def)

lemma is_ascii_map_lower [simp]: "is_ascii (map lower_byte s) \<longleftrightarrow> is_ascii s"
  by (induction s) (auto simp: of_char_lower_byte upper_ascii_def)

lemma ToLower_lower_ascii: "is_ascii s \<Longrightarrow> ToLower u (ToLower u s) = ToLower u s"
  by (simp add: ToLower_ascii comp_def)

lemmas search_defs [go_defs] = HasPrefix_def HasSuffix_def Contains_def TrimSuffix_def

end
