(* ===== verification/Go_Url.thy ===== *)
theory Go_Url
  imports Go_Strings
begin

text \<open>
  Package \<^verbatim>\<open>net/url\<close> as far as the program uses it: \<^verbatim>\<open>url.Parse\<close> with the fields the program
  reads (scheme, opaque part, host, decoded path), \<^verbatim>\<open>URL.Hostname\<close> and \<^verbatim>\<open>url.QueryEscape\<close>.
  A parse error is \<open>None\<close>: the program never looks at its text.
\<close>

section \<open>Character classes\<close>

definition is_alpha :: "char \<Rightarrow> bool" where
  "is_alpha c \<longleftrightarrow> byte_in 97 122 c \<or> byte_in 65 90 c"

definition is_digit :: "char \<Rightarrow> bool" where
  "is_digit c \<longleftrightarrow> byte_in 48 57 c"

definition is_alnum :: "char \<Rightarrow> bool" where
  "is_alnum c \<longleftrightarrow> is_alpha c \<or> is_digit c"

definition ishex :: "char \<Rightarrow> bool" where
  "ishex c \<longleftrightarrow> is_digit c \<or> byte_in 97 102 c \<or> byte_in 65 70 c"

definition unhex :: "char \<Rightarrow> nat" where
  "unhex c = (if is_digit c then of_char c - 48
     else if byte_in 97 102 c then of_char c - 87
     else if byte_in 65 70 c then of_char c - 55 else 0)"

definition hex_digit :: "nat \<Rightarrow> char" where
  "hex_digit n = (if n < 10 then char_of (48 + n) else char_of (55 + n))"

section \<open>Escaping\<close>

datatype encoding = encodePath | encodeHost | encodeZone | encodeUserPassword
  | encodeQueryComponent | encodeFragment

text \<open>\<^verbatim>\<open>shouldEscape\<close> in the modes the parser and \<^verbatim>\<open>QueryEscape\<close> consult it.\<close>

definition shouldEscape :: "char \<Rightarrow> encoding \<Rightarrow> bool" where
  "shouldEscape c mode =
     (if is_alnum c then False
      else if (mode = encodeHost \<or> mode = encodeZone) \<and> c \<in> set ''!$&'()*+,;=:[]<>\"'' then False
      else if c \<in> set ''-_.~'' then False
      else True)"

text \<open>
  \<^verbatim>\<open>unescape\<close>: percent decoding. In the host a percent sign may only introduce a non-ASCII
  byte or a percent sign, and ASCII bytes that would need escaping are refused.
\<close>

fun unescape :: "string \<Rightarrow> encoding \<Rightarrow> string option" where
  "unescape [] mode = Some []"
| "unescape (c # s) mode =
     (if c = CHR ''%'' then
        (case s of
           h # l # t \<Rightarrow>
             if \<not> ishex h \<or> \<not> ishex l then None
             else if mode = encodeHost \<and> unhex h < 8 \<and> \<not> (h = CHR ''2'' \<and> l = CHR ''5'') then None
             else if mode = encodeZone \<and> \<not> (h = CHR ''2'' \<and> l = CHR ''5'')
                     \<and> unhex h * 16 + unhex l \<noteq> 32
                     \<and> shouldEscape (char_of (unhex h * 16 + unhex l)) encodeHost then None
             else map_option ((#) (char_of (unhex h * 16 + unhex l))) (unescape t mode)
         | _ \<Rightarrow> None)
      else if c = CHR ''+'' then
        map_option ((#) (if mode = encodeQueryComponent then CHR '' '' else c)) (unescape s mode)
      else if (mode = encodeHost \<or> mode = encodeZone) \<and> of_char c < (0x80::nat) \<and> shouldEscape c mode
        then None
      else map_option ((#) c) (unescape s mode))"

definition escape_byte :: "char \<Rightarrow> string" where
  "escape_byte c =
     (if c = CHR '' '' then ''+''
      else if shouldEscape c encodeQueryComponent
        then [CHR ''%'', hex_digit (of_char c div 16), hex_digit (of_char c mod 16)]
      else [c])"

definition QueryEscape :: "string \<Rightarrow> string" where
  "QueryEscape s = concat (map escape_byte s)"

section \<open>Parsing\<close>

record URL =
  url_Scheme :: string
  url_Opaque :: string
  url_Host :: string
  url_Path :: string

definition ctl_byte :: "char \<Rightarrow> bool" where
  "ctl_byte c \<longleftrightarrow> of_char c < (32::nat) \<or> of_char c = (127::nat)"

text \<open>\<^verbatim>\<open>getScheme\<close>, scanning from offset \<open>i\<close>: \<open>Some (scheme, rest)\<close> or an error.\<close>

fun getScheme_from :: "string \<Rightarrow> string \<Rightarrow> string \<Rightarrow> (string \<times> string) option" where
  "getScheme_from raw acc [] = Some ([], raw)"
| "getScheme_from raw acc (c # s) =
     (if is_alpha c then getScheme_from raw (acc @ [c]) s
      else if is_digit c \<or> c \<in> set ''+-.'' then
        (if acc = [] then Some ([], raw) else getScheme_from raw (acc @ [c]) s)
      else if c = CHR '':'' then (if acc = [] then None else Some (acc, s))
      else Some ([], raw))"

definition getScheme :: "string \<Rightarrow> (string \<times> string) option" where
  "getScheme raw = getScheme_from raw [] raw"

definition validOptionalPort :: "string \<Rightarrow> bool" where
  "validOptionalPort port =
     (case port of [] \<Rightarrow> True | c # ds \<Rightarrow> c = CHR '':'' \<and> list_all is_digit ds)"

definition validUserinfo :: "string \<Rightarrow> bool" where
  "validUserinfo s \<longleftrightarrow> list_all (\<lambda>c. is_alnum c \<or> c \<in> set ''-._:~!$&'()*+,;=%@'') s"

definition parseHost :: "string \<Rightarrow> string option" where
  "parseHost host =
     (if HasPrefix host ''['' then
        (case LastIndexByte host (CHR '']'') of
           None \<Rightarrow> None
         | Some i \<Rightarrow>
             if \<not> validOptionalPort (drop (Suc i) host) then None
             else (case Index (take i host) ''%25'' of
                 Some zone \<Rightarrow>
                   (case (unescape (take zone host) encodeHost,
                          unescape (drop zone (take i host)) encodeZone,
                          unescape (drop i host) encodeHost) of
                      (Some a, Some b, Some c) \<Rightarrow> Some (a @ b @ c)
                    | _ \<Rightarrow> None)
               | None \<Rightarrow> unescape host encodeHost))
      else (case LastIndexByte host (CHR '':'') of
          Some i \<Rightarrow> if validOptionalPort (drop i host) then unescape host encodeHost else None
        | None \<Rightarrow> unescape host encodeHost))"

text \<open>\<^verbatim>\<open>parseAuthority\<close>: the host; the user information is checked and dropped.\<close>

definition parseAuthority :: "string \<Rightarrow> string option" where
  "parseAuthority authority =
     (case LastIndexByte authority (CHR ''@'') of
        None \<Rightarrow> parseHost authority
      | Some i \<Rightarrow>
          (case parseHost (drop (Suc i) authority) of
             None \<Rightarrow> None
           | Some host \<Rightarrow>
               let userinfo = take i authority in
               if \<not> validUserinfo userinfo then None
               else (case Cut userinfo (CHR '':'') of (name, pass, _) \<Rightarrow>
                 (case (unescape name encodeUserPassword, unescape pass encodeUserPassword) of
                   (Some _, Some _) \<Rightarrow> Some host
                 | _ \<Rightarrow> None))))"

definition parse_path :: "URL \<Rightarrow> string \<Rightarrow> URL option" where
  "parse_path u rest = map_option (\<lambda>p. u\<lparr>url_Path := p\<rparr>) (unescape rest encodePath)"

definition empty_URL :: URL where
  "empty_URL = \<lparr>url_Scheme = [], url_Opaque = [], url_Host = [], url_Path = []\<rparr>"

text \<open>\<^verbatim>\<open>parse(rawURL, false)\<close>; the query is cut off at the first question mark.\<close>

definition url_parse :: "string \<Rightarrow> URL option" where
  "url_parse raw =
     (if list_ex ctl_byte raw then None
      else if raw = ''*'' then Some (empty_URL\<lparr>url_Path := ''*''\<rparr>)
      else (case getScheme raw of
         None \<Rightarrow> None
       | Some (scheme0, rest0) \<Rightarrow>
          let scheme = map lower_byte scheme0;
              rest = fst (Cut rest0 (CHR ''?''));
              u = empty_URL\<lparr>url_Scheme := scheme\<rparr>
          in if \<not> HasPrefix rest ''/'' \<and> scheme \<noteq> [] then Some (u\<lparr>url_Opaque := rest\<rparr>)
             else if \<not> HasPrefix rest ''/'' \<and> Contains (fst (Cut rest (CHR ''/''))) '':'' then None
             else if (scheme \<noteq> [] \<or> \<not> HasPrefix rest ''///'') \<and> HasPrefix rest ''//'' then
               (let authority0 = drop 2 rest;
                    (authority, path) = (takeWhile (\<lambda>c. c \<noteq> CHR ''/'') authority0,
                                         dropWhile (\<lambda>c. c \<noteq> CHR ''/'') authority0)
                in (case parseAuthority authority of
                      None \<Rightarrow> None
                    | Some host \<Rightarrow> parse_path (u\<lparr>url_Host := host\<rparr>) path))
             else parse_path u rest))"

text \<open>\<^verbatim>\<open>url.Parse\<close>: the fragment is cut off first and must decode.\<close>

definition Parse :: "string \<Rightarrow> URL option" where
  "Parse raw =
     (case Cut raw (CHR ''#'') of (u, frag, _) \<Rightarrow>
        (case url_parse u of
           None \<Rightarrow> None
         | Some url \<Rightarrow> if frag = [] then Some url
                      else (case unescape frag encodeFragment of None \<Rightarrow> None | Some _ \<Rightarrow> Some url)))"

text \<open>\<^verbatim>\<open>URL.Hostname\<close>: the host without a port and without IPv6 brackets.\<close>

definition Hostname :: "URL \<Rightarrow> string" where
  "Hostname u =
     (let hp = url_Host u;
          h = (case LastIndexByte hp (CHR '':'') of
                 Some i \<Rightarrow> if validOptionalPort (drop i hp) then take i hp else hp
               | None \<Rightarrow> hp)
      in if HasPrefix h ''['' \<and> HasSuffix h '']'' then drop 1 (take (length h - 1) h) else h)"

section \<open>Facts\<close>

lemma IndexByte_None: "IndexByte s b = None \<longleftrightarrow> b \<notin> set s"
  by (induction s) auto

lemma LastIndexByte_None: "LastIndexByte s b = None \<longleftrightarrow> b \<notin> set s"
  by (simp add: LastIndexByte_def IndexByte_None)

lemma Cut_absent: "b \<notin> set s \<Longrightarrow> Cut s b = (s, [], False)"
  using IndexByte_None [of s b] by (simp add: Cut_def)

text \<open>Bytes that stand for themselves in a host and in a path.\<close>

definition plain_host :: "string \<Rightarrow> bool" where
  "plain_host h \<longleftrightarrow> list_all (\<lambda>c. is_alnum c \<or> c \<in> set ''-._'') h"

definition plain_path :: "string \<Rightarrow> bool" where
  "plain_path p \<longleftrightarrow> list_all (\<lambda>c. is_alnum c \<or> c \<in> set ''-._/'') p \<and> (p = [] \<or> HasPrefix p ''/'')"

lemma is_alnum_range: "is_alnum c \<Longrightarrow> (48::nat) \<le> of_char c \<and> of_char c \<le> (122::nat) \<and> of_char c \<noteq> (58::nat) \<and> of_char c \<noteq> (63::nat) \<and> of_char c \<noteq> (64::nat) \<and> of_char c \<noteq> (91::nat) \<and> of_char c \<noteq> (93::nat)"
  by (auto simp: is_alnum_def is_alpha_def is_digit_def byte_in_def)

lemma plain_special:
  assumes "list_all (\<lambda>c. is_alnum c \<or> c \<in> set ''-._/'') s" and "c \<in> set s"
  shows "c \<notin> set ''%+?#@:[]'' \<and> \<not> ctl_byte c"
proof -
  from assms have "is_alnum c \<or> c \<in> set ''-._/''" by (auto simp: list_all_iff)
  then show ?thesis
  proof
    assume "is_alnum c"
    then show ?thesis using is_alnum_range [of c] by (auto simp: ctl_byte_def)
  qed (auto simp: ctl_byte_def)
qed

lemma plain_host_path: "plain_host h \<Longrightarrow> list_all (\<lambda>c. is_alnum c \<or> c \<in> set ''-._/'') h"
  by (auto simp: plain_host_def list_all_iff)

lemma unescape_plain_path:
  "list_all (\<lambda>c. is_alnum c \<or> c \<in> set ''-._/'') p \<Longrightarrow> unescape p encodePath = Some p"
proof (induction p)
  case (Cons c p)
  then show ?case using plain_special [of "c # p" c] by auto
qed simp

lemma unescape_plain_host: "plain_host h \<Longrightarrow> unescape h encodeHost = Some h"
proof (induction h)
  case (Cons c h)
  then have "plain_host h" and "is_alnum c \<or> c \<in> set ''-._''" by (auto simp: plain_host_def)
  moreover from this have "\<not> shouldEscape c encodeHost" by (auto simp: shouldEscape_def)
  moreover have "c \<noteq> CHR ''%''" "c \<noteq> CHR ''+''"
    using plain_special [OF plain_host_path [OF Cons.prems], of c] by auto
  ultimately show ?case using Cons.IH by simp
qed simp

lemma parseAuthority_plain: "plain_host h \<Longrightarrow> parseAuthority h = Some h"
proof -
  assume h: "plain_host h"
  have sp: "c \<notin> set ''%+?#@:[]''" if "c \<in> set h" for c
    using plain_special [OF plain_host_path [OF h] that] by simp
  then have "CHR ''@'' \<notin> set h" "CHR '':'' \<notin> set h" "\<not> HasPrefix h ''[''"
    by (force simp: HasPrefix_def prefix_def)+
  then show ?thesis using h
    by (simp add: parseAuthority_def parseHost_def LastIndexByte_None [THEN iffD2] unescape_plain_host)
qed

lemma getScheme_https: "getScheme (''https:'' @ s) = Some (''https'', s)"
  by (simp add: getScheme_def is_alpha_def byte_in_def is_digit_def)

text \<open>
  An https URL with a plain host and a plain path parses into exactly that host and path:
  what the licence checks compare with their lists is what the URL shows.
\<close>

lemma takeWhile_host: "plain_host h \<Longrightarrow> p = [] \<or> HasPrefix p ''/'' \<Longrightarrow>
  takeWhile (\<lambda>c. c \<noteq> CHR ''/'') (h @ p) = h \<and> dropWhile (\<lambda>c. c \<noteq> CHR ''/'') (h @ p) = p"
proof (induction h)
  case Nil
  then show ?case by (auto simp: HasPrefix_def prefix_def)
next
  case (Cons c h)
  from Cons.prems have "c \<noteq> CHR ''/''"
    by (auto simp: plain_host_def is_alnum_def is_alpha_def is_digit_def byte_in_def)
  moreover from Cons.prems have "plain_host h" by (simp add: plain_host_def)
  ultimately show ?case using Cons by simp
qed

lemma Parse_plain:
  assumes h: "plain_host h" and p: "plain_path p"
  shows "Parse (''https://'' @ h @ p) = Some \<lparr>url_Scheme = ''https'', url_Opaque = [], url_Host = h, url_Path = p\<rparr>"
proof -
  let ?s = "''https://'' @ h @ p"
  let ?rest = "''//'' @ h @ p"
  have pl: "list_all (\<lambda>c. is_alnum c \<or> c \<in> set ''-._/'') (h @ p)"
    using plain_host_path [OF h] p by (auto simp: plain_path_def)
  have sp: "c \<notin> set ''%+?#@:[]'' \<and> \<not> ctl_byte c" if "c \<in> set (h @ p)" for c
    using plain_special [OF pl that] .
  then have "CHR ''#'' \<notin> set ?s" and q: "CHR ''?'' \<notin> set ?rest" by force+
  then have frag: "Cut ?s (CHR ''#'') = (?s, [], False)" by (intro Cut_absent)
  have query: "Cut ?rest (CHR ''?'') = (?rest, [], False)" using q by (rule Cut_absent)
  have nctl: "\<not> list_ex ctl_byte ?s"
    using sp by (auto simp: list_ex_iff ctl_byte_def)
  have sch: "getScheme ?s = Some (''https'', ?rest)"
    using getScheme_https [of ?rest] by simp
  have low: "map lower_byte ''https'' = ''https''"
    by (simp add: lower_byte_def upper_ascii_def)
  have tw: "takeWhile (\<lambda>c. c \<noteq> CHR ''/'') (h @ p) = h" "dropWhile (\<lambda>c. c \<noteq> CHR ''/'') (h @ p) = p"
    using takeWhile_host [OF h] p by (auto simp: plain_path_def)
  have "url_parse ?s = parse_path (empty_URL\<lparr>url_Scheme := ''https'', url_Host := h\<rparr>) p"
    unfolding url_parse_def if_not_P [OF nctl] sch
    using query low tw parseAuthority_plain [OF h] by (simp add: HasPrefix_def)
  moreover have "unescape p encodePath = Some p"
    using p by (simp add: plain_path_def unescape_plain_path)
  ultimately have "url_parse ?s = Some \<lparr>url_Scheme = ''https'', url_Opaque = [], url_Host = h, url_Path = p\<rparr>"
    by (simp add: parse_path_def empty_URL_def)
  then show ?thesis unfolding Parse_def frag by simp
qed

text \<open>A query-escaped string has no byte that separates parts of a URL.\<close>

lemma hex_digit_alnum: "n < 16 \<Longrightarrow> is_alnum (hex_digit n)"
  by (auto simp: hex_digit_def is_alnum_def is_alpha_def is_digit_def byte_in_def)

lemma set_escape_byte: "d \<in> set (escape_byte c) \<Longrightarrow> is_alnum d \<or> d \<in> set ''-_.~+%''"
proof -
  assume d: "d \<in> set (escape_byte c)"
  have "of_char c < (16 * 16 :: nat)" by simp
  then have "is_alnum (hex_digit (of_char c div 16))"
    by (intro hex_digit_alnum less_mult_imp_div_less)
  moreover have "is_alnum (hex_digit (of_char c mod 16))" by (intro hex_digit_alnum) simp
  ultimately show ?thesis using d
    by (auto simp: escape_byte_def shouldEscape_def split: if_splits)
qed

lemma set_QueryEscape: "d \<in> set (QueryEscape s) \<Longrightarrow> is_alnum d \<or> d \<in> set ''-_.~+%''"
  by (auto simp: QueryEscape_def dest: set_escape_byte)


text \<open>What \<^const>\<open>QueryEscape\<close> writes, the decoder of query components reads back.\<close>

lemma hex_round_trip: "n < 16 \<Longrightarrow> ishex (hex_digit n) \<and> unhex (hex_digit n) = n"
  by (auto simp: hex_digit_def ishex_def unhex_def is_digit_def byte_in_def)

lemma unescape_escape_byte:
  "unescape (escape_byte c @ s) encodeQueryComponent = map_option ((#) c) (unescape s encodeQueryComponent)"
proof -
  have b: "(of_char c :: nat) div 16 < 16" "(of_char c :: nat) mod 16 < 16"
    by (simp_all add: less_mult_imp_div_less)
  have "char_of (of_char c div 16 * 16 + of_char c mod 16 :: nat) = c"
    by (simp only: div_mult_mod_eq char_of_char)
  moreover have "\<not> shouldEscape c encodeQueryComponent \<Longrightarrow> c \<noteq> CHR ''%'' \<and> c \<noteq> CHR ''+''"
    by (auto simp: shouldEscape_def is_alnum_def is_alpha_def is_digit_def byte_in_def)
  ultimately show ?thesis
    by (auto simp: escape_byte_def hex_round_trip b)
qed

lemma unescape_QueryEscape: "unescape (QueryEscape s) encodeQueryComponent = Some s"
  by (induction s) (simp_all add: QueryEscape_def unescape_escape_byte)

lemma escape_byte_plain: "is_alnum c \<or> c \<in> set ''-_.~'' \<Longrightarrow> escape_byte c = [c]"
proof -
  assume c: "is_alnum c \<or> c \<in> set ''-_.~''"
  have "\<not> is_alnum (CHR '' '')" by (simp add: is_alnum_def is_alpha_def is_digit_def byte_in_def)
  then have "c \<noteq> CHR '' ''" using c by auto
  moreover have "\<not> shouldEscape c encodeQueryComponent" using c by (auto simp: shouldEscape_def)
  ultimately show ?thesis by (simp add: escape_byte_def)
qed

lemma QueryEscape_plain:
  "list_all (\<lambda>c. is_alnum c \<or> c \<in> set ''-_.~'') s \<Longrightarrow> QueryEscape s = s"
  by (induction s) (simp_all only: QueryEscape_def list.map concat.simps list.pred_inject escape_byte_plain append.simps)

end
