(* ===== verification/License.thy ===== *)
theory License
  imports Go_Url
begin

text \<open>
  license.go and patterns.go: the copyright class of an image from the URLs it is known by,
  and the URL patterns of logos and banners. The blocked and safe lists are matched as
  substrings of the lower-cased host, the stock-page patterns as substrings of the
  lower-cased path.
\<close>

section \<open>The licence classes\<close>

datatype ImageLicense = LicenseSafe | LicenseUnknown | LicenseBlocked

text \<open>The iota values of the constants, which the result sort compares.\<close>

fun license_ord :: "ImageLicense \<Rightarrow> nat" where
  "license_ord LicenseSafe = 0"
| "license_ord LicenseUnknown = 1"
| "license_ord LicenseBlocked = 2"

instantiation ImageLicense :: linorder
begin

definition less_eq_ImageLicense :: "ImageLicense \<Rightarrow> ImageLicense \<Rightarrow> bool" where
  "less_eq_ImageLicense a b \<longleftrightarrow> license_ord a \<le> license_ord b"

definition less_ImageLicense :: "ImageLicense \<Rightarrow> ImageLicense \<Rightarrow> bool" where
  "less_ImageLicense a b \<longleftrightarrow> license_ord a < license_ord b"

instance
proof
  fix a b c :: ImageLicense
  show "a \<le> b \<Longrightarrow> b \<le> a \<Longrightarrow> a = b"
    by (cases a; cases b) (simp_all add: less_eq_ImageLicense_def)
qed (auto simp: less_eq_ImageLicense_def less_ImageLicense_def)

end

fun License_String :: "ImageLicense \<Rightarrow> string" where
  "License_String LicenseSafe = ''safe''"
| "License_String LicenseBlocked = ''blocked''"
| "License_String LicenseUnknown = ''unknown''"

section \<open>The lists\<close>

definition BlockedDomains :: "string list" where
  "BlockedDomains = [''shutterstock'', ''gettyimages'', ''istockphoto'', ''adobestock'',
    ''depositphotos'', ''dreamstime'', ''123rf'', ''alamy'', ''bigstockphoto'', ''stocksy'',
    ''eyeem'', ''pond5'', ''thinkstockphotos'', ''canstockphoto'', ''masterfile'', ''superstock'',
    ''agefotostock'', ''colourbox'', ''photodune'', ''yayimages'', ''vectorstock'', ''loriimages'',
    ''fotobank'', ''freepik'', ''canva.'', ''clipartof'', ''featurepics'', ''rfclipart'']"

definition BlockedURLPatterns :: "string list" where
  "BlockedURLPatterns = [''/stock-photo'', ''/stock-image'', ''/editorial-image'', ''/premium-photo'']"

definition SafeDomains :: "string list" where
  "SafeDomains = [''unsplash'', ''pexels'', ''pixabay'', ''wikimedia'', ''commons.wikimedia'',
    ''flickr'', ''rawpixel'', ''stocksnap'', ''burst.shopify'', ''kaboompics'', ''picjumbo'']"

definition LogoBannerPatterns :: "string list" where
  "LogoBannerPatterns = [''favicon'', ''logo'', ''icon'', ''banner'', ''sprite'',
    ''badge'', ''button'', ''widget'', ''avatar'']"

section \<open>Operations\<close>

text \<open>The loop \<^verbatim>\<open>for _, p := range ps { if strings.Contains(s, p) { return true } }\<close>.\<close>

definition contains_any :: "string \<Rightarrow> string list \<Rightarrow> bool" where
  "contains_any s ps \<longleftrightarrow> list_ex (\<lambda>p. Contains s p) ps"

text \<open>The loop over the extra domains: empty entries are skipped.\<close>

definition contains_extra :: "string \<Rightarrow> string list \<Rightarrow> bool" where
  "contains_extra host extra \<longleftrightarrow> list_ex (\<lambda>d. d \<noteq> '''' \<and> Contains host d) extra"

definition IsLogoOrBanner :: "string \<Rightarrow> bool" where
  "IsLogoOrBanner lower = contains_any lower LogoBannerPatterns"

definition isBlockedWith :: "unicode \<Rightarrow> string \<Rightarrow> string list \<Rightarrow> bool" where
  "isBlockedWith u rawURL extra =
     (if rawURL = '''' then False
      else (case Parse rawURL of
          None \<Rightarrow> False
        | Some parsed \<Rightarrow>
            let host = ToLower u (url_Host parsed);
                path = ToLower u (url_Path parsed)
            in if host \<noteq> '''' \<and> (contains_any host BlockedDomains \<or> contains_extra host extra) then True
               else contains_any path BlockedURLPatterns))"

definition extractHost :: "unicode \<Rightarrow> string \<Rightarrow> string" where
  "extractHost u rawURL =
     (case Parse rawURL of None \<Rightarrow> '''' | Some parsed \<Rightarrow> ToLower u (url_Host parsed))"

definition isSafeWith :: "unicode \<Rightarrow> string \<Rightarrow> string list \<Rightarrow> bool" where
  "isSafeWith u rawURL extra =
     (let host = extractHost u rawURL in
      if host = '''' then False
      else if contains_any host SafeDomains then True
      else contains_extra host extra)"

definition CheckLicenseWith ::
  "unicode \<Rightarrow> string \<Rightarrow> string \<Rightarrow> string list \<Rightarrow> string list \<Rightarrow> ImageLicense" where
  "CheckLicenseWith u imageURL sourceURL extraBlocked extraSafe =
     (if list_ex (\<lambda>x. isBlockedWith u x extraBlocked) [imageURL, sourceURL] then LicenseBlocked
      else if list_ex (\<lambda>x. isSafeWith u x extraSafe) [imageURL, sourceURL] then LicenseSafe
      else LicenseUnknown)"

definition CheckLicense :: "unicode \<Rightarrow> string \<Rightarrow> string \<Rightarrow> ImageLicense" where
  "CheckLicense u imageURL sourceURL = CheckLicenseWith u imageURL sourceURL [] []"

lemmas license_op_defs [lic_defs] = contains_any_def contains_extra_def isBlockedWith_def
  isSafeWith_def extractHost_def CheckLicenseWith_def CheckLicense_def

section \<open>Substring matchers\<close>

text \<open>
  The contract every pattern list of the program is used under: a matcher accepts exactly
  the strings with one of its patterns inside, so what it accepts it still accepts inside
  any longer string.
\<close>

locale substring_matcher =
  fixes matches :: "string \<Rightarrow> bool" and patterns :: "string list"
  assumes matches_iff: "matches s \<longleftrightarrow> (\<exists>p\<in>set patterns. sublist p s)"
begin

lemma matches_mono: "matches s \<Longrightarrow> sublist s t \<Longrightarrow> matches t"
  by (meson matches_iff sublist_order.order_trans)

lemma matches_append: "matches s \<Longrightarrow> matches (a @ s @ b)"
  by (rule matches_mono) auto

lemma matches_pattern: "p \<in> set patterns \<Longrightarrow> matches (a @ p @ b)"
  by (auto simp: matches_iff)

lemma not_matches_empty: "[] \<notin> set patterns \<Longrightarrow> \<not> matches []"
  by (auto simp: matches_iff)

end

lemma contains_any_iff: "contains_any s ps \<longleftrightarrow> (\<exists>p\<in>set ps. sublist p s)"
  by (auto simp: contains_any_def list_ex_iff Contains_iff_sublist)

lemma contains_extra_iff: "contains_extra s ps \<longleftrightarrow> (\<exists>p\<in>set ps. p \<noteq> [] \<and> sublist p s)"
  by (auto simp: contains_extra_def list_ex_iff Contains_iff_sublist)

interpretation logo: substring_matcher IsLogoOrBanner LogoBannerPatterns
  by unfold_locales (simp add: IsLogoOrBanner_def contains_any_iff)

interpretation blocked_host: substring_matcher "\<lambda>h. contains_any h BlockedDomains" BlockedDomains
  by unfold_locales (rule contains_any_iff)

interpretation safe_host: substring_matcher "\<lambda>h. contains_any h SafeDomains" SafeDomains
  by unfold_locales (rule contains_any_iff)

section \<open>Facts\<close>

lemma isBlockedWith_Nil [simp]: "\<not> isBlockedWith u '''' extra"
  by (simp add: isBlockedWith_def)

lemma isBlockedWith_plain:
  assumes "plain_host h" and "plain_path p"
  shows "isBlockedWith u (''https://'' @ h @ p) extra \<longleftrightarrow>
     h \<noteq> '''' \<and> (contains_any (map lower_byte h) BlockedDomains \<or> contains_extra (map lower_byte h) extra)
     \<or> contains_any (map lower_byte p) BlockedURLPatterns"
proof -
  have asc: "is_ascii s" if "list_all (\<lambda>c. is_alnum c \<or> c \<in> set ''-._/'') s" for s
    using that by (induction s) (auto dest: is_alnum_range)
  have "is_ascii h" "is_ascii p"
    using assms plain_host_path by (auto intro: asc simp: plain_path_def)
  then show ?thesis
    using Parse_plain [OF assms] by (simp add: isBlockedWith_def ToLower_ascii Let_def)
qed

lemma isBlockedWith_mono: "isBlockedWith u x e \<Longrightarrow> set e \<subseteq> set e' \<Longrightarrow> isBlockedWith u x e'"
  by (auto simp: isBlockedWith_def Let_def contains_extra_iff split: if_splits option.splits)

lemma isSafeWith_mono: "isSafeWith u x e \<Longrightarrow> set e \<subseteq> set e' \<Longrightarrow> isSafeWith u x e'"
  by (auto simp: isSafeWith_def Let_def contains_extra_iff split: if_splits)

lemma CheckLicenseWith_Blocked_iff:
  "CheckLicenseWith u i s eb es = LicenseBlocked \<longleftrightarrow> isBlockedWith u i eb \<or> isBlockedWith u s eb"
  by (simp add: CheckLicenseWith_def)

lemma CheckLicenseWith_Safe_iff:
  "CheckLicenseWith u i s eb es = LicenseSafe \<longleftrightarrow>
     \<not> isBlockedWith u i eb \<and> \<not> isBlockedWith u s eb \<and> (isSafeWith u i es \<or> isSafeWith u s es)"
  by (simp add: CheckLicenseWith_def)

lemmas CheckLicense_iffs [simp] = CheckLicenseWith_Blocked_iff CheckLicenseWith_Safe_iff

end
