(* ===== verification/Go_Regexp.thy ===== *)
theory Go_Regexp
  imports Go_Url
begin

text \<open>
  Package \<^verbatim>\<open>regexp\<close> as far as the program uses it. A compiled expression is its syntax tree;
  \<open>rx_match\<close> lists the ways it can match at a position in the order of preference of Go's
  leftmost-first semantics, so the first element is the match the library reports. None of
  the program's expressions iterates over a body that can match the empty string.
\<close>

section \<open>Expressions and their matches\<close>

datatype rx =
    REmpty
  | RSet "char \<Rightarrow> bool"
  | RSeq rx rx
  | RAlt rx rx
  | RStar rx       \<comment> \<open>greedy repetition\<close>
  | RLazy rx       \<comment> \<open>non-greedy repetition\<close>
  | RCap nat rx    \<comment> \<open>numbered group\<close>
  | RWordB         \<comment> \<open>ASCII word boundary\<close>
  | REnd           \<comment> \<open>end of text\<close>

type_synonym rx_pos = "char option \<times> string"
type_synonym rx_caps = "(nat \<times> string) list"

definition word_byte :: "char \<Rightarrow> bool" where
  "word_byte c \<longleftrightarrow> is_alnum c \<or> c = CHR ''_''"

definition at_word_boundary :: "rx_pos \<Rightarrow> bool" where
  "at_word_boundary st =
     ((case fst st of None \<Rightarrow> False | Some c \<Rightarrow> word_byte c)
      \<noteq> (case snd st of [] \<Rightarrow> False | c # _ \<Rightarrow> word_byte c))"

definition add_caps :: "rx_caps \<Rightarrow> (rx_pos \<times> rx_caps) list \<Rightarrow> (rx_pos \<times> rx_caps) list" where
  "add_caps cs rs = map (\<lambda>r. (fst r, cs @ snd r)) rs"

function rx_match :: "rx \<Rightarrow> rx_pos \<Rightarrow> (rx_pos \<times> rx_caps) list" where
  "rx_match REmpty st = [(st, [])]"
| "rx_match (RSet P) st =
     (case snd st of [] \<Rightarrow> [] | c # s \<Rightarrow> if P c then [((Some c, s), [])] else [])"
| "rx_match (RSeq a b) st =
     concat (map (\<lambda>r. add_caps (snd r) (rx_match b (fst r))) (rx_match a st))"
| "rx_match (RAlt a b) st = rx_match a st @ rx_match b st"
| "rx_match (RStar a) st =
     concat (map (\<lambda>r. if length (snd (fst r)) < length (snd st)
                       then add_caps (snd r) (rx_match (RStar a) (fst r)) else [])
                 (rx_match a st)) @ [(st, [])]"
| "rx_match (RLazy a) st =
     (st, []) # concat (map (\<lambda>r. if length (snd (fst r)) < length (snd st)
                       then add_caps (snd r) (rx_match (RLazy a) (fst r)) else [])
                 (rx_match a st))"
| "rx_match (RCap n a) st =
     map (\<lambda>r. (fst r, snd r @ [(n, take (length (snd st) - length (snd (fst r))) (snd st))]))
         (rx_match a st)"
| "rx_match RWordB st = (if at_word_boundary st then [(st, [])] else [])"
| "rx_match REnd st = (if snd st = [] then [(st, [])] else [])"
  by pat_completeness auto
termination
  by (relation "measures [\<lambda>(r, st). size r, \<lambda>(r, st). length (snd st)]") auto

declare rx_match.simps(5,6) [simp del]

text \<open>\<^verbatim>\<open>m[n]\<close> of a match: the last text the group captured, empty if it took no part.\<close>

definition rx_group :: "rx_caps \<Rightarrow> nat \<Rightarrow> string" where
  "rx_group cs n = (case map_of (rev cs) n of None \<Rightarrow> '''' | Some t \<Rightarrow> t)"

text \<open>The leftmost match from a position on: the matched text, the groups, and where it ends.\<close>

fun rx_find_from :: "rx \<Rightarrow> char option \<Rightarrow> string \<Rightarrow> (string \<times> rx_caps \<times> rx_pos) option" where
  "rx_find_from r p [] =
     (case rx_match r (p, []) of [] \<Rightarrow> None | (st, cs) # _ \<Rightarrow> Some ([], cs, st))"
| "rx_find_from r p (c # s) =
     (case rx_match r (p, c # s) of
        (st, cs) # _ \<Rightarrow> Some (take (Suc (length s) - length (snd st)) (c # s), cs, st)
      | [] \<Rightarrow> rx_find_from r (Some c) s)"

definition FindStringSubmatch :: "rx \<Rightarrow> string \<Rightarrow> rx_caps option" where
  "FindStringSubmatch r s = map_option (\<lambda>(w, cs, st). cs) (rx_find_from r None s)"

definition MatchString :: "rx \<Rightarrow> string \<Rightarrow> bool" where
  "MatchString r s \<longleftrightarrow> rx_find_from r None s \<noteq> None"

text \<open>Successive matches that do not overlap, for expressions that never match empty text.\<close>

function rx_find_all :: "rx \<Rightarrow> char option \<Rightarrow> string \<Rightarrow> (string \<times> rx_caps) list" where
  "rx_find_all r p s =
     (case rx_find_from r p s of
        None \<Rightarrow> []
      | Some (w, cs, (p', s')) \<Rightarrow>
          (w, cs) # (if length s' < length s then rx_find_all r p' s' else []))"
  by pat_completeness auto
termination
  by (relation "measure (\<lambda>(r, p, s). length s)") auto

declare rx_find_all.simps [simp del]

definition FindAllStringSubmatch :: "rx \<Rightarrow> string \<Rightarrow> (string \<times> rx_caps) list" where
  "FindAllStringSubmatch r s = rx_find_all r None s"

section \<open>Building expressions\<close>

fun RSeqs :: "rx list \<Rightarrow> rx" where
  "RSeqs [] = REmpty"
| "RSeqs [r] = r"
| "RSeqs (r # q # rs) = RSeq r (RSeqs (q # rs))"

definition RPlus :: "rx \<Rightarrow> rx" where
  "RPlus r = RSeq r (RStar r)"

definition ROpt :: "rx \<Rightarrow> rx" where
  "ROpt r = RAlt r REmpty"

definition RByte :: "char \<Rightarrow> rx" where
  "RByte b = RSet (\<lambda>c. c = b)"

definition RLit :: "string \<Rightarrow> rx" where
  "RLit s = RSeqs (map RByte s)"

text \<open>
  A letter under \<^verbatim>\<open>(?i)\<close> matches its case variants under Unicode simple folding: besides the
  other ASCII case, \<^verbatim>\<open>s\<close> folds with U+017F (bytes C5 BF) and \<^verbatim>\<open>k\<close> with U+212A (bytes E2 84 AA).
\<close>

definition RFold :: "char \<Rightarrow> rx" where
  "RFold b =
     (let base = RSet (\<lambda>c. lower_byte c = lower_byte b) in
      if lower_byte b = CHR ''s'' then RAlt base (RSeq (RByte (CHR 0xC5)) (RByte (CHR 0xBF)))
      else if lower_byte b = CHR ''k'' then
        RAlt base (RSeq (RByte (CHR 0xE2)) (RSeq (RByte (CHR 0x84)) (RByte (CHR 0xAA))))
      else base)"

definition RLitI :: "string \<Rightarrow> rx" where
  "RLitI s = RSeqs (map RFold s)"

text \<open>The classes the program's expressions use.\<close>

definition R_quote :: rx where       \<comment> \<open>a single or a double quote\<close>
  "R_quote = RSet (\<lambda>c. c \<in> {CHR 0x22, CHR 0x27})"

definition R_unquoted :: rx where    \<comment> \<open>anything but quotes\<close>
  "R_unquoted = RSet (\<lambda>c. c \<notin> {CHR 0x22, CHR 0x27})"

definition R_intag :: rx where       \<comment> \<open>anything but a closing angle bracket\<close>
  "R_intag = RSet (\<lambda>c. c \<noteq> CHR ''>'')"

definition R_space :: rx where       \<comment> \<open>\<open>\s\<close>\<close>
  "R_space = RSet (\<lambda>c. c \<in> {CHR 9, CHR 10, CHR 12, CHR 13, CHR 32})"

definition R_digit :: rx where       \<comment> \<open>\<open>\d\<close>\<close>
  "R_digit = RSet is_digit"

section \<open>Facts\<close>

text \<open>A match consumes a prefix of what is left.\<close>

lemma suffix_iter:
  assumes q: "q \<in> set rs" and t: "t \<in> set (if c q then add_caps (snd q) (f (fst q)) else [])"
    and IHa: "\<And>r. r \<in> set rs \<Longrightarrow> suffix (snd (fst r)) s"
    and IHb: "\<And>r. c q \<Longrightarrow> r \<in> set (f (fst q)) \<Longrightarrow> suffix (snd (fst r)) (snd (fst q))"
  shows "suffix (snd (fst t)) s"
proof -
  from t obtain t' where "c q" "t' \<in> set (f (fst q))" "fst t = fst t'"
    by (auto simp: add_caps_def split: if_splits)
  then show ?thesis using IHb [of t'] IHa [OF q] by (metis suffix_order.trans)
qed

lemma rx_match_suffix: "r \<in> set (rx_match e st) \<Longrightarrow> suffix (snd (fst r)) (snd st)"
proof (induction e st arbitrary: r rule: rx_match.induct)
  case (2 P st)
  then show ?case by (cases "snd st") (auto split: if_splits intro: suffix_ConsI)
next
  case (3 a b st)
  then obtain q t where q: "q \<in> set (rx_match a st)" and t: "t \<in> set (rx_match b (fst q))"
    and r: "fst r = fst t"
    by (auto simp: add_caps_def)
  from 3(2) [OF q t] 3(1) [OF q] show ?case unfolding r by (rule suffix_order.trans)
next
  case (5 a st)
  show ?case
  proof (cases "r = (st, [])")
    case False
    with 5(3) obtain q where q: "q \<in> set (rx_match a st)"
      and r: "r \<in> set (if length (snd (fst q)) < length (snd st) then add_caps (snd q) (rx_match (RStar a) (fst q)) else [])"
      by (auto simp: rx_match.simps(5))
    show ?thesis using q r by (rule suffix_iter) (fact 5(1), use 5(2) [OF q] in blast)
  qed simp
next
  case (6 a st)
  show ?case
  proof (cases "r = (st, [])")
    case False
    with 6(3) obtain q where q: "q \<in> set (rx_match a st)"
      and r: "r \<in> set (if length (snd (fst q)) < length (snd st) then add_caps (snd q) (rx_match (RLazy a) (fst q)) else [])"
      by (auto simp: rx_match.simps(6))
    show ?thesis using q r by (rule suffix_iter) (fact 6(1), use 6(2) [OF q] in blast)
  qed simp
qed (auto simp: add_caps_def split: if_splits)

section \<open>What a match contains\<close>

text \<open>
  The text a match consumed and the groups it captured, without the order of preference and
  without the zero-width conditions.
\<close>

inductive rx_rel :: "rx \<Rightarrow> string \<Rightarrow> rx_caps \<Rightarrow> bool" where
  rel_empty: "rx_rel REmpty [] []"
| rel_set: "P c \<Longrightarrow> rx_rel (RSet P) [c] []"
| rel_seq: "rx_rel a w1 c1 \<Longrightarrow> rx_rel b w2 c2 \<Longrightarrow> rx_rel (RSeq a b) (w1 @ w2) (c1 @ c2)"
| rel_left: "rx_rel a w c \<Longrightarrow> rx_rel (RAlt a b) w c"
| rel_right: "rx_rel b w c \<Longrightarrow> rx_rel (RAlt a b) w c"
| rel_star_nil: "rx_rel (RStar a) [] []"
| rel_star: "rx_rel a w1 c1 \<Longrightarrow> rx_rel (RStar a) w2 c2 \<Longrightarrow> rx_rel (RStar a) (w1 @ w2) (c1 @ c2)"
| rel_lazy_nil: "rx_rel (RLazy a) [] []"
| rel_lazy: "rx_rel a w1 c1 \<Longrightarrow> rx_rel (RLazy a) w2 c2 \<Longrightarrow> rx_rel (RLazy a) (w1 @ w2) (c1 @ c2)"
| rel_cap: "rx_rel a w c \<Longrightarrow> rx_rel (RCap n a) w (c @ [(n, w)])"
| rel_wordb: "rx_rel RWordB [] []"
| rel_end: "rx_rel REnd [] []"

inductive_simps rx_rel_simps [simp]:
  "rx_rel REmpty w c"
  "rx_rel (RSet P) w c"
  "rx_rel (RSeq a b) w c"
  "rx_rel (RAlt a b) w c"
  "rx_rel (RCap n a) w c"
  "rx_rel RWordB w c"
  "rx_rel REnd w c"

definition rx_consumed :: "rx \<Rightarrow> string \<Rightarrow> rx_pos \<times> rx_caps \<Rightarrow> bool" where
  "rx_consumed e s r \<longleftrightarrow> (\<exists>w. s = w @ snd (fst r) \<and> rx_rel e w (snd r))"

lemma rx_consumed_seq:
  assumes "rx_consumed a s q" and "t \<in> set (add_caps (snd q) rs)"
    and "\<And>r. r \<in> set rs \<Longrightarrow> rx_consumed b (snd (fst q)) r"
    and "\<And>w1 c1 w2 c2. rx_rel a w1 c1 \<Longrightarrow> rx_rel b w2 c2 \<Longrightarrow> rx_rel e (w1 @ w2) (c1 @ c2)"
  shows "rx_consumed e s t"
proof -
  from assms(2) obtain t' where t': "t' \<in> set rs" "t = (fst t', snd q @ snd t')"
    by (auto simp: add_caps_def)
  from assms(1) obtain w1 where w1: "s = w1 @ snd (fst q)" "rx_rel a w1 (snd q)"
    by (auto simp: rx_consumed_def)
  from assms(3) [OF t'(1)] obtain w2 where w2: "snd (fst q) = w2 @ snd (fst t')" "rx_rel b w2 (snd t')"
    by (auto simp: rx_consumed_def)
  have "s = (w1 @ w2) @ snd (fst t)" using w1(1) w2(1) t'(2) by simp
  moreover have "rx_rel e (w1 @ w2) (snd t)" using assms(4) [OF w1(2) w2(2)] t'(2) by simp
  ultimately show ?thesis unfolding rx_consumed_def by blast
qed

lemma rx_match_consumed: "r \<in> set (rx_match e st) \<Longrightarrow> rx_consumed e (snd st) r"
proof (induction e st arbitrary: r rule: rx_match.induct)
  case (2 P st)
  then show ?case by (cases "snd st") (auto simp: rx_consumed_def split: if_splits)
next
  case (3 a b st)
  then obtain q where q: "q \<in> set (rx_match a st)" and r: "r \<in> set (add_caps (snd q) (rx_match b (fst q)))"
    by auto
  show ?case
    by (rule rx_consumed_seq [OF 3(1) [OF q] r 3(2) [OF q]]) (auto intro: rel_seq)
next
  case (4 a b st)
  then show ?case unfolding rx_consumed_def by (fastforce simp del: rx_rel_simps intro: rel_left rel_right)
next
  case (5 a st)
  show ?case
  proof (cases "r = (st, [])")
    case True
    then show ?thesis by (auto simp: rx_consumed_def intro: rel_star_nil)
  next
    case False
    with 5(3) obtain q where q: "q \<in> set (rx_match a st)" and l: "length (snd (fst q)) < length (snd st)"
      and r: "r \<in> set (add_caps (snd q) (rx_match (RStar a) (fst q)))"
      by (auto simp: rx_match.simps(5) split: if_splits)
    show ?thesis
      by (rule rx_consumed_seq [OF 5(1) [OF q] r 5(2) [OF q l]]) (auto intro: rel_star)
  qed
next
  case (6 a st)
  show ?case
  proof (cases "r = (st, [])")
    case True
    then show ?thesis by (auto simp: rx_consumed_def intro: rel_lazy_nil)
  next
    case False
    with 6(3) obtain q where q: "q \<in> set (rx_match a st)" and l: "length (snd (fst q)) < length (snd st)"
      and r: "r \<in> set (add_caps (snd q) (rx_match (RLazy a) (fst q)))"
      by (auto simp: rx_match.simps(6) split: if_splits)
    show ?thesis
      by (rule rx_consumed_seq [OF 6(1) [OF q] r 6(2) [OF q l]]) (auto intro: rel_lazy)
  qed
next
  case (7 n a st)
  then obtain r' where r': "r' \<in> set (rx_match a st)"
    and r: "r = (fst r', snd r' @ [(n, take (length (snd st) - length (snd (fst r'))) (snd st))])"
    by auto
  from 7(1) [OF r'] obtain w where "snd st = w @ snd (fst r')" "rx_rel a w (snd r')"
    by (auto simp: rx_consumed_def)
  then show ?case by (auto simp: rx_consumed_def r)
qed (auto simp: rx_consumed_def split: if_splits)

lemma rx_find_from_rel:
  "rx_find_from e p s = Some (w, cs, st) \<Longrightarrow> (\<exists>pre. s = pre @ w @ snd st) \<and> rx_rel e w cs"
proof (induction e p s rule: rx_find_from.induct)
  case (1 r p)
  then obtain x xs where "rx_match r (p, []) = x # xs" and "w = []" "x = (st, cs)"
    by (auto split: list.splits)
  then show ?case using rx_match_consumed [of x r "(p, [])"] by (auto simp: rx_consumed_def)
next
  case (2 r p c s)
  show ?case
  proof (cases "rx_match r (p, c # s)")
    case Nil
    with 2 obtain pre where "s = pre @ w @ snd st" "rx_rel r w cs" by auto
    then have "c # s = (c # pre) @ w @ snd st" by simp
    then show ?thesis using \<open>rx_rel r w cs\<close> by blast
  next
    case (Cons x xs)
    with 2(2) have x: "x = (st, cs)" and w: "w = take (Suc (length s) - length (snd st)) (c # s)"
      by (auto split: prod.splits)
    from rx_match_consumed [of x r "(p, c # s)"] Cons x
    obtain v where v: "c # s = v @ snd st" "rx_rel r v cs" by (auto simp: rx_consumed_def)
    from v(1) have "length v = Suc (length s) - length (snd st)"
      by (metis length_Cons length_append add_diff_cancel_right')
    then have "w = v" using v(1) w by simp
    with v show ?thesis by (metis append_Nil)
  qed
qed

lemma FindStringSubmatch_rel:
  "FindStringSubmatch e s = Some cs \<Longrightarrow> \<exists>w. Contains s w \<and> rx_rel e w cs"
  by (fastforce simp: FindStringSubmatch_def Contains_iff dest!: rx_find_from_rel)

text \<open>Expressions without groups capture nothing.\<close>

fun rx_nocap :: "rx \<Rightarrow> bool" where
  "rx_nocap (RSeq a b) = (rx_nocap a \<and> rx_nocap b)"
| "rx_nocap (RAlt a b) = (rx_nocap a \<and> rx_nocap b)"
| "rx_nocap (RStar a) = rx_nocap a"
| "rx_nocap (RLazy a) = rx_nocap a"
| "rx_nocap (RCap n a) = False"
| "rx_nocap _ = True"

lemma rx_rel_nocap: "rx_rel e w cs \<Longrightarrow> rx_nocap e \<Longrightarrow> cs = []"
  by (induction rule: rx_rel.induct) auto

lemma rx_rel_star_set: "rx_rel (RStar (RSet P)) w cs \<Longrightarrow> list_all P w \<and> cs = []"
  by (induction "RStar (RSet P)" w cs rule: rx_rel.induct) auto

lemma rx_rel_plus_set: "rx_rel (RPlus (RSet P)) w cs \<Longrightarrow> w \<noteq> [] \<and> list_all P w \<and> cs = []"
  by (auto simp: RPlus_def dest: rx_rel_star_set)

lemma rx_nocap_Seqs: "(\<forall>r\<in>set rs. rx_nocap r) \<Longrightarrow> rx_nocap (RSeqs rs)"
  by (induction rs rule: RSeqs.induct) auto

lemma rx_nocap_builders [simp]:
  "rx_nocap (RByte b)" "rx_nocap (RLit s)" "rx_nocap (RFold b)" "rx_nocap (RLitI s)"
  "rx_nocap (RPlus r) = rx_nocap r" "rx_nocap (ROpt r) = rx_nocap r"
  "rx_nocap R_quote" "rx_nocap R_unquoted" "rx_nocap R_intag" "rx_nocap R_space" "rx_nocap R_digit"
  by (auto simp: RByte_def RLit_def RFold_def RLitI_def RPlus_def ROpt_def Let_def R_quote_def
      R_unquoted_def R_intag_def R_space_def R_digit_def intro!: rx_nocap_Seqs)

text \<open>On ASCII text a folded literal matches its case variants only.\<close>

lemma rx_rel_RFold_ascii: "rx_rel (RFold b) w cs \<Longrightarrow> is_ascii w \<Longrightarrow> map lower_byte w = [lower_byte b] \<and> cs = []"
  by (auto simp: RFold_def RByte_def Let_def split: if_splits)

lemma rx_rel_Seqs_Cons:
  "rx_rel (RSeqs (r # rs)) w cs \<longleftrightarrow>
     (\<exists>w1 c1 w2 c2. w = w1 @ w2 \<and> cs = c1 @ c2 \<and> rx_rel r w1 c1 \<and> rx_rel (RSeqs rs) w2 c2)"
  by (cases rs) auto

lemma rx_rel_RLitI_ascii:
  "rx_rel (RLitI s) w cs \<Longrightarrow> is_ascii w \<Longrightarrow> map lower_byte w = map lower_byte s \<and> cs = []"
proof (induction s arbitrary: w cs)
  case Nil
  then show ?case by (simp add: RLitI_def)
next
  case (Cons b s)
  then obtain w1 c1 w2 c2 where "w = w1 @ w2" "cs = c1 @ c2"
    and 1: "rx_rel (RFold b) w1 c1" and 2: "rx_rel (RLitI s) w2 c2"
    by (auto simp: RLitI_def rx_rel_Seqs_Cons)
  moreover from this Cons.prems have "is_ascii w1" "is_ascii w2" by auto
  ultimately show ?case using Cons.IH [OF 2] rx_rel_RFold_ascii [OF 1] by auto
qed

text \<open>
  An expression with a single group: what \<^verbatim>\<open>m[n]\<close> returns is a match of the group's body and
  a part of the matched text.
\<close>

lemma rx_rel_Seqs_append:
  "rx_rel (RSeqs (rs @ qs)) w cs \<longleftrightarrow>
     (\<exists>w1 c1 w2 c2. w = w1 @ w2 \<and> cs = c1 @ c2 \<and> rx_rel (RSeqs rs) w1 c1 \<and> rx_rel (RSeqs qs) w2 c2)"
proof (induction rs arbitrary: w cs)
  case (Cons r rs)
  show ?case by (simp add: rx_rel_Seqs_Cons Cons.IH) (metis append.assoc)
qed force

lemma rx_rel_single_caps:
  assumes rel: "rx_rel (RSeqs (pre @ RCap n b # post)) w cs"
    and nocap: "\<forall>r\<in>set (pre @ post). rx_nocap r" "rx_nocap b"
  shows "\<exists>v. rx_rel b v [] \<and> cs = [(n, v)] \<and> Contains w v"
proof -
  from rel obtain w1 c1 v c2 w3 c3 where w: "w = w1 @ v @ w3" and cs: "cs = c1 @ (c2 @ [(n, v)]) @ c3"
    and r1: "rx_rel (RSeqs pre) w1 c1" and r2: "rx_rel b v c2" and r3: "rx_rel (RSeqs post) w3 c3"
    by (auto simp: rx_rel_Seqs_append rx_rel_Seqs_Cons)
  have "c1 = []" "c2 = []" "c3 = []"
    using rx_rel_nocap [OF r1] rx_rel_nocap [OF r2] rx_rel_nocap [OF r3] nocap
    by (auto intro: rx_nocap_Seqs)
  then show ?thesis using w cs r2 by (auto simp: Contains_iff)
qed

lemma rx_group_single [simp]: "rx_group [(n, v)] k = (if k = n then v else '''')"
  by (simp add: rx_group_def)

lemma rx_rel_single_group:
  assumes "rx_rel (RSeqs (pre @ RCap n b # post)) w cs"
    and "\<forall>r\<in>set (pre @ post). rx_nocap r" "rx_nocap b"
  shows "\<exists>v. rx_rel b v [] \<and> rx_group cs n = v \<and> Contains w v"
  using rx_rel_single_caps [OF assms] by auto

lemma FindStringSubmatch_single_group:
  assumes "FindStringSubmatch (RSeqs (pre @ RCap n b # post)) s = Some m"
    and "\<forall>r\<in>set (pre @ post). rx_nocap r" "rx_nocap b"
  shows "rx_rel b (rx_group m n) [] \<and> Contains s (rx_group m n)"
proof -
  from FindStringSubmatch_rel [OF assms(1)] obtain w
    where "Contains s w" "rx_rel (RSeqs (pre @ RCap n b # post)) w m" by blast
  with rx_rel_single_group [OF _ assms(2,3)] show ?thesis by (metis Contains_trans)
qed

end
