(* ===== verification/Go_Html.thy ===== *)
theory Go_Html
  imports Go_Url
begin

text \<open>
  \<^verbatim>\<open>html.UnescapeString\<close>. The table of named character references (2,231 entries of the HTML
  standard, one or two code points each) is a parameter; numeric references are decoded as
  the library does, with its 32-bit rune arithmetic and its replacement table.
\<close>

type_synonym entities = "string \<Rightarrow> rune list option"

definition replacementTable :: "nat list" where
  "replacementTable =
    [0x20AC, 0x81, 0x201A, 0x192, 0x201E, 0x2026, 0x2020, 0x2021,
     0x2C6, 0x2030, 0x160, 0x2039, 0x152, 0x8D, 0x17D, 0x8F,
     0x90, 0x2018, 0x2019, 0x201C, 0x201D, 0x2022, 0x2013, 0x2014,
     0x2DC, 0x2122, 0x161, 0x203A, 0x153, 0x9D, 0x17E, 0x178]"

text \<open>The value of a run of digits in a Go \<^verbatim>\<open>rune\<close> (a signed 32-bit integer that wraps).\<close>

definition wrap32 :: "int \<Rightarrow> int" where
  "wrap32 x = (x + 2 ^ 31) mod 2 ^ 32 - 2 ^ 31"

fun rune_digits :: "int \<Rightarrow> int \<Rightarrow> string \<Rightarrow> int" where
  "rune_digits base acc [] = acc"
| "rune_digits base acc (c # s) = rune_digits base (wrap32 (base * acc + int (unhex c))) s"

definition numeric_rune :: "int \<Rightarrow> rune" where
  "numeric_rune x =
     (if 0x80 \<le> x \<and> x \<le> 0x9F then replacementTable ! nat (x - 0x80)
      else if x \<le> 0 \<or> (0xD800 \<le> x \<and> x \<le> 0xDFFF) \<or> x > 0x10FFFF then RuneError
      else nat x)"

definition after_semicolon :: "string \<Rightarrow> string" where
  "after_semicolon s = (case s of [] \<Rightarrow> [] | c # t \<Rightarrow> if c = CHR '';'' then t else s)"

definition encode_runes :: "rune list \<Rightarrow> string" where
  "encode_runes rs = concat (map EncodeRune rs)"

text \<open>
  The longest proper prefix (of at most 6 and at least 2 letters) of an unknown name that is
  itself a name with a single code point.
\<close>

definition shorter_name :: "entities \<Rightarrow> string \<Rightarrow> (nat \<times> rune list) option" where
  "shorter_name E name =
     List.find (\<lambda>(j, rs). length rs = 1)
       (List.map_filter (\<lambda>j. map_option (Pair j) (E (take j name)))
          (rev [2..<Suc (min 6 (length name - 1))]))"

text \<open>
  \<^verbatim>\<open>unescapeEntity\<close> on the text after an ampersand: what is written and what is left to read.
\<close>

definition unescapeEntity :: "entities \<Rightarrow> string \<Rightarrow> string \<times> string" where
  "unescapeEntity E s =
     (case s of
        [] \<Rightarrow> (''&'', [])
      | c # t \<Rightarrow>
         if c = CHR ''#'' then
           (if length t < 2 then (''&'', s)
            else let hex = (hd t = CHR ''x'' \<or> hd t = CHR ''X'');
                     body = (if hex then tl t else t);
                     ds = takeWhile (if hex then ishex else is_digit) body;
                     rest = after_semicolon (drop (length ds) body);
                     read = length body - length rest
                 in if read \<le> (if hex then 0 else 1) then (''&'', s)
                    else (EncodeRune (numeric_rune (rune_digits (if hex then 16 else 10) 0 ds)), rest))
         else
           (let name0 = takeWhile is_alnum s;
                rest0 = drop (length name0) s;
                semi = (rest0 \<noteq> [] \<and> hd rest0 = CHR '';'');
                name = (if semi then name0 @ '';'' else name0);
                rest = (if semi then tl rest0 else rest0)
            in if name = [] then (''&'', s)
               else (case E name of
                   Some rs \<Rightarrow> (encode_runes rs, rest)
                 | None \<Rightarrow>
                    (case shorter_name E name of
                       Some (j, rs) \<Rightarrow> (encode_runes rs, drop j s)
                     | None \<Rightarrow> (CHR ''&'' # name, rest)))))"

lemma length_after_semicolon: "length (after_semicolon t) \<le> length t"
  by (auto simp: after_semicolon_def split: list.splits)

lemma unescapeEntity_length: "length (snd (unescapeEntity E s)) \<le> length s"
proof (cases s)
  case (Cons c t)
  have numeric: "length (after_semicolon (drop n b)) \<le> length (c # t)"
    if "b = t \<or> b = tl t" for n b
    using that length_after_semicolon [of "drop n b"] by auto
  show ?thesis
  proof (cases "c = CHR ''#''")
    case True
    then show ?thesis using Cons numeric by (simp add: unescapeEntity_def Let_def)
  next
    case False
    have "length (tl (drop n s)) \<le> length s" "length (drop n s) \<le> length s" for n by auto
    then show ?thesis using Cons False
      by (simp add: unescapeEntity_def Let_def split: option.splits)
  qed
qed (simp add: unescapeEntity_def)

function UnescapeString :: "entities \<Rightarrow> string \<Rightarrow> string" where
  "UnescapeString E [] = []"
| "UnescapeString E (c # s) =
     (if c = CHR ''&'' then
        (let r = unescapeEntity E s in fst r @ UnescapeString E (snd r))
      else c # UnescapeString E s)"
  by pat_completeness auto
termination
  by (relation "measure (\<lambda>(E, s). length s)") (auto simp: unescapeEntity_length less_Suc_eq_le)

lemma UnescapeString_plain: "CHR ''&'' \<notin> set s \<Longrightarrow> UnescapeString E s = s"
  by (induction s) auto

end
