(* ===== verification/CC_License.thy ===== *)
theory CC_License
  imports Go_Regexp Go_Html License
begin

text \<open>
  cclicense.go: Creative Commons licence URLs, recognised in a URL and extracted from HTML.
\<close>

section \<open>Definitions\<close>

definition ccLicensePathSegments :: "string list" where
  "ccLicensePathSegments = [''creativecommons.org/licenses/'', ''creativecommons.org/publicdomain/'']"

definition IsCCLicenseURL :: "unicode \<Rightarrow> string \<Rightarrow> bool" where
  "IsCCLicenseURL u rawURL =
     (if rawURL = '''' then False
      else contains_any (ToLower u rawURL) ccLicensePathSegments)"

text \<open>Pattern 1: \<^verbatim>\<open>rel="license" ... href="URL"\<close>; pattern 2 with the attributes reversed.\<close>

definition ccRelHrefRe :: rx where
  "ccRelHrefRe = RSeqs [RLitI ''rel='', R_quote, RLitI ''license'', R_quote, RStar R_intag,
     RLitI ''href='', R_quote, RCap 1 (RPlus R_unquoted), R_quote]"

definition ccHrefRelRe :: rx where
  "ccHrefRelRe = RSeqs [RLitI ''href='', R_quote, RCap 1 (RPlus R_unquoted), R_quote, RStar R_intag,
     RLitI ''rel='', R_quote, RLitI ''license'', R_quote]"

text \<open>The URL group of patterns 3 and 4: a Creative Commons licence path.\<close>

definition ccURLRe :: rx where
  "ccURLRe = RSeqs [ROpt (RSeqs [RLitI ''http'', ROpt (RFold (CHR ''s'')), RByte (CHR '':'')]),
     RLitI ''//creativecommons.org/'', RAlt (RLitI ''licenses'') (RLitI ''publicdomain''),
     RByte (CHR ''/''), RPlus R_unquoted]"

definition ccBareHrefRe :: rx where
  "ccBareHrefRe = RSeqs [RLitI ''href='', R_quote, RCap 1 ccURLRe, R_quote]"

definition ccMetaContentRe :: rx where
  "ccMetaContentRe = RSeqs [RLitI ''content='', R_quote, RCap 1 ccURLRe, R_quote]"

definition matchCCFromRel :: "unicode \<Rightarrow> entities \<Rightarrow> rx \<Rightarrow> string \<Rightarrow> string" where
  "matchCCFromRel u E re pageHTML =
     (case FindStringSubmatch re pageHTML of
        None \<Rightarrow> ''''
      | Some m \<Rightarrow>
          let url = UnescapeString E (rx_group m 1) in
          if IsCCLicenseURL u url then url else '''')"

definition ExtractCCLicense :: "unicode \<Rightarrow> entities \<Rightarrow> string \<Rightarrow> string" where
  "ExtractCCLicense u E pageHTML =
     (if matchCCFromRel u E ccRelHrefRe pageHTML \<noteq> '''' then matchCCFromRel u E ccRelHrefRe pageHTML
      else if matchCCFromRel u E ccHrefRelRe pageHTML \<noteq> '''' then matchCCFromRel u E ccHrefRelRe pageHTML
      else (case FindStringSubmatch ccBareHrefRe pageHTML of
          Some m \<Rightarrow> UnescapeString E (rx_group m 1)
        | None \<Rightarrow> (case FindStringSubmatch ccMetaContentRe pageHTML of
            Some m \<Rightarrow> UnescapeString E (rx_group m 1)
          | None \<Rightarrow> '''')))"

section \<open>Facts\<close>

interpretation cc_path: substring_matcher "\<lambda>s. contains_any s ccLicensePathSegments" ccLicensePathSegments
  by unfold_locales (rule contains_any_iff)

lemma IsCCLicenseURL_iff: "IsCCLicenseURL u s \<longleftrightarrow> contains_any (ToLower u s) ccLicensePathSegments"
  using cc_path.not_matches_empty
  by (auto simp: IsCCLicenseURL_def) (simp add: ccLicensePathSegments_def)

text \<open>Lower-casing distributes over an ASCII prefix.\<close>

lemma chunks_ascii_append: "is_ascii a \<Longrightarrow> chunks (a @ s) = map (\<lambda>c. (of_char c, [c])) a @ chunks s"
  by (induction a) (auto simp: DecodeRune_ascii)

lemma EncodeRune_lower_ascii: "of_char c < (0x80::nat) \<Longrightarrow> EncodeRune (lower_rune u (of_char c)) = [lower_byte c]"
  by (auto simp: EncodeRune_def lower_rune_def lower_byte_def upper_ascii_def Let_def)

lemma concat_lower_ascii:
  "is_ascii a \<Longrightarrow> concat (map (\<lambda>r. EncodeRune (lower_rune u r)) (map of_char a)) = map lower_byte a"
  by (induction a) (auto simp: EncodeRune_lower_ascii)

lemma ToLower_ascii_append: "is_ascii a \<Longrightarrow> ToLower u (a @ s) = map lower_byte a @ ToLower u s"
  using concat_lower_ascii [of a u]
  by (auto simp: ToLower_def runes_def chunks_ascii_append comp_def)

lemma UnescapeString_append: "CHR ''&'' \<notin> set a \<Longrightarrow> UnescapeString E (a @ s) = a @ UnescapeString E s"
  by (induction a) auto

text \<open>A URL captured by patterns 3 and 4 from an ASCII page names a licence path.\<close>

lemma ccURLRe_scheme:
  assumes "rx_rel (ROpt (RSeqs [RLitI ''http'', ROpt (RFold (CHR ''s'')), RByte (CHR '':'')])) x []"
    and "is_ascii x"
  shows "map lower_byte x \<in> {'''', ''http:'', ''https:''}"
proof -
  from assms(1) consider "x = []" | h s where "x = h @ s @ '':''" "rx_rel (RLitI ''http'') h []"
    "s = [] \<or> rx_rel (RFold (CHR ''s'')) s []"
    by (auto simp: ROpt_def RByte_def)
  then show ?thesis
  proof cases
    case 2
    then show ?thesis
      using rx_rel_RLitI_ascii [of "''http''" h "[]"] rx_rel_RFold_ascii [of "CHR ''s''" s "[]"] assms(2)
      by (auto simp: lower_byte_def upper_ascii_def)
  qed simp
qed

lemma ccURLRe_path:
  assumes rel: "rx_rel ccURLRe v []" and asc: "is_ascii v"
  shows "\<exists>a b. v = a @ b \<and> CHR ''&'' \<notin> set a \<and> contains_any (map lower_byte a) ccLicensePathSegments"
proof -
  from rel obtain x y z t where v: "v = x @ y @ z @ ''/'' @ t"
    and x: "rx_rel (ROpt (RSeqs [RLitI ''http'', ROpt (RFold (CHR ''s'')), RByte (CHR '':'')])) x []"
    and y: "rx_rel (RLitI ''//creativecommons.org/'') y []"
    and z: "rx_rel (RLitI ''licenses'') z [] \<or> rx_rel (RLitI ''publicdomain'') z []"
    unfolding ccURLRe_def RByte_def by auto
  have x': "map lower_byte x \<in> {'''', ''http:'', ''https:''}"
    using ccURLRe_scheme [OF x] asc v by simp
  have y': "map lower_byte y = ''//creativecommons.org/''"
    using rx_rel_RLitI_ascii [OF y] asc v by (simp add: lower_byte_def upper_ascii_def)
  have z': "map lower_byte z \<in> {''licenses'', ''publicdomain''}"
    using z rx_rel_RLitI_ascii [of "''licenses''" z "[]"] rx_rel_RLitI_ascii [of "''publicdomain''" z "[]"] asc v
    by (auto simp: lower_byte_def upper_ascii_def)
  let ?a = "x @ y @ z @ ''/''"
  obtain p q where low: "map lower_byte ?a = p @ ''//creativecommons.org/'' @ q @ ''/''"
    and p: "p \<in> {'''', ''http:'', ''https:''}" and q: "q \<in> {''licenses'', ''publicdomain''}"
    using x' y' z' by (auto simp: lower_byte_def upper_ascii_def)
  have "contains_any (map lower_byte ?a) ccLicensePathSegments"
    unfolding low using p q by (auto simp: contains_any_def ccLicensePathSegments_def Contains_def)
  moreover have "CHR ''&'' \<notin> set ?a"
  proof
    assume "CHR ''&'' \<in> set ?a"
    then have "lower_byte (CHR ''&'') \<in> set (map lower_byte ?a)" by (simp only: set_map imageI)
    moreover have "lower_byte (CHR ''&'') = CHR ''&''" by (simp add: lower_byte_def upper_ascii_def)
    ultimately show False unfolding low using p q by auto
  qed
  ultimately show ?thesis using v by (metis append.assoc)
qed

lemma is_ascii_Contains: "Contains s v \<Longrightarrow> is_ascii s \<Longrightarrow> is_ascii v"
  by (auto simp: Contains_iff)

lemma ccURLRe_IsCC:
  assumes "rx_rel ccURLRe v []" and "is_ascii v"
  shows "IsCCLicenseURL u (UnescapeString E v)"
proof -
  from ccURLRe_path [OF assms] obtain a b where v: "v = a @ b" "CHR ''&'' \<notin> set a"
    and a: "contains_any (map lower_byte a) ccLicensePathSegments" by blast
  have "is_ascii a" using assms v by simp
  then have "ToLower u (UnescapeString E v) = [] @ map lower_byte a @ ToLower u (UnescapeString E b)"
    using v by (simp add: UnescapeString_append ToLower_ascii_append)
  then show ?thesis unfolding IsCCLicenseURL_iff using cc_path.matches_append [OF a] by metis
qed

lemma nocap_cc: "rx_nocap ccURLRe"
  unfolding ccURLRe_def by (rule rx_nocap_Seqs) (auto intro!: rx_nocap_Seqs)

lemma cc_capture:
  assumes "FindStringSubmatch ccBareHrefRe s = Some m \<or> FindStringSubmatch ccMetaContentRe s = Some m"
    and "is_ascii s"
  shows "IsCCLicenseURL u (UnescapeString E (rx_group m 1))"
proof -
  have "rx_rel ccURLRe (rx_group m 1) [] \<and> Contains s (rx_group m 1)"
    using assms(1)
  proof
    assume "FindStringSubmatch ccBareHrefRe s = Some m"
    then show ?thesis
      using FindStringSubmatch_single_group [of "[RLitI ''href='', R_quote]" 1 ccURLRe "[R_quote]" s m] nocap_cc
      by (simp add: ccBareHrefRe_def)
  next
    assume "FindStringSubmatch ccMetaContentRe s = Some m"
    then show ?thesis
      using FindStringSubmatch_single_group [of "[RLitI ''content='', R_quote]" 1 ccURLRe "[R_quote]" s m] nocap_cc
      by (simp add: ccMetaContentRe_def)
  qed
  then show ?thesis using ccURLRe_IsCC is_ascii_Contains assms(2) by blast
qed

lemma matchCCFromRel_IsCC: "matchCCFromRel u E re s \<noteq> '''' \<Longrightarrow> IsCCLicenseURL u (matchCCFromRel u E re s)"
  by (auto simp: matchCCFromRel_def Let_def split: option.splits if_splits)

end
