(* ===== verification/Metadata.thy ===== *)
theory Metadata
  imports CC_License
begin

text \<open>
  metadata.go and metadata_tags.go: the rights fields of an image's EXIF, IPTC and XMP
  metadata, the stock-agency test over them and the Creative Commons test. The decoder of the
  third-party package imagemeta is a parameter: the tags it hands to the callbacks, in order,
  and whether it ends with an error.
\<close>

section \<open>The metadata record and the tags\<close>

record ImageMetadata =
  EXIFCopyright :: string
  EXIFArtist :: string
  IPTCCopyright :: string
  IPTCCredit :: string
  IPTCSource :: string
  IPTCByline :: string
  XMPLicense :: string
  XMPWebStatement :: string
  XMPUsageTerms :: string
  XMPMarked :: bool
  DCRights :: string
  DCCreator :: string

definition zero_metadata :: ImageMetadata where
  "zero_metadata = \<lparr>EXIFCopyright = '''', EXIFArtist = '''', IPTCCopyright = '''', IPTCCredit = '''',
     IPTCSource = '''', IPTCByline = '''', XMPLicense = '''', XMPWebStatement = '''',
     XMPUsageTerms = '''', XMPMarked = False, DCRights = '''', DCCreator = ''''\<rparr>"

text \<open>A tag value has type \<^verbatim>\<open>any\<close>: the cases the program distinguishes, and everything else.\<close>

datatype tag_value = TVString string | TVStrings "string list" | TVAny "tag_value list" | TVBool bool | TVOther

datatype tag_source = SrcEXIF | SrcIPTC | SrcXMP | SrcOther

record TagInfo =
  ti_Source :: tag_source
  ti_Tag :: string
  ti_Value :: tag_value

type_synonym meta_decoder = "bytes \<Rightarrow> TagInfo list \<times> bool"

section \<open>Tag handlers\<close>

fun tagValueString :: "tag_value \<Rightarrow> string" where
  "tagValueString (TVString val) = val"
| "tagValueString (TVStrings val) = (case val of [] \<Rightarrow> '''' | v # _ \<Rightarrow> v)"
| "tagValueString (TVAny val) = (case val of TVString s # _ \<Rightarrow> s | _ \<Rightarrow> '''')"
| "tagValueString _ = ''''"

text \<open>The handlers return the updated record and the updated \<^verbatim>\<open>found\<close> flag.\<close>

definition handleIPTCTag :: "ImageMetadata \<times> bool \<Rightarrow> TagInfo \<Rightarrow> ImageMetadata \<times> bool" where
  "handleIPTCTag st ti =
     (let (meta, found) = st; s = tagValueString (ti_Value ti) in
      if s = '''' then (meta, found)
      else if ti_Tag ti = ''CopyrightNotice'' then (meta\<lparr>IPTCCopyright := s\<rparr>, True)
      else if ti_Tag ti = ''Credit'' then (meta\<lparr>IPTCCredit := s\<rparr>, True)
      else if ti_Tag ti = ''Byline'' then (meta\<lparr>IPTCByline := s\<rparr>, True)
      else if ti_Tag ti = ''Source'' then (meta\<lparr>IPTCSource := s\<rparr>, True)
      else (meta, found))"

definition handleEXIFTag :: "ImageMetadata \<times> bool \<Rightarrow> TagInfo \<Rightarrow> ImageMetadata \<times> bool" where
  "handleEXIFTag st ti =
     (let (meta, found) = st; s = tagValueString (ti_Value ti) in
      if s = '''' then (meta, found)
      else if ti_Tag ti = ''Copyright'' then (meta\<lparr>EXIFCopyright := s\<rparr>, True)
      else if ti_Tag ti = ''Artist'' then (meta\<lparr>EXIFArtist := s\<rparr>, True)
      else (meta, found))"

definition handleXMPTag :: "ImageMetadata \<times> bool \<Rightarrow> TagInfo \<Rightarrow> ImageMetadata \<times> bool" where
  "handleXMPTag st ti =
     (let (meta, found) = st; s = tagValueString (ti_Value ti) in
      if ti_Tag ti = ''Marked'' then
        (case ti_Value ti of TVBool b \<Rightarrow> (meta\<lparr>XMPMarked := b\<rparr>, True) | _ \<Rightarrow> (meta, found))
      else if ti_Tag ti = ''WebStatement'' then
        (if s \<noteq> '''' then (meta\<lparr>XMPWebStatement := s\<rparr>, True) else (meta, found))
      else if ti_Tag ti = ''UsageTerms'' then
        (if s \<noteq> '''' then (meta\<lparr>XMPUsageTerms := s\<rparr>, True) else (meta, found))
      else if ti_Tag ti = ''License'' then
        (if s \<noteq> '''' then (meta\<lparr>XMPLicense := s\<rparr>, True) else (meta, found))
      else if ti_Tag ti = ''Rights'' then
        (if s \<noteq> '''' then (meta\<lparr>DCRights := s\<rparr>, True) else (meta, found))
      else if ti_Tag ti = ''Creator'' then
        (if s \<noteq> '''' then (meta\<lparr>DCCreator := s\<rparr>, True) else (meta, found))
      else (meta, found))"

fun wantedTags :: "tag_source \<Rightarrow> string list" where
  "wantedTags SrcIPTC = [''CopyrightNotice'', ''Credit'', ''Byline'', ''Source'']"
| "wantedTags SrcEXIF = [''Copyright'', ''Artist'']"
| "wantedTags SrcXMP = [''WebStatement'', ''UsageTerms'', ''License'', ''Marked'', ''Rights'', ''Creator'']"
| "wantedTags SrcOther = []"

definition handleTag :: "ImageMetadata \<times> bool \<Rightarrow> TagInfo \<Rightarrow> ImageMetadata \<times> bool" where
  "handleTag st ti =
     (case ti_Source ti of
        SrcIPTC \<Rightarrow> handleIPTCTag st ti
      | SrcEXIF \<Rightarrow> handleEXIFTag st ti
      | SrcXMP \<Rightarrow> handleXMPTag st ti
      | SrcOther \<Rightarrow> st)"

text \<open>
  \<^verbatim>\<open>ExtractImageMetadata\<close>: nil on empty data, on a decoder error and when no wanted tag carried
  a value.
\<close>

definition ExtractImageMetadata :: "meta_decoder \<Rightarrow> bytes \<Rightarrow> ImageMetadata option" where
  "ExtractImageMetadata dec data =
     (if data = [] then None
      else let (tags, failed) = dec data;
               (meta, found) =
                 foldl handleTag (zero_metadata, False)
                   (filter (\<lambda>ti. ti_Tag ti \<in> set (wantedTags (ti_Source ti))) tags)
           in if failed \<or> \<not> found then None else Some meta)"

section \<open>Stock agencies and Creative Commons\<close>

definition stockMetadataKeywords :: "string list" where
  "stockMetadataKeywords = [''shutterstock'', ''gettyimages'', ''getty images'', ''istockphoto'',
    ''istock'', ''alamy'', ''depositphotos'', ''dreamstime'', ''123rf'', ''adobestock'', ''adobe stock'',
    ''bigstockphoto'', ''stocksy'', ''pond5'', ''masterfile'', ''superstock'', ''agefotostock'',
    ''age fotostock'', ''colourbox'', ''yayimages'', ''vectorstock'', ''freepik'', ''canstockphoto'']"

definition isWordChar :: "char \<Rightarrow> bool" where
  "isWordChar b \<longleftrightarrow> byte_in 97 122 b \<or> byte_in 65 90 b \<or> byte_in 48 57 b"

text \<open>
  The search loop: at each occurrence the neighbouring bytes are looked at; if either is a word
  character, the search goes on in the text after the first byte of the occurrence.
\<close>

function containsWord :: "string \<Rightarrow> string \<Rightarrow> bool" where
  "containsWord tx word =
     (case Index tx word of
        None \<Rightarrow> False
      | Some idx \<Rightarrow>
          if (idx = 0 \<or> \<not> isWordChar (tx ! (idx - 1)))
             \<and> (idx + length word \<ge> length tx \<or> \<not> isWordChar (tx ! (idx + length word)))
          then True
          else containsWord (drop (idx + 1) tx) word)"
  by pat_completeness auto
termination
proof (relation "measure (\<lambda>(t, w). length t)", goal_cases)
  case (2 tx word idx)
  have "tx \<noteq> []" using 2 by (auto split: if_splits)
  then show ?case by simp
qed simp

declare containsWord.simps [simp del]

text \<open>The fields both stock tests scan, in the order of the code.\<close>

definition stock_fields :: "ImageMetadata \<Rightarrow> string list" where
  "stock_fields meta = [EXIFCopyright meta, EXIFArtist meta, IPTCCopyright meta, IPTCCredit meta,
     IPTCSource meta, IPTCByline meta, DCRights meta, DCCreator meta]"

definition stock_field_hit :: "unicode \<Rightarrow> string \<Rightarrow> bool" where
  "stock_field_hit u f \<longleftrightarrow> f \<noteq> '''' \<and> list_ex (containsWord (ToLower u f)) stockMetadataKeywords"

definition IsStockByMetadata :: "unicode \<Rightarrow> ImageMetadata option \<Rightarrow> bool" where
  "IsStockByMetadata u meta =
     (case meta of None \<Rightarrow> False | Some m \<Rightarrow> list_ex (stock_field_hit u) (stock_fields m))"

definition cc_fields :: "ImageMetadata \<Rightarrow> string list" where
  "cc_fields meta = [XMPLicense meta, XMPWebStatement meta, XMPUsageTerms meta, DCRights meta]"

definition IsCCByMetadata :: "unicode \<Rightarrow> ImageMetadata option \<Rightarrow> bool" where
  "IsCCByMetadata u meta =
     (case meta of None \<Rightarrow> False | Some m \<Rightarrow> list_ex (IsCCLicenseURL u) (cc_fields m))"

section \<open>The word test against its specification\<close>

text \<open>\<open>word\<close> occurs at \<open>i\<close> and no word character touches the occurrence.\<close>

definition word_at :: "string \<Rightarrow> string \<Rightarrow> nat \<Rightarrow> bool" where
  "word_at tx word i \<longleftrightarrow> prefix word (drop i tx) \<and> i \<le> length tx
     \<and> (i = 0 \<or> \<not> isWordChar (tx ! (i - 1)))
     \<and> (i + length word \<ge> length tx \<or> \<not> isWordChar (tx ! (i + length word)))"

text \<open>A word that is not one letter repeated cannot occur at two neighbouring offsets.\<close>

definition uniform :: "string \<Rightarrow> bool" where
  "uniform w \<longleftrightarrow> tl w = butlast w"

lemma neighbour_occurrences:
  assumes "prefix w (drop i s)" and "prefix w (drop (Suc i) s)" and "w \<noteq> []"
  shows "uniform w"
proof -
  from assms(1) obtain t where t: "drop i s = w @ t" by (auto simp: prefix_def)
  obtain c v where w: "w = c # v" using assms(3) by (cases w) auto
  from t have "drop (Suc i) s = v @ t" using w by (metis append_Cons drop_Suc list.sel(3) tl_drop)
  with assms(2) have p: "prefix w (v @ t)" by simp
  then have "take (length w) (v @ t) = w" by (metis append_eq_conv_conj prefix_def)
  then have "take (length v) (v @ t) = take (length v) w" using w by (metis le_add2 length_Cons min.absorb1 plus_1_eq_Suc take_take)
  then have "v = take (length v) w" by simp
  then show ?thesis using w by (simp add: uniform_def butlast_conv_take)
qed

lemma word_at_drop:
  assumes w: "w \<noteq> []" "\<not> uniform w" and idx: "Index tx w = Some idx"
    and no: "\<not> word_at tx w idx"
  shows "(\<exists>i. word_at tx w i) \<longleftrightarrow> (\<exists>j. word_at (drop (idx + 1) tx) w j)"
proof -
  have here: "prefix w (drop idx tx)" and len: "idx + length w \<le> length tx"
    using Index_here [OF idx] by simp_all
  have not_next: "\<not> prefix w (drop (Suc idx) tx)"
    using neighbour_occurrences [OF here] w by blast
  have shift: "word_at tx w (j + idx + 1) \<longleftrightarrow> word_at (drop (idx + 1) tx) w j" if "0 < j" for j
    using that by (auto simp: word_at_def add.commute add.left_commute)
  show ?thesis
  proof
    assume "\<exists>i. word_at tx w i"
    then obtain i where i: "word_at tx w i" by blast
    then have "prefix w (drop i tx)" by (simp add: word_at_def)
    with Index_least [OF idx] no i not_next have "idx < i" "i \<noteq> Suc idx"
      by (metis linorder_neqE_nat, metis)
    then obtain j where "i = j + idx + 1" "0 < j" by (metis Suc_eq_plus1 Suc_lessI add.commute add.left_commute less_imp_Suc_add zero_less_Suc)
    with i shift show "\<exists>j. word_at (drop (idx + 1) tx) w j" by blast
  next
    assume "\<exists>j. word_at (drop (idx + 1) tx) w j"
    then obtain j where j: "word_at (drop (idx + 1) tx) w j" by blast
    have "0 < j" using j not_next by (cases j) (auto simp: word_at_def)
    with j shift show "\<exists>i. word_at tx w i" by blast
  qed
qed

lemma containsWord_iff:
  assumes "word \<noteq> []" and "\<not> uniform word"
  shows "containsWord tx word \<longleftrightarrow> (\<exists>i. word_at tx word i)"
  using assms
proof (induction tx word rule: containsWord.induct)
  case (1 tx word)
  show ?case
  proof (cases "Index tx word")
    case None
    then have "\<not> prefix word (drop i tx)" for i by (rule Index_None)
    with None show ?thesis by (simp add: containsWord.simps [of tx] word_at_def)
  next
    case (Some idx)
    have here: "prefix word (drop idx tx)" "idx \<le> length tx"
      using Index_here [OF Some] by simp_all
    show ?thesis
    proof (cases "word_at tx word idx")
      case True
      then show ?thesis using Some by (auto simp: containsWord.simps [of tx] word_at_def)
    next
      case False
      with here have nb: "\<not> ((idx = 0 \<or> \<not> isWordChar (tx ! (idx - 1)))
             \<and> (idx + length word \<ge> length tx \<or> \<not> isWordChar (tx ! (idx + length word))))"
        by (simp add: word_at_def)
      then have "containsWord tx word = containsWord (drop (idx + 1) tx) word"
        using Some by (subst containsWord.simps) (simp only: option.case if_False nb)
      also have "\<dots> \<longleftrightarrow> (\<exists>j. word_at (drop (idx + 1) tx) word j)"
        using 1 Some nb by blast
      finally show ?thesis using word_at_drop [OF _ _ Some False] "1.prems" by blast
    qed
  qed
qed

lemma stock_keywords_nonuniform: "list_all (\<lambda>w. w \<noteq> [] \<and> \<not> uniform w) stockMetadataKeywords"
  by code_simp

end
