(* ===== verification/Go_Http.thy ===== *)
theory Go_Http
  imports Go_Url
begin

text \<open>
  Package \<^verbatim>\<open>net/http\<close> as the program uses it. The network is the client's transport, a function
  from requests to an error or a response; \<^verbatim>\<open>Client.Do\<close> follows redirects up to the limit its
  \<^verbatim>\<open>CheckRedirect\<close> policy sets. Deadlines appear as the timeout a request is sent with; an
  expired one is a transport error. A response body is its bytes and whether reading it ends
  with an error instead of end-of-file.
\<close>

section \<open>Requests, responses, clients\<close>

record request =
  req_Method :: string
  req_URL :: string
  req_Header :: "(string \<times> string) list"
  req_Body :: bytes
  req_Timeout :: int     \<comment> \<open>nanoseconds; 0 for no timeout of its own\<close>

record response =
  StatusCode :: int
  ContentType :: string            \<comment> \<open>\<open>Header.Get("Content-Type")\<close>\<close>
  Location :: "string option"      \<comment> \<open>the resolved \<open>Location\<close> header\<close>
  Body :: bytes
  BodyFails :: bool

type_synonym transport = "request \<Rightarrow> response result"

text \<open>A client: its transport and the number of requests its redirect policy allows.\<close>

record client =
  Transport :: transport
  RedirectLimit :: nat

definition second :: int where
  "second = 1000000000"

section \<open>Operations\<close>

text \<open>\<^verbatim>\<open>http.NewRequestWithContext\<close> fails when the URL does not parse.\<close>

definition NewRequest :: "string \<Rightarrow> string \<Rightarrow> bytes \<Rightarrow> int \<Rightarrow> request result" where
  "NewRequest meth url body timeout =
     (case Parse url of
        None \<Rightarrow> Inl ''net/http: invalid URL''
      | Some _ \<Rightarrow> Inr \<lparr>req_Method = meth, req_URL = url, req_Header = [], req_Body = body,
                       req_Timeout = timeout\<rparr>)"

definition SetHeader :: "string \<Rightarrow> string \<Rightarrow> request \<Rightarrow> request" where
  "SetHeader k v req = req\<lparr>req_Header := (k, v) # filter (\<lambda>h. fst h \<noteq> k) (req_Header req)\<rparr>"

definition is_redirect :: "int \<Rightarrow> bool" where
  "is_redirect status \<longleftrightarrow> status \<in> {301, 302, 303, 307, 308}"

text \<open>The request that follows a redirect: 301, 302 and 303 turn a POST into a GET.\<close>

definition redirected :: "int \<Rightarrow> string \<Rightarrow> request \<Rightarrow> request" where
  "redirected status loc req =
     (if status \<in> {307, 308} then req\<lparr>req_URL := loc\<rparr>
      else req\<lparr>req_URL := loc, req_Method := ''GET'', req_Body := []\<rparr>)"

definition next_hop :: "response \<Rightarrow> request \<Rightarrow> request option" where
  "next_hop resp req =
     (if is_redirect (StatusCode resp)
      then map_option (\<lambda>loc. redirected (StatusCode resp) loc req) (Location resp) else None)"

text \<open>Send a request and follow at most \<open>n\<close> redirects.\<close>

primrec follow :: "transport \<Rightarrow> nat \<Rightarrow> request \<Rightarrow> response result" where
  "follow tr 0 req =
     (case tr req of
        Inl e \<Rightarrow> Inl e
      | Inr resp \<Rightarrow> (case next_hop resp req of None \<Rightarrow> Inr resp | Some _ \<Rightarrow> Inl ''too many redirects''))"
| "follow tr (Suc m) req =
     (case tr req of
        Inl e \<Rightarrow> Inl e
      | Inr resp \<Rightarrow> (case next_hop resp req of None \<Rightarrow> Inr resp | Some req' \<Rightarrow> follow tr m req'))"

text \<open>
  \<^verbatim>\<open>Client.Do\<close>: the policy sees the requests already made and refuses when their number has
  reached the limit, so at most \<^const>\<open>RedirectLimit\<close> requests are sent.
\<close>

definition Do :: "client \<Rightarrow> request \<Rightarrow> response result" where
  "Do c req = follow (Transport c) (RedirectLimit c - 1) req"

text \<open>What an \<^verbatim>\<open>io.LimitReader\<close> lets through of the bytes behind it.\<close>

definition limit_bytes :: "int \<Rightarrow> bytes \<Rightarrow> bytes" where
  "limit_bytes n s = (if int (length s) \<le> n then s else take (nat n) s)"

lemma limit_bytes_take: "limit_bytes n s = take (nat n) s"
  by (simp add: limit_bytes_def)

text \<open>\<^verbatim>\<open>io.ReadAll(io.LimitReader(resp.Body, n))\<close>.\<close>

definition ReadAllLimit :: "response \<Rightarrow> int \<Rightarrow> bytes result" where
  "ReadAllLimit resp n =
     (if BodyFails resp \<and> int (length (Body resp)) < n then Inl ''read error''
      else Inr (limit_bytes n (Body resp)))"

section \<open>Facts\<close>

lemma ReadAllLimit_bound: "ReadAllLimit resp n = Inr data \<Longrightarrow> 0 \<le> n \<Longrightarrow> int (length data) \<le> n"
  by (auto simp: ReadAllLimit_def limit_bytes_take split: if_splits)

lemma ReadAllLimit_prefix: "ReadAllLimit resp n = Inr data \<Longrightarrow> prefix data (Body resp)"
  by (auto simp: ReadAllLimit_def limit_bytes_take take_is_prefix split: if_splits)

text \<open>The requests a call sends, in order.\<close>

primrec sent :: "transport \<Rightarrow> nat \<Rightarrow> request \<Rightarrow> request list" where
  "sent tr 0 req = [req]"
| "sent tr (Suc m) req =
     req # (case tr req of
        Inl e \<Rightarrow> []
      | Inr resp \<Rightarrow> (case next_hop resp req of None \<Rightarrow> [] | Some req' \<Rightarrow> sent tr m req'))"

lemma length_sent: "length (sent tr n req) \<le> Suc n"
  by (induction n arbitrary: req) (auto split: sum.splits option.splits)

lemma sent_nonempty [simp]: "sent tr n req \<noteq> []"
  by (cases n) auto

lemma follow_last_sent:
  "follow tr n req = Inr resp \<Longrightarrow> tr (last (sent tr n req)) = Inr resp \<and> next_hop resp (last (sent tr n req)) = None"
  by (induction n arbitrary: req) (auto split: sum.splits option.splits)

lemma hd_sent: "hd (sent tr n req) = req"
  by (cases n) simp_all

text \<open>Every request but the last is answered by a redirect to the next one.\<close>

lemma sent_chain:
  "Suc i < length (sent tr n req) \<Longrightarrow> \<exists>r. tr (sent tr n req ! i) = Inr r \<and> next_hop r (sent tr n req ! i) = Some (sent tr n req ! Suc i)"
proof (induction n arbitrary: req i)
  case (Suc n)
  then obtain r req' where r: "tr req = Inr r" "next_hop r req = Some req'"
    by (auto split: sum.splits option.splits)
  show ?case
  proof (cases i)
    case 0
    with r hd_sent [of tr n req'] show ?thesis by (simp add: hd_conv_nth)
  next
    case (Suc j)
    with r Suc.IH [of j req'] Suc.prems show ?thesis by simp
  qed
qed simp

end
