(* ===== verification/Go_Json.thy ===== *)
theory Go_Json
  imports Go_Url
begin

text \<open>
  Package \<^verbatim>\<open>encoding/json\<close>: the values a document denotes, and how \<^verbatim>\<open>json.Unmarshal\<close> stores a
  value into strings, numbers, booleans, structs and slices. A value of the wrong type is an error, null
  leaves the target unchanged, unknown members are ignored and member names match without
  regard to case.
\<close>

datatype json =
    JNull
  | JBool bool
  | JNum string
  | JStr string
  | JArr "json list"
  | JObj "(string \<times> json) list"

section \<open>Scalars\<close>

fun into_string :: "string \<Rightarrow> json \<Rightarrow> string option" where
  "into_string old (JStr s) = Some s"
| "into_string old JNull = Some old"
| "into_string old _ = None"

fun into_bool :: "bool \<Rightarrow> json \<Rightarrow> bool option" where
  "into_bool old (JBool b) = Some b"
| "into_bool old JNull = Some old"
| "into_bool old _ = None"

definition parse_int64 :: "string \<Rightarrow> int option" where
  "parse_int64 s =
     (let neg = (s \<noteq> [] \<and> hd s = CHR ''-''); ds = (if neg then tl s else s);
          v = foldl (\<lambda>n c. 10 * n + int (unhex c)) 0 ds; x = (if neg then - v else v)
      in if ds = [] \<or> \<not> list_all is_digit ds \<or> x < - (2 ^ 63) \<or> x \<ge> 2 ^ 63 then None else Some x)"

fun into_int :: "int \<Rightarrow> json \<Rightarrow> int option" where
  "into_int old (JNum s) = parse_int64 s"
| "into_int old JNull = Some old"
| "into_int old _ = None"

section \<open>Structs, slices and maps\<close>

text \<open>Names are compared after folding: U+017F and U+212A fold to the letters S and K.\<close>

fun fold_name :: "string \<Rightarrow> string" where
  "fold_name [] = []"
| "fold_name (c # s) =
     (case s of
        d # t \<Rightarrow>
          if c = CHR 0xC5 \<and> d = CHR 0xBF then CHR ''S'' # fold_name t
          else (case t of
              e # t' \<Rightarrow> if c = CHR 0xE2 \<and> d = CHR 0x84 \<and> e = CHR 0xAA then CHR ''K'' # fold_name t'
                       else upper_byte c # fold_name s
            | [] \<Rightarrow> upper_byte c # fold_name s)
      | [] \<Rightarrow> [upper_byte c])"

type_synonym 'r fields = "(string \<times> ('r \<Rightarrow> json \<Rightarrow> 'r option)) list"

definition store_member :: "'r fields \<Rightarrow> 'r option \<Rightarrow> string \<times> json \<Rightarrow> 'r option" where
  "store_member fs acc kv =
     (case acc of
        None \<Rightarrow> None
      | Some r \<Rightarrow>
         (case List.find (\<lambda>f. fold_name (fst f) = fold_name (fst kv)) fs of
            None \<Rightarrow> Some r
          | Some f \<Rightarrow> snd f r (snd kv)))"

fun into_struct :: "'r fields \<Rightarrow> 'r \<Rightarrow> json \<Rightarrow> 'r option" where
  "into_struct fs r (JObj members) = foldl (store_member fs) (Some r) members"
| "into_struct fs r JNull = Some r"
| "into_struct fs r _ = None"

fun into_each :: "(json \<Rightarrow> 'r option) \<Rightarrow> json list \<Rightarrow> 'r list option" where
  "into_each f [] = Some []"
| "into_each f (x # xs) =
     (case (f x, into_each f xs) of (Some r, Some rs) \<Rightarrow> Some (r # rs) | _ \<Rightarrow> None)"

fun into_slice :: "(json \<Rightarrow> 'r option) \<Rightarrow> json \<Rightarrow> 'r list option" where
  "into_slice f (JArr xs) = into_each f xs"
| "into_slice f JNull = Some []"
| "into_slice f _ = None"

text \<open>A \<^verbatim>\<open>map[string]json.RawMessage\<close>: the last member of a name counts.\<close>

fun into_rawmap :: "json \<Rightarrow> (string \<rightharpoonup> json) option" where
  "into_rawmap (JObj members) = Some (map_of (rev members))"
| "into_rawmap JNull = Some Map.empty"
| "into_rawmap _ = None"

text \<open>Members of a struct by the type of the field they are stored in.\<close>

definition str_field :: "string \<Rightarrow> ('r \<Rightarrow> string) \<Rightarrow> ((string \<Rightarrow> string) \<Rightarrow> 'r \<Rightarrow> 'r) \<Rightarrow>
    string \<times> ('r \<Rightarrow> json \<Rightarrow> 'r option)" where
  "str_field name get upd = (name, \<lambda>r x. map_option (\<lambda>v. upd (\<lambda>_. v) r) (into_string (get r) x))"

definition int_field :: "string \<Rightarrow> ('r \<Rightarrow> int) \<Rightarrow> ((int \<Rightarrow> int) \<Rightarrow> 'r \<Rightarrow> 'r) \<Rightarrow>
    string \<times> ('r \<Rightarrow> json \<Rightarrow> 'r option)" where
  "int_field name get upd = (name, \<lambda>r x. map_option (\<lambda>v. upd (\<lambda>_. v) r) (into_int (get r) x))"

definition struct_field :: "string \<Rightarrow> 's fields \<Rightarrow> ('r \<Rightarrow> 's) \<Rightarrow> (('s \<Rightarrow> 's) \<Rightarrow> 'r \<Rightarrow> 'r) \<Rightarrow>
    string \<times> ('r \<Rightarrow> json \<Rightarrow> 'r option)" where
  "struct_field name fs get upd = (name, \<lambda>r x. map_option (\<lambda>v. upd (\<lambda>_. v) r) (into_struct fs (get r) x))"

definition json_error :: error where
  "json_error = ''invalid JSON''"

lemma into_each_length: "into_each f xs = Some rs \<Longrightarrow> length rs = length xs"
  by (induction xs arbitrary: rs) (auto split: option.splits)

end
