(* ===== verification/Go_Json_Text.thy ===== *)
theory Go_Json_Text
  imports Go_Json
begin

text \<open>
  The syntax of \<^verbatim>\<open>encoding/json\<close>: from the bytes of a document to the value it denotes. The scanner's
  state machine is split into the tokens and the stack of open brackets; a syntax error is \<open>None\<close>.
\<close>

section \<open>Tokens\<close>

definition json_space :: "char \<Rightarrow> bool" where
  "json_space c \<longleftrightarrow> c = CHR '' '' \<or> c = CHR 0x09 \<or> c = CHR 0x0A \<or> c = CHR 0x0D"

definition json_punct :: "char \<Rightarrow> bool" where
  "json_punct c \<longleftrightarrow> c \<in> set ''{}[]:,''"

datatype token = TPunct char | TStr string | TNum string | TLit json

subsection \<open>Strings\<close>

definition simple_escape :: "char \<Rightarrow> char option" where
  "simple_escape e = map_of [(CHR 0x22, CHR 0x22), (CHR 0x5C, CHR 0x5C), (CHR ''/'', CHR ''/''), (CHR ''b'', CHR 0x08),
     (CHR ''f'', CHR 0x0C), (CHR ''n'', CHR 0x0A), (CHR ''r'', CHR 0x0D), (CHR ''t'', CHR 0x09)] e"

text \<open>\<^verbatim>\<open>getu4\<close> after the letter: four hexadecimal digits.\<close>

fun hex4 :: "string \<Rightarrow> nat option" where
  "hex4 (a # b # c # d # s) =
     (if list_all ishex [a, b, c, d] then Some (unhex a * 4096 + unhex b * 256 + unhex c * 16 + unhex d) else None)"
| "hex4 _ = None"

definition high_surrogate :: "nat \<Rightarrow> bool" where
  "high_surrogate r \<longleftrightarrow> 0xD800 \<le> r \<and> r < 0xDC00"

definition low_surrogate :: "nat \<Rightarrow> bool" where
  "low_surrogate r \<longleftrightarrow> 0xDC00 \<le> r \<and> r < 0xE000"

text \<open>A second escape that completes a surrogate pair, with the code point of the pair.\<close>

definition paired :: "nat \<Rightarrow> string \<Rightarrow> nat option" where
  "paired r t =
     (if high_surrogate r \<and> HasPrefix t [CHR 0x5C, CHR ''u''] then
        (case hex4 (drop 2 t) of
           None \<Rightarrow> None
         | Some r2 \<Rightarrow> if low_surrogate r2 then Some ((r - 0xD800) * 1024 + (r2 - 0xDC00) + 0x10000) else None)
      else None)"

definition prepend :: "string \<Rightarrow> (string \<times> 'a) option \<Rightarrow> (string \<times> 'a) option" where
  "prepend x = map_option (\<lambda>(v, t). (x @ v, t))"

text \<open>
  The text after an opening quote: the decoded string and what follows the closing quote. A byte
  that starts no valid encoding is decoded as U+FFFD, an unpaired surrogate too (by
  \<^const>\<open>EncodeRune\<close>).
\<close>

function lex_string :: "string \<Rightarrow> (string \<times> string) option" where
  "lex_string [] = None"
| "lex_string (c # s) =
     (if c = CHR 0x22 then Some ([], s)
      else if c = CHR 0x5C then
        (case s of
           [] \<Rightarrow> None
         | e # t \<Rightarrow>
             if e = CHR ''u'' then
               (case hex4 t of
                  None \<Rightarrow> None
                | Some r \<Rightarrow>
                    (case paired r (drop 4 t) of
                       Some p \<Rightarrow> prepend (EncodeRune p) (lex_string (drop 10 t))
                     | None \<Rightarrow> prepend (EncodeRune r) (lex_string (drop 4 t))))
             else (case simple_escape e of
                     None \<Rightarrow> None | Some b \<Rightarrow> prepend [b] (lex_string t)))
      else if of_char c < (0x20::nat) then None
      else (case DecodeRune (c # s) of (r, w) \<Rightarrow> prepend (EncodeRune r) (lex_string (drop (w - 1) s))))"
  by pat_completeness auto
termination
  by (relation "measure length") auto

declare lex_string.simps(2) [simp del]

lemma lex_string_shorter: "lex_string s = Some (v, t) \<Longrightarrow> length t < length s"
proof (induction s arbitrary: v t rule: measure_induct_rule [of length])
  case (less s)
  have sub: "length t < length s" if "lex_string u = Some (x, t)" "length u < length s" for u x
    using less.IH [OF that(2,1)] that(2) by linarith
  from less.prems show ?case
  proof (cases s)
    case (Cons c r)
    from less.prems show ?thesis
      unfolding Cons lex_string.simps(2) prepend_def
      by (auto split: if_splits list.splits option.splits prod.splits dest!: sub simp: Cons)
  qed simp
qed

subsection \<open>Numbers\<close>

definition lex_digits :: "string \<Rightarrow> (string \<times> string) option" where
  "lex_digits s = (if takeWhile is_digit s = [] then None else Some (takeWhile is_digit s, dropWhile is_digit s))"

definition lex_int :: "string \<Rightarrow> (string \<times> string) option" where
  "lex_int s = (case s of
     c # t \<Rightarrow> if c = CHR ''0'' then Some ([c], t) else lex_digits s
   | [] \<Rightarrow> None)"

definition lex_frac :: "string \<Rightarrow> (string \<times> string) option" where
  "lex_frac s = (case s of
     c # t \<Rightarrow> if c = CHR ''.'' then prepend [c] (lex_digits t) else Some ([], s)
   | [] \<Rightarrow> Some ([], s))"

definition lex_exp :: "string \<Rightarrow> (string \<times> string) option" where
  "lex_exp s = (case s of
     c # t \<Rightarrow> if c = CHR ''e'' \<or> c = CHR ''E'' then
         (case t of
            d # t' \<Rightarrow> if d = CHR ''+'' \<or> d = CHR ''-'' then prepend [c, d] (lex_digits t') else prepend [c] (lex_digits t)
          | [] \<Rightarrow> None)
       else Some ([], s)
   | [] \<Rightarrow> Some ([], s))"

definition lex_number :: "string \<Rightarrow> (string \<times> string) option" where
  "lex_number s =
     (let (sign, s1) = (case s of c # t \<Rightarrow> if c = CHR ''-'' then ([c], t) else ([], s) | [] \<Rightarrow> ([], s)) in
      case lex_int s1 of
        None \<Rightarrow> None
      | Some (i, s2) \<Rightarrow>
         (case lex_frac s2 of
            None \<Rightarrow> None
          | Some (f, s3) \<Rightarrow> prepend (sign @ i @ f) (lex_exp s3)))"

lemma lex_digits_shorter: "lex_digits s = Some (v, t) \<Longrightarrow> length t < length s"
  by (cases s) (auto simp: lex_digits_def le_imp_less_Suc length_dropWhile_le split: if_splits)

lemma lex_number_shorter:
  assumes "lex_number s = Some (v, t)"
  shows "length t < length s"
proof -
  have i: "lex_int a = Some (x, b) \<Longrightarrow> length b < length a" for a b x
    by (auto simp: lex_int_def split: list.splits if_splits dest: lex_digits_shorter)
  have f: "lex_frac a = Some (x, b) \<Longrightarrow> length b \<le> length a" for a b x
    by (auto simp: lex_frac_def prepend_def split: list.splits if_splits dest!: lex_digits_shorter)
  have e: "lex_exp a = Some (x, b) \<Longrightarrow> length b \<le> length a" for a b x
    by (auto simp: lex_exp_def prepend_def split: list.splits if_splits dest!: lex_digits_shorter)
  define s1 where "s1 = snd (case s of c # t \<Rightarrow> if c = CHR ''-'' then ([c], t) else ([], s) | [] \<Rightarrow> ([], s))"
  have "length s1 \<le> length s" by (auto simp: s1_def split: list.splits)
  moreover obtain x2 s2 x3 s3 x4 where "lex_int s1 = Some (x2, s2)" "lex_frac s2 = Some (x3, s3)" "lex_exp s3 = Some (x4, t)"
    using assms by (auto simp: lex_number_def s1_def prepend_def split: prod.splits option.splits)
  ultimately show ?thesis using i [of s1 x2 s2] f [of s2 x3 s3] e [of s3 x4 t] by linarith
qed

subsection \<open>The token stream\<close>

function json_tokens :: "string \<Rightarrow> token list option" where
  "json_tokens [] = Some []"
| "json_tokens (c # s) =
     (if json_space c then json_tokens s
      else if json_punct c then map_option ((#) (TPunct c)) (json_tokens s)
      else if c = CHR 0x22 then
        (case lex_string s of None \<Rightarrow> None | Some (v, t) \<Rightarrow> map_option ((#) (TStr v)) (json_tokens t))
      else if HasPrefix (c # s) ''true'' then map_option ((#) (TLit (JBool True))) (json_tokens (drop 3 s))
      else if HasPrefix (c # s) ''false'' then map_option ((#) (TLit (JBool False))) (json_tokens (drop 4 s))
      else if HasPrefix (c # s) ''null'' then map_option ((#) (TLit JNull)) (json_tokens (drop 3 s))
      else (case lex_number (c # s) of None \<Rightarrow> None | Some (n, t) \<Rightarrow> map_option ((#) (TNum n)) (json_tokens t)))"
  by pat_completeness auto
termination
  by (relation "measure length") (auto dest: lex_string_shorter lex_number_shorter)

declare json_tokens.simps(2) [simp del]

section \<open>Values\<close>

text \<open>The open arrays and objects, innermost first, an object with the name its next value gets.\<close>

datatype frame = InArr "json list" | InObj "(string \<times> json) list" string

datatype want = WantValue | FirstValue | WantKey | FirstKey | WantColon | Have json

definition maxNestingDepth :: nat where
  "maxNestingDepth = 10000"

text \<open>The token that starts a value: a scalar, or a bracket that opens a frame.\<close>

definition open_value :: "token \<Rightarrow> frame list \<Rightarrow> (want \<times> frame list) option" where
  "open_value t st = (case t of
      TStr s \<Rightarrow> Some (Have (JStr s), st)
    | TNum n \<Rightarrow> Some (Have (JNum n), st)
    | TLit j \<Rightarrow> Some (Have j, st)
    | TPunct c \<Rightarrow>
        if length st \<ge> maxNestingDepth then None
        else if c = CHR ''['' then Some (FirstValue, InArr [] # st)
        else if c = CHR ''{'' then Some (FirstKey, InObj [] '''' # st)
        else None)"

definition take_key :: "token \<Rightarrow> frame list \<Rightarrow> (want \<times> frame list) option" where
  "take_key t st = (case (t, st) of
      (TStr k, InObj ms _ # st') \<Rightarrow> Some (WantColon, InObj ms k # st')
    | _ \<Rightarrow> None)"

text \<open>After a value: the end of its frame or a comma.\<close>

definition close_value :: "json \<Rightarrow> token \<Rightarrow> frame list \<Rightarrow> (want \<times> frame list) option" where
  "close_value v t st = (case st of
      InArr xs # st' \<Rightarrow>
        if t = TPunct (CHR '','') then Some (WantValue, InArr (xs @ [v]) # st')
        else if t = TPunct (CHR '']'') then Some (Have (JArr (xs @ [v])), st')
        else None
    | InObj ms k # st' \<Rightarrow>
        if t = TPunct (CHR '','') then Some (WantKey, InObj (ms @ [(k, v)]) '''' # st')
        else if t = TPunct (CHR ''}'') then Some (Have (JObj (ms @ [(k, v)])), st')
        else None
    | [] \<Rightarrow> None)"

definition json_step :: "token \<Rightarrow> want \<Rightarrow> frame list \<Rightarrow> (want \<times> frame list) option" where
  "json_step t w st = (case w of
      WantValue \<Rightarrow> open_value t st
    | FirstValue \<Rightarrow> if t = TPunct (CHR '']'') then Some (Have (JArr []), tl st) else open_value t st
    | WantKey \<Rightarrow> take_key t st
    | FirstKey \<Rightarrow> if t = TPunct (CHR ''}'') then Some (Have (JObj []), tl st) else take_key t st
    | WantColon \<Rightarrow> if t = TPunct (CHR '':'') then Some (WantValue, st) else None
    | Have v \<Rightarrow> close_value v t st)"

fun json_build :: "token list \<Rightarrow> want \<Rightarrow> frame list \<Rightarrow> json option" where
  "json_build [] w st = (case (w, st) of (Have v, []) \<Rightarrow> Some v | _ \<Rightarrow> None)"
| "json_build (t # ts) w st = (case json_step t w st of None \<Rightarrow> None | Some (w', st') \<Rightarrow> json_build ts w' st')"

definition json_read :: "bytes \<Rightarrow> json option" where
  "json_read data = (case json_tokens data of None \<Rightarrow> None | Some ts \<Rightarrow> json_build ts WantValue [])"

text \<open>A struct with a single slice member, as every search response is.\<close>

definition response_list :: "string \<Rightarrow> (json \<Rightarrow> 'r option) \<Rightarrow> bytes \<Rightarrow> 'r list option" where
  "response_list name elem body =
     (case json_read body of
        None \<Rightarrow> None
      | Some v \<Rightarrow> into_struct [(name, \<lambda>old x. into_slice elem x)] [] v)"

end
