(* ===== verification/Go_Strconv.thy ===== *)
theory Go_Strconv
  imports Complex_Main Go_Url
begin

text \<open>
  Go's \<^verbatim>\<open>float64\<close> and \<^verbatim>\<open>strconv.ParseFloat(s, 64)\<close>: decimal and hexadecimal syntax with digit
  separators, the special values, and rounding of the exact value to the nearest binary64
  number with ties to even.
\<close>

section \<open>float64\<close>

text \<open>Finite values are exact; the two zeros are not distinguished (no comparison does).\<close>

datatype float64 = Fin rat | PosInf | NegInf | NaN

fun f64_le :: "float64 \<Rightarrow> rat \<Rightarrow> bool" where
  "f64_le (Fin x) y = (x \<le> y)"
| "f64_le PosInf y = False"
| "f64_le NegInf y = True"
| "f64_le NaN y = False"

fun f64_gt :: "float64 \<Rightarrow> rat \<Rightarrow> bool" where
  "f64_gt (Fin x) y = (x > y)"
| "f64_gt PosInf y = True"
| "f64_gt NegInf y = False"
| "f64_gt NaN y = False"

section \<open>Rounding\<close>

function bit_length :: "int \<Rightarrow> nat" where
  "bit_length n = (if n \<le> 0 then 0 else Suc (bit_length (n div 2)))"
  by pat_completeness auto
termination
  by (relation "measure nat") auto

declare bit_length.simps [simp del]

definition div_half_even :: "int \<Rightarrow> int \<Rightarrow> int" where
  "div_half_even a b =
     (let d = a div b; r = a mod b in
      if 2 * r < b then d else if 2 * r > b then d + 1 else if even d then d else d + 1)"

text \<open>
  The exponent of the last place of \<open>p / q\<close>: 53 bits of precision, down to the smallest
  subnormal.
\<close>

definition f64_exponent :: "int \<Rightarrow> int \<Rightarrow> int" where
  "f64_exponent p q =
     (let k = int (bit_length p) - int (bit_length q);
          ge = (if k \<ge> 0 then p \<ge> q * 2 ^ nat k else p * 2 ^ nat (- k) \<ge> q)
      in max (-1074) ((if ge then k else k - 1) - 52))"

definition f64_scaled :: "int \<Rightarrow> int \<Rightarrow> int \<Rightarrow> int" where
  "f64_scaled p q e =
     (if e \<ge> 0 then div_half_even p (q * 2 ^ nat e) else div_half_even (p * 2 ^ nat (- e)) q)"

text \<open>The nearest binary64 value of \<open>p / q\<close> for \<open>p \<ge> 0\<close>, \<open>q > 0\<close>; \<open>None\<close> when it overflows.\<close>

definition round_f64 :: "int \<Rightarrow> int \<Rightarrow> rat option" where
  "round_f64 p q =
     (if p = 0 then Some 0
      else let e = f64_exponent p q; m = f64_scaled p q e;
               v = (if e \<ge> 0 then of_int (m * 2 ^ nat e) else of_int m / of_int (2 ^ nat (- e)))
           in if e > 971 \<or> (e = 971 \<and> m \<ge> 2 ^ 53) then None else Some v)"

section \<open>Syntax\<close>

text \<open>
  The special values, when they are the whole string: an optionally signed \<^verbatim>\<open>inf\<close> or
  \<^verbatim>\<open>infinity\<close> and an unsigned \<^verbatim>\<open>nan\<close>, in any letter case.
\<close>

definition parse_special :: "string \<Rightarrow> float64 option" where
  "parse_special s =
     (let l = map lower_byte s in
      if l \<in> {''inf'', ''infinity'', ''+inf'', ''+infinity''} then Some PosInf
      else if l \<in> {''-inf'', ''-infinity''} then Some NegInf
      else if l = ''nan'' then Some NaN
      else None)"

record mant =
  m_value :: int      \<comment> \<open>the digits read so far, without the point\<close>
  m_frac :: nat       \<comment> \<open>how many of them follow the point\<close>
  m_dot :: bool
  m_digits :: bool
  m_under :: bool

text \<open>The digit loop of \<^verbatim>\<open>readFloat\<close>: what it has read and the rest of the input.\<close>

fun scan_mant :: "bool \<Rightarrow> mant \<Rightarrow> string \<Rightarrow> mant \<times> string" where
  "scan_mant hex m [] = (m, [])"
| "scan_mant hex m (c # s) =
     (if c = CHR ''_'' then scan_mant hex (m\<lparr>m_under := True\<rparr>) s
      else if c = CHR ''.'' then
        (if m_dot m then (m, c # s) else scan_mant hex (m\<lparr>m_dot := True\<rparr>) s)
      else if is_digit c \<or> (hex \<and> ishex c) then
        scan_mant hex (m\<lparr>m_value := m_value m * (if hex then 16 else 10) + int (unhex c),
                        m_frac := (if m_dot m then Suc (m_frac m) else m_frac m),
                        m_digits := True\<rparr>) s
      else (m, c # s))"

text \<open>The exponent's digits: the value saturates once it has reached 10000.\<close>

fun scan_exp :: "nat \<Rightarrow> bool \<Rightarrow> string \<Rightarrow> nat \<times> bool \<times> string" where
  "scan_exp e us [] = (e, us, [])"
| "scan_exp e us (c # s) =
     (if c = CHR ''_'' then scan_exp e True s
      else if is_digit c then scan_exp (if e < 10000 then e * 10 + unhex c else e) us s
      else (e, us, c # s))"

text \<open>\<^verbatim>\<open>underscoreOK\<close>: an underscore stands between digits, or between a base prefix and a digit.\<close>

datatype saw = SawStart | SawDigit | SawUnder | SawOther

fun underscore_scan :: "bool \<Rightarrow> saw \<Rightarrow> string \<Rightarrow> bool" where
  "underscore_scan hex st [] = (st \<noteq> SawUnder)"
| "underscore_scan hex st (c # s) =
     (if is_digit c \<or> (hex \<and> ishex c) then underscore_scan hex SawDigit s
      else if c = CHR ''_'' then (st = SawDigit \<and> underscore_scan hex SawUnder s)
      else st \<noteq> SawUnder \<and> underscore_scan hex SawOther s)"

definition underscoreOK :: "string \<Rightarrow> bool" where
  "underscoreOK s0 =
     (let s = (case s0 of c # t \<Rightarrow> if c \<in> {CHR ''-'', CHR ''+''} then t else s0 | [] \<Rightarrow> [])
      in (case s of
          z # b # t \<Rightarrow>
            if z = CHR ''0'' \<and> lower_byte b \<in> {CHR ''b'', CHR ''o'', CHR ''x''}
            then underscore_scan (lower_byte b = CHR ''x'') SawDigit t
            else underscore_scan False SawStart s
        | _ \<Rightarrow> underscore_scan False SawStart s))"

text \<open>\<^verbatim>\<open>readFloat\<close> on a whole string: the sign and the exact value as a fraction.\<close>

definition readFloat :: "string \<Rightarrow> (bool \<times> int \<times> int) option" where
  "readFloat s0 =
     (let neg = (s0 \<noteq> [] \<and> hd s0 = CHR ''-'');
          s = (if s0 \<noteq> [] \<and> hd s0 \<in> {CHR ''-'', CHR ''+''} then tl s0 else s0);
          hex = (length s > 2 \<and> s ! 0 = CHR ''0'' \<and> lower_byte (s ! 1) = CHR ''x'');
          (m, rest) = scan_mant hex \<lparr>m_value = 0, m_frac = 0, m_dot = False, m_digits = False, m_under = False\<rparr>
                        (if hex then drop 2 s else s);
          has_exp = (rest \<noteq> [] \<and> lower_byte (hd rest) = (if hex then CHR ''p'' else CHR ''e''));
          signed = (if has_exp then tl rest else []);
          eneg = (signed \<noteq> [] \<and> hd signed = CHR ''-'');
          edigits = (if signed \<noteq> [] \<and> hd signed \<in> {CHR ''-'', CHR ''+''} then tl signed else signed);
          (e, us, left) = (if has_exp then scan_exp 0 (m_under m) edigits else (0, m_under m, rest));
          base = (if hex then 2 else 10);
          den = (if hex then 16 else 10) ^ m_frac m
      in if \<not> m_digits m then None
         else if has_exp \<and> (edigits = [] \<or> \<not> is_digit (hd edigits)) then None
         else if hex \<and> \<not> has_exp then None
         else if left \<noteq> [] then None
         else if us \<and> \<not> underscoreOK s0 then None
         else if eneg then Some (neg, m_value m, den * base ^ e)
         else Some (neg, m_value m * base ^ e, den))"

text \<open>\<^verbatim>\<open>strconv.ParseFloat(s, 64)\<close>: \<open>None\<close> is a syntax or a range error.\<close>

definition ParseFloat :: "string \<Rightarrow> float64 option" where
  "ParseFloat s =
     (case parse_special s of
        Some v \<Rightarrow> Some v
      | None \<Rightarrow>
         (case readFloat s of
            None \<Rightarrow> None
          | Some (neg, p, q) \<Rightarrow> map_option (\<lambda>v. Fin (if neg then - v else v)) (round_f64 p q)))"

end
