(* ===== verification/Classify_Types.thy ===== *)
theory Classify_Types
  imports Go_Strconv
begin

text \<open>
  classify_types.go: the vision prompts, the classification labels and the parsers of the
  model's answer.
\<close>

section \<open>Prompts\<close>

definition DefaultVisionPrompt :: string where
  "DefaultVisionPrompt =
     ''You are an editorial image filter for a city guide website.\<newline>'' @
     ''We only accept real photographs without stock watermarks.\<newline>'' @ ''\<newline>'' @
     ''Classify this image. Answer with one word and your confidence (0.0 to 1.0).\<newline>'' @
     ''\<newline>'' @ ''Categories:\<newline>'' @ ''- PHOTO '' @ [CHR 0xE2, CHR 0x80, CHR 0x94] @
     '' real photograph. Small corner watermark is OK.\<newline>'' @ ''- STOCK '' @
     [CHR 0xE2, CHR 0x80, CHR 0x94] @
     '' photograph with visible stock watermark (Shutterstock, Getty, iStock, etc.)\<newline>'' @
     ''- REJECT '' @ [CHR 0xE2, CHR 0x80, CHR 0x94] @
     '' banner, ad, promotional graphic, large text overlay, collage, meme.\<newline>'' @
     ''- SCREENSHOT '' @ [CHR 0xE2, CHR 0x80, CHR 0x94] @
     '' screenshot of a website, app, or software interface.\<newline>'' @ ''- ILLUSTRATION '' @
     [CHR 0xE2, CHR 0x80, CHR 0x94] @
     '' drawing, painting, digital art, cartoon, vector graphic.\<newline>'' @ ''- MAP '' @
     [CHR 0xE2, CHR 0x80, CHR 0x94] @ '' map, satellite view, floor plan, diagram.\<newline>'' @
     ''- PLACEHOLDER '' @ [CHR 0xE2, CHR 0x80, CHR 0x94] @
     '' error page, \"no permission\" message, blank image with centered text,\<newline>'' @
     ''  site logo used as article image, or any image whose primary content is a text error\<newline>'' @
     ''  or permission-denial message (e.g. \"This site does not have permission to access or\<newline>'' @
     ''  serve this content\", \"404\", \"Access Denied\"). Uniform background with centered text\<newline>'' @
     ''  is a strong signal.\<newline>'' @ ''\<newline>'' @ ''Key distinctions:\<newline>'' @
     ''- Small corner watermark of photographer '' @ [CHR 0xE2, CHR 0x86, CHR 0x92] @
     '' PHOTO\<newline>'' @ ''- Repeating diagonal stock watermark '' @ [CHR 0xE2, CHR 0x86, CHR 0x92] @
     '' STOCK\<newline>'' @ ''- Text/graphics dominate the image '' @ [CHR 0xE2, CHR 0x86, CHR 0x92] @
     '' REJECT\<newline>'' @ ''- Image is primarily an error message or permission denial '' @
     [CHR 0xE2, CHR 0x86, CHR 0x92] @ '' PLACEHOLDER\<newline>'' @
     ''- Site logo displayed as article thumbnail '' @ [CHR 0xE2, CHR 0x86, CHR 0x92] @
     '' PLACEHOLDER\<newline>'' @ ''\<newline>'' @ ''Answer format: CLASS 0.95\<newline>'' @
     ''Example: PHOTO 0.92\<newline>'' @ ''Answer:''"

definition VisionPrompt :: string where
  "VisionPrompt =
     ''You are an editorial image filter for a city guide website.\<newline>'' @
     ''We only accept real photographs without stock watermarks.\<newline>'' @ ''\<newline>'' @
     ''Classify this image. Answer with exactly one word:\<newline>'' @ ''- PHOTO '' @
     [CHR 0xE2, CHR 0x80, CHR 0x94] @
     '' a real photograph. Small photographer watermark in a corner is OK.\<newline>'' @ ''- STOCK '' @
     [CHR 0xE2, CHR 0x80, CHR 0x94] @
     '' a real photograph with a visible stock photo watermark (Shutterstock,\<newline>'' @
     ''  Getty Images, iStock, Adobe Stock, Depositphotos, Dreamstime, 123RF, Alamy,\<newline>'' @
     ''  or any semi-transparent tiled/diagonal watermark pattern typical of stock previews).\<newline>'' @
     ''- REJECT '' @ [CHR 0xE2, CHR 0x80, CHR 0x94] @
     '' banner, advertisement, social media cover, promotional graphic with\<newline>'' @
     ''  large text overlay, infographic, chart, screenshot, collage, illustration,\<newline>'' @
     ''  drawing, meme, map, UI element, or image where text/graphics dominate.\<newline>'' @
     ''\<newline>'' @ ''Key distinctions:\<newline>'' @ ''- Small corner watermark of a photographer '' @
     [CHR 0xE2, CHR 0x86, CHR 0x92] @ '' PHOTO\<newline>'' @
     ''- Repeating diagonal \"shutterstock\" or stock agency watermark '' @
     [CHR 0xE2, CHR 0x86, CHR 0x92] @ '' STOCK\<newline>'' @
     ''- Promotional banner with overlaid text/branding '' @ [CHR 0xE2, CHR 0x86, CHR 0x92] @
     '' REJECT\<newline>'' @ ''\<newline>'' @ ''Answer:''"

section \<open>Labels and results\<close>

definition ClassPhoto :: string where "ClassPhoto = ''PHOTO''"
definition ClassStock :: string where "ClassStock = ''STOCK''"
definition ClassReject :: string where "ClassReject = ''REJECT''"
definition ClassScreenshot :: string where "ClassScreenshot = ''SCREENSHOT''"
definition ClassIllustration :: string where "ClassIllustration = ''ILLUSTRATION''"
definition ClassMap :: string where "ClassMap = ''MAP''"
definition ClassPlaceholder :: string where "ClassPlaceholder = ''PLACEHOLDER''"

lemmas class_defs = ClassPhoto_def ClassStock_def ClassReject_def ClassScreenshot_def
  ClassIllustration_def ClassMap_def ClassPlaceholder_def

definition visionMaxBytes :: int where
  "visionMaxBytes = 200 * 1024"

definition classificationClasses :: "string list" where
  "classificationClasses = [ClassIllustration, ClassPlaceholder, ClassScreenshot, ClassReject,
     ClassPhoto, ClassStock, ClassMap]"

record ClassificationEvent =
  ev_URL :: string
  ev_Class :: string
  ev_Confidence :: float64
  ev_Source :: string

record ClassificationResult =
  Class :: string
  Confidence :: float64

definition no_result :: ClassificationResult where
  "no_result = \<lparr>Class = '''', Confidence = Fin 0\<rparr>"

section \<open>Parsers\<close>

text \<open>
  The index expression \<^verbatim>\<open>fields[0]\<close> is the \<open>case\<close> on the fields; lemma \<open>Fields_TrimSpace_nonempty\<close>
  below shows that the empty case does not arise.
\<close>

definition ParseClassificationResult :: "unicode \<Rightarrow> string \<Rightarrow> ClassificationResult" where
  "ParseClassificationResult u resp =
     (let upper = ToUpper u (TrimSpace u resp) in
      if upper = '''' then no_result
      else (case List.find (\<lambda>cls. HasPrefix upper cls) classificationClasses of
          None \<Rightarrow> no_result
        | Some matched \<Rightarrow>
           let remainder = TrimSpace u (drop (length matched) upper) in
           if remainder = '''' then \<lparr>Class = matched, Confidence = Fin 0\<rparr>
           else (case Fields u remainder of
               [] \<Rightarrow> no_result
             | f # _ \<Rightarrow>
                (case ParseFloat f of
                   None \<Rightarrow> \<lparr>Class = matched, Confidence = Fin 0\<rparr>
                 | Some conf \<Rightarrow>
                    if f64_le conf 0 \<or> f64_gt conf 1 then \<lparr>Class = matched, Confidence = Fin 0\<rparr>
                    else \<lparr>Class = matched, Confidence = conf\<rparr>))))"

definition ParseVisionResponse :: "unicode \<Rightarrow> string \<Rightarrow> string" where
  "ParseVisionResponse u resp =
     (let word = ToUpper u (TrimSpace u resp) in
      if HasPrefix word ClassPhoto then ClassPhoto
      else if HasPrefix word ClassStock then ClassStock
      else if HasPrefix word ClassReject then ClassReject
      else '''')"

section \<open>Facts about trimming and splitting\<close>

text \<open>What the parsers rely on of the Unicode tables: U+FFFD is not white space.\<close>

definition unicode_ok :: "unicode \<Rightarrow> bool" where
  "unicode_ok u \<longleftrightarrow> \<not> uc_space u RuneError"

lemma DecodeRune_prefix:
  assumes "t \<noteq> []"
  shows "DecodeRune t = DecodeRune (t @ s) \<or> fst (DecodeRune t) = RuneError"
proof (cases t)
  case (Cons c0 t1)
  then show ?thesis
    by (cases t1; cases "tl t1"; cases "tl (tl t1)")
       (auto simp: DecodeRune_def Let_def split: list.splits)
qed (use assms in simp)

lemma TrimLeftFunc_head: "TrimLeftFunc p s \<noteq> [] \<Longrightarrow> \<not> p (fst (DecodeRune (TrimLeftFunc p s)))"
  by (induction p s rule: TrimLeftFunc.induct) (auto simp: Let_def split: prod.splits if_splits)

lemma TrimRightFunc_prefix: "prefix (TrimRightFunc p s) s"
proof (induction p s rule: TrimRightFunc.induct)
  case (1 p s)
  obtain r w where rw: "DecodeLastRune s = (r, w)" by fastforce
  show ?case
  proof (cases "s \<noteq> [] \<and> p r")
    case True
    then have "TrimRightFunc p s = TrimRightFunc p (take (length s - max 1 w) s)"
      using rw by (simp add: TrimRightFunc.simps [of p s])
    moreover have "prefix (TrimRightFunc p (take (length s - max 1 w) s)) (take (length s - max 1 w) s)"
      using 1 True rw by (metis (no_types, lifting))
    ultimately show ?thesis by (metis prefix_order.trans take_is_prefix)
  next
    case False
    then show ?thesis using rw by (auto simp: TrimRightFunc.simps [of p s])
  qed
qed

lemma TrimSpace_head:
  assumes "unicode_ok u" and "TrimSpace u s \<noteq> []"
  shows "\<not> space_rune u (fst (DecodeRune (TrimSpace u s)))"
proof -
  let ?l = "TrimLeftFunc (space_rune u) s" and ?t = "TrimSpace u s"
  obtain z where z: "?l = ?t @ z"
    using TrimRightFunc_prefix [of "space_rune u" ?l] by (auto simp: TrimSpace_def TrimFunc_def prefix_def)
  have "\<not> space_rune u (fst (DecodeRune ?l))"
    using TrimLeftFunc_head [of "space_rune u" s] assms(2) z by auto
  moreover have "\<not> space_rune u RuneError"
    using assms(1) by (simp add: unicode_ok_def space_rune_def RuneError_def)
  ultimately show ?thesis using DecodeRune_prefix [OF assms(2), of z] z by auto
qed

lemma fields_chunks_acc: "acc \<noteq> [] \<Longrightarrow> fields_chunks u cs acc \<noteq> []"
  by (induction u cs acc rule: fields_chunks.induct) auto

lemma Fields_TrimSpace_nonempty:
  assumes "unicode_ok u" and "TrimSpace u s \<noteq> []"
  shows "Fields u (TrimSpace u s) \<noteq> []"
proof -
  obtain c t where ct: "TrimSpace u s = c # t" using assms(2) by (cases "TrimSpace u s") auto
  obtain r w where rw: "DecodeRune (c # t) = (r, w)" by fastforce
  have "\<not> space_rune u r" using TrimSpace_head [OF assms] ct rw by simp
  moreover have "take w (c # t) \<noteq> []" using DecodeRune_width [of "c # t"] rw by auto
  ultimately show ?thesis using ct rw by (simp add: Fields_def fields_chunks_acc)
qed

text \<open>ASCII text without white space is left alone.\<close>

definition space_byte :: "char \<Rightarrow> bool" where
  "space_byte c \<longleftrightarrow> ((9::nat) \<le> of_char c \<and> of_char c \<le> (13::nat)) \<or> of_char c = (32::nat)"

lemma space_rune_ascii: "of_char c < (0x80::nat) \<Longrightarrow> space_rune u (of_char c) \<longleftrightarrow> space_byte c"
  by (auto simp: space_rune_def space_byte_def)

lemma DecodeLastRune_ascii: "of_char c < (0x80::nat) \<Longrightarrow> DecodeLastRune (s @ [c]) = (of_char c, 1)"
  by (simp add: DecodeLastRune_def DecodeRune_def byte_in_def Let_def)

lemma TrimRightFunc_ascii_last:
  assumes "of_char c < (0x80::nat)" and "\<not> p (of_char c)"
  shows "TrimRightFunc p (s @ [c]) = s @ [c]"
  using assms by (simp add: TrimRightFunc.simps DecodeLastRune_ascii)

lemma TrimSpace_ascii_id:
  assumes "is_ascii s" and "s = [] \<or> \<not> space_byte (hd s) \<and> \<not> space_byte (last s)"
  shows "TrimSpace u s = s"
proof (cases s rule: rev_cases)
  case (snoc t c)
  obtain h r where hr: "s = h # r" using snoc by (metis append_is_Nil_conv list.distinct(1) list.exhaust)
  then have "of_char h < (0x80::nat)" "\<not> space_byte h" using assms by auto
  then have "TrimLeftFunc (space_rune u) s = s"
    using hr by (simp add: DecodeRune_ascii space_rune_ascii)
  moreover have "TrimRightFunc (space_rune u) s = s"
    using assms snoc TrimRightFunc_ascii_last [of c "space_rune u" t] by (simp add: space_rune_ascii)
  ultimately show ?thesis by (simp add: TrimSpace_def TrimFunc_def)
qed (simp add: TrimSpace_def TrimFunc_def TrimRightFunc.simps)

lemma TrimSpace_ascii_lead:
  assumes "space_byte c"
  shows "TrimSpace u (c # s) = TrimSpace u s"
proof -
  have "of_char c < (0x80::nat)" using assms by (auto simp: space_byte_def)
  then show ?thesis using assms by (simp add: TrimSpace_def TrimFunc_def DecodeRune_ascii space_rune_ascii)
qed

lemma fields_chunks_ascii:
  "is_ascii s \<Longrightarrow> list_all (\<lambda>c. \<not> space_byte c) s \<Longrightarrow> acc @ s \<noteq> [] \<Longrightarrow>
     fields_chunks u (map (\<lambda>c. (of_char c, [c])) s) acc = [acc @ s]"
  by (induction s arbitrary: acc) (auto simp: space_rune_ascii)

lemma Fields_ascii_word:
  "is_ascii s \<Longrightarrow> list_all (\<lambda>c. \<not> space_byte c) s \<Longrightarrow> s \<noteq> [] \<Longrightarrow> Fields u s = [s]"
  using fields_chunks_ascii [of s "[]" u] by (simp add: Fields_def chunks_ascii)

section \<open>Facts about the parsers\<close>

lemma classes_prefix_free:
  "list_all (\<lambda>c. list_all (\<lambda>d. prefix c d \<longrightarrow> c = d) classificationClasses) classificationClasses"
  by code_simp

lemma find_class:
  assumes c: "c \<in> set classificationClasses"
  shows "List.find (\<lambda>cls. HasPrefix (c @ s) cls) classificationClasses = Some c"
proof -
  have pf: "prefix x y \<Longrightarrow> x = y" if "x \<in> set classificationClasses" "y \<in> set classificationClasses" for x y
    using classes_prefix_free that by (simp add: list_all_iff)
  have only: "d = c" if d: "d \<in> set classificationClasses" "prefix d (c @ s)" for d
    using prefix_same_cases [OF d(2), of c] pf [OF d(1) c] pf [OF c d(1)] by auto
  have "List.find (\<lambda>cls. HasPrefix (c @ s) cls) classificationClasses \<noteq> None"
    using c by (auto simp: find_None_iff HasPrefix_def)
  then obtain d where d: "List.find (\<lambda>cls. HasPrefix (c @ s) cls) classificationClasses = Some d" by auto
  then have "d \<in> set classificationClasses \<and> prefix d (c @ s)"
    using find_Some_set [OF d] by (simp add: HasPrefix_def)
  with d only show ?thesis by blast
qed

lemma class_shape:
  "c \<in> set classificationClasses \<Longrightarrow>
     is_ascii c \<and> map upper_byte c = c \<and> c \<noteq> [] \<and> \<not> space_byte (hd c) \<and> \<not> space_byte (last c)"
proof -
  have "list_all (\<lambda>c. is_ascii c \<and> map upper_byte c = c \<and> c \<noteq> [] \<and> \<not> space_byte (hd c) \<and> \<not> space_byte (last c))
    classificationClasses"
    by code_simp
  then show "c \<in> set classificationClasses \<Longrightarrow> ?thesis" by (auto simp: list_all_iff)
qed

end
