(* ===== verification/Dedup.thy ===== *)
theory Dedup
  imports Complex_Main Prelude "HOL-Library.Word"
begin

unbundle bit_operations_syntax

text \<open>
  dedup.go and the part of the vendored package goimagehash it rests on: the difference hash of
  an image, the Hamming distance of two hashes, and the per-search filter that keeps the hashes
  of the images it has accepted. Resizing to 9 by 8 pixels and the conversion to grey are a
  parameter: the rows of grey values they yield.
\<close>

section \<open>Images and hashes\<close>

text \<open>A decoded image: its rows of red, green and blue samples.\<close>

datatype image = Image "(nat \<times> nat \<times> nat) list list"

type_synonym grayscale = "image \<Rightarrow> rat list list"

datatype Kind = Unknown | AHash | PHash | DHash | WHash

record ImageHash =
  hash :: "64 word"
  kind :: Kind

text \<open>\<^verbatim>\<open>leftShiftSet\<close>: a shift by 64 or more, or by a negative amount read as unsigned, sets nothing.\<close>

definition leftShiftSet :: "ImageHash \<Rightarrow> int \<Rightarrow> ImageHash" where
  "leftShiftSet h idx =
     h\<lparr>hash := hash h OR (if 0 \<le> idx \<and> idx < 64 then push_bit (nat idx) 1 else 0)\<rparr>"

text \<open>The inner loop over one row: the comparison of neighbours, the bit index counting up.\<close>

fun dhash_row :: "rat list \<Rightarrow> nat \<times> ImageHash \<Rightarrow> nat \<times> ImageHash" where
  "dhash_row (p # q # ps) (idx, h) =
     dhash_row (q # ps) (Suc idx, if p < q then leftShiftSet h (64 - int idx - 1) else h)"
| "dhash_row _ st = st"

definition DifferenceHash :: "grayscale \<Rightarrow> image option \<Rightarrow> ImageHash result" where
  "DifferenceHash gray img =
     (case img of
        None \<Rightarrow> Inl ''Image object can not be nil''
      | Some im \<Rightarrow> Inr (snd (fold dhash_row (gray im) (0, \<lparr>hash = 0, kind = DHash\<rparr>))))"

text \<open>\<^verbatim>\<open>bits.OnesCount64\<close>, and the shifting loop older compilers used in its place.\<close>

definition popcnt :: "64 word \<Rightarrow> nat" where
  "popcnt x = length (filter (bit x) [0..<64])"

function popcnt_loop :: "64 word \<Rightarrow> nat \<Rightarrow> nat" where
  "popcnt_loop x diff = (if x = 0 then diff else popcnt_loop (drop_bit 1 x) (diff + unat (x AND 1)))"
  by pat_completeness auto
termination
proof (relation "measure (\<lambda>(x, d). unat x)", goal_cases)
  case (2 x diff)
  then have "0 < unat x" by (simp add: unat_gt_0)
  then show ?case by (simp add: drop_bit_Suc unat_div)
qed simp

declare popcnt_loop.simps [simp del]

definition Distance :: "ImageHash \<Rightarrow> ImageHash \<Rightarrow> nat result" where
  "Distance h other =
     (if kind h \<noteq> kind other then Inl ''Image hashes's kind should be identical''
      else Inr (popcnt (hash h XOR hash other)))"

section \<open>The filter\<close>

definition dedupThreshold :: nat where
  "dedupThreshold = 10"

text \<open>The state of a \<^verbatim>\<open>dedupFilter\<close> is the list of hashes of the images accepted so far.\<close>

type_synonym dedupFilter = "ImageHash list"

definition close_to :: "ImageHash \<Rightarrow> ImageHash \<Rightarrow> bool" where
  "close_to new h =
     (case Distance new h of Inl _ \<Rightarrow> False | Inr hdist \<Rightarrow> hdist < dedupThreshold)"

text \<open>The body of \<^verbatim>\<open>isDuplicate\<close> runs under the filter's mutex.\<close>

definition isDuplicate :: "grayscale \<Rightarrow> dedupFilter \<Rightarrow> image option \<Rightarrow> bool \<times> dedupFilter" where
  "isDuplicate gray hashes img =
     (case DifferenceHash gray img of
        Inl _ \<Rightarrow> (False, hashes)
      | Inr new \<Rightarrow>
          if list_ex (close_to new) hashes then (True, hashes)
          else (False, hashes @ [new]))"

section \<open>Hamming distance\<close>

locale hamming =
  fixes hdist :: "'h \<Rightarrow> 'h \<Rightarrow> nat"
  assumes dist_zero: "hdist x y = 0 \<longleftrightarrow> x = y"
    and dist_sym: "hdist x y = hdist y x"
    and dist_triangle: "hdist x z \<le> hdist x y + hdist y z"
begin

text \<open>Hashes near the same hash are not far from each other.\<close>

lemma near_common: "hdist x y < a \<Longrightarrow> hdist z y < b \<Longrightarrow> hdist x z < a + b"
  using dist_triangle [of x z y] dist_sym [of y z] by linarith

end

lemma popcnt_card: "popcnt x = card {i. i < 64 \<and> bit x i}"
proof -
  have "popcnt x = card (set (filter (bit x) [0..<64]))"
    unfolding popcnt_def by (rule distinct_card [symmetric]) simp
  also have "set (filter (bit x) [0..<64]) = {i. i < 64 \<and> bit x i}" by auto
  finally show ?thesis .
qed

lemma popcnt_zero: "popcnt x = 0 \<longleftrightarrow> x = 0"
proof
  assume "popcnt x = 0"
  then have "\<not> bit x i" if "i < 64" for i using that by (auto simp: popcnt_def filter_empty_conv)
  then show "x = 0" by (intro bit_word_eqI) auto
qed (simp add: popcnt_def)

lemma popcnt_xor_triangle: "popcnt (x XOR z) \<le> popcnt (x XOR y) + popcnt (y XOR z)"
proof -
  let ?S = "\<lambda>a b :: 64 word. {i. i < 64 \<and> bit (a XOR b) i}"
  have "?S x z \<subseteq> ?S x y \<union> ?S y z" by (auto simp: bit_xor_iff)
  then have "card (?S x z) \<le> card (?S x y \<union> ?S y z)" by (intro card_mono) auto
  also have "\<dots> \<le> card (?S x y) + card (?S y z)" by (rule card_Un_le)
  finally show ?thesis by (simp add: popcnt_card)
qed

interpretation hash_dist: hamming "\<lambda>a b. popcnt (a XOR b)"
proof
  fix x y z :: "64 word"
  show "popcnt (x XOR y) = 0 \<longleftrightarrow> x = y"
  proof
    assume "popcnt (x XOR y) = 0"
    then have "x XOR y = 0" by (simp add: popcnt_zero)
    then have "(x XOR y) XOR y = 0 XOR y" by simp
    then show "x = y" by (simp add: xor.assoc)
  qed (simp add: popcnt_zero)
  show "popcnt (x XOR y) = popcnt (y XOR x)" by (simp add: xor.commute)
  show "popcnt (x XOR z) \<le> popcnt (x XOR y) + popcnt (y XOR z)" by (rule popcnt_xor_triangle)
qed

lemma popcnt_le: "popcnt x \<le> 64"
  using length_filter_le [of "bit x" "[0..<64]"] by (simp add: popcnt_def)

lemma popcnt_step: "popcnt x = unat (x AND 1) + popcnt (drop_bit 1 x)"
proof -
  have "[0..<64] = 0 # map Suc [0..<63]" by (simp add: upt_conv_Cons map_Suc_upt)
  then have "popcnt x = of_bool (bit x 0) + length (filter (\<lambda>i. bit x (Suc i)) [0..<63])"
    by (simp add: popcnt_def filter_map comp_def)
  moreover have "popcnt (drop_bit 1 x) = length (filter (\<lambda>i. bit x (Suc i)) [0..<63])"
  proof -
    have "[0..<64] = [0..<63] @ [63]" by (simp add: upt_Suc_append [symmetric])
    moreover have "\<not> bit x 64" using bit_imp_le_length [of x 64] by auto
    ultimately show ?thesis by (simp add: popcnt_def bit_drop_bit_eq comp_def)
  qed
  moreover have "unat (x AND 1) = of_bool (bit x 0)"
    by (simp add: and_one_eq bit_0 odd_iff_mod_2_eq_one) 
  ultimately show ?thesis by simp
qed

lemma popcnt_loop_eq: "popcnt_loop x diff = diff + popcnt x"
proof (induction x diff rule: popcnt_loop.induct)
  case (1 x diff)
  show ?case
  proof (cases "x = 0")
    case True
    moreover have "popcnt 0 = 0" by (simp add: popcnt_zero)
    ultimately show ?thesis by (simp add: popcnt_loop.simps [of 0])
  next
    case False
    with 1 have "popcnt_loop x diff = diff + unat (x AND 1) + popcnt (drop_bit 1 x)"
      by (simp add: popcnt_loop.simps [of x])
    then show ?thesis using popcnt_step [of x] by simp
  qed
qed

section \<open>The contract of the filter\<close>

text \<open>
  A filter with state: it rejects an item exactly when its key is near a kept key and then
  keeps its state, and otherwise adds the key. Whatever the order of the calls, the kept keys
  are pairwise apart.
\<close>

locale near_filter =
  fixes offer :: "'k list \<Rightarrow> 'i \<Rightarrow> bool \<times> 'k list"
    and key :: "'i \<Rightarrow> 'k option"
    and near :: "'k \<Rightarrow> 'k \<Rightarrow> bool"
  assumes near_sym: "near a b \<longleftrightarrow> near b a"
    and offer_no_key: "key i = None \<Longrightarrow> offer ks i = (False, ks)"
    and offer_near: "key i = Some k \<Longrightarrow> \<exists>k'\<in>set ks. near k k' \<Longrightarrow> offer ks i = (True, ks)"
    and offer_far: "key i = Some k \<Longrightarrow> \<forall>k'\<in>set ks. \<not> near k k' \<Longrightarrow> offer ks i = (False, ks @ [k])"
begin

definition apart :: "'k list \<Rightarrow> bool" where
  "apart ks \<longleftrightarrow> sorted_wrt (\<lambda>a b. \<not> near a b) ks"

lemma offer_cases:
  obtains (nokey) "key i = None" "offer ks i = (False, ks)"
  | (dup) k where "key i = Some k" "\<exists>k'\<in>set ks. near k k'" "offer ks i = (True, ks)"
  | (fresh) k where "key i = Some k" "\<forall>k'\<in>set ks. \<not> near k k'" "offer ks i = (False, ks @ [k])"
  using offer_no_key offer_near offer_far by (cases "key i") blast+

lemma offer_apart: "apart ks \<Longrightarrow> apart (snd (offer ks i))"
proof (cases i ks rule: offer_cases)
  case (fresh k)
  assume "apart ks"
  with fresh near_sym show ?thesis by (auto simp: apart_def sorted_wrt_append)
qed simp_all

lemma offer_prefix: "prefix ks (snd (offer ks i))"
  by (cases i ks rule: offer_cases) auto

lemma offer_accept: "offer ks i = (False, ks') \<Longrightarrow> key i = Some k \<Longrightarrow> ks' = ks @ [k]"
  by (cases i ks rule: offer_cases) auto

lemma offer_twice: "key i = Some k \<Longrightarrow> near k k \<Longrightarrow> fst (offer (snd (offer ks i)) i)"
proof -
  assume k: "key i = Some k" and n: "near k k"
  have "\<exists>k'\<in>set (snd (offer ks i)). near k k'"
    using k n by (cases i ks rule: offer_cases) auto
  then show ?thesis using offer_near [OF k] by simp
qed

end

definition hash_key :: "grayscale \<Rightarrow> image option \<Rightarrow> ImageHash option" where
  "hash_key gray img = (case DifferenceHash gray img of Inl _ \<Rightarrow> None | Inr h \<Rightarrow> Some h)"

interpretation dedup: near_filter "isDuplicate gray" "hash_key gray" close_to
proof
  fix a b :: ImageHash
  show "close_to a b \<longleftrightarrow> close_to b a"
    by (auto simp: close_to_def Distance_def hash_dist.dist_sym)
next
  fix i and ks :: dedupFilter
  show "hash_key gray i = None \<Longrightarrow> isDuplicate gray ks i = (False, ks)"
    by (auto simp: hash_key_def isDuplicate_def split: sum.splits)
next
  fix i k and ks :: dedupFilter
  assume k: "hash_key gray i = Some k"
  show "\<exists>k'\<in>set ks. close_to k k' \<Longrightarrow> isDuplicate gray ks i = (True, ks)"
    using k by (auto simp: hash_key_def isDuplicate_def list_ex_iff split: sum.splits)
  show "\<forall>k'\<in>set ks. \<not> close_to k k' \<Longrightarrow> isDuplicate gray ks i = (False, ks @ [k])"
    using k by (auto simp: hash_key_def isDuplicate_def list_ex_iff split: sum.splits)
qed

lemma close_to_refl: "close_to h h"
  by (simp add: close_to_def Distance_def popcnt_zero [THEN iffD2] dedupThreshold_def)

end
