(* ===== verification/Config.thy ===== *)
theory Config
  imports License Metadata Go_Html Go_Http Go_Json_Text Classify_Types Dedup
begin

text \<open>
  imagefy.go and the shared types of search.go and provider.go: the configuration with its
  injected dependencies, candidates, search options, providers, and the library functions the
  program calls but does not contain (\<open>runtime\<close>). The shared mutable state of a run
  is the cache behind the \<^verbatim>\<open>Cache\<close> interface and the log of callback invocations.
\<close>

section \<open>Outcomes\<close>

text \<open>A call into injected code or a decoder returns or panics.\<close>

datatype 'a outcome = Returns 'a | Panics

section \<open>Library functions that are parameters\<close>

record runtime =
  rt_unicode :: unicode
  rt_entities :: entities
  rt_DefaultClient :: client
  rt_DecodeConfig :: "bytes \<Rightarrow> int option"              \<comment> \<open>the width \<open>image.DecodeConfig\<close> reports\<close>
  rt_Decode :: "bytes \<Rightarrow> image option outcome"           \<comment> \<open>\<open>image.Decode\<close>\<close>
  rt_gray :: grayscale
  rt_imagemeta :: meta_decoder

section \<open>Candidates, options, providers\<close>

record ImageCandidate =
  ImgURL :: string
  Thumbnail :: string
  Source :: string
  Title :: string
  License :: ImageLicense
  Width :: int
  Height :: int
  Engine :: string

record SearchOpts =
  PageNumber :: int
  Engines :: "string list"
  Timeout :: int
  PageURL :: string

definition zero_SearchOpts :: SearchOpts where
  "zero_SearchOpts = \<lparr>PageNumber = 0, Engines = [], Timeout = 0, PageURL = ''''\<rparr>"

record SearchProvider =
  prov_Search :: "string \<Rightarrow> SearchOpts \<Rightarrow> ImageCandidate list result"
  prov_Name :: string

record ImageInput =
  input_URL :: string
  input_MIMEType :: string

text \<open>The \<^verbatim>\<open>Cache\<close> interface over a store of type \<open>'c\<close>; reading may change the store.\<close>

record 'c Cache =
  cache_Key :: "string \<Rightarrow> string \<Rightarrow> string"
  cache_Get :: "'c \<Rightarrow> string \<Rightarrow> ClassificationResult option \<times> 'c"
  cache_Set :: "'c \<Rightarrow> string \<Rightarrow> ClassificationResult \<Rightarrow> 'c"

type_synonym Classifier = "string \<Rightarrow> ImageInput list \<Rightarrow> string result outcome"

section \<open>Configuration\<close>

text \<open>Of the callbacks only whether they are set matters; what they are called with is logged.\<close>

record 'c Config =
  cfg_Cache :: "'c Cache option"
  cfg_Classifier :: "Classifier option"
  cfg_StealthClient :: "client option"
  cfg_HTTPClient :: "client option"
  cfg_SearxngURL :: string
  cfg_MinImageWidth :: int
  cfg_UserAgent :: string
  cfg_Providers :: "SearchProvider list"
  cfg_VisionPrompt :: string
  cfg_ExtraBlockedDomains :: "string list"
  cfg_ExtraSafeDomains :: "string list"
  cfg_OxBrowserURL :: string
  cfg_OnImageSearch :: bool
  cfg_OnPanic :: bool
  cfg_OnClassification :: bool

definition DefaultMinImageWidth :: int where
  "DefaultMinImageWidth = 880"

definition default_UserAgent :: string where
  "default_UserAgent = ''Mozilla/5.0 (compatible; go-imagefy/1.0)''"

definition defaults :: "runtime \<Rightarrow> 'c Config \<Rightarrow> 'c Config" where
  "defaults rt c =
     c\<lparr>cfg_MinImageWidth := (if cfg_MinImageWidth c \<le> 0 then DefaultMinImageWidth else cfg_MinImageWidth c),
       cfg_UserAgent := or_default (cfg_UserAgent c) default_UserAgent,
       cfg_HTTPClient := (case cfg_HTTPClient c of None \<Rightarrow> Some (rt_DefaultClient rt) | Some h \<Rightarrow> Some h)\<rparr>"

text \<open>\<^verbatim>\<open>cfg.HTTPClient\<close> where the code uses it after \<^verbatim>\<open>defaults\<close>; providers fall back in the same way.\<close>

definition client_or_default :: "runtime \<Rightarrow> client option \<Rightarrow> client" where
  "client_or_default rt c = (case c of None \<Rightarrow> rt_DefaultClient rt | Some h \<Rightarrow> h)"

section \<open>The callback log\<close>

datatype event =
    SearchStarted
  | Panicked string
  | Classified ClassificationEvent

definition emitClassification ::
  "'c Config \<Rightarrow> string \<Rightarrow> string \<Rightarrow> float64 \<Rightarrow> string \<Rightarrow> event list" where
  "emitClassification cfg url cls confidence src =
     (if cfg_OnClassification cfg
      then [Classified \<lparr>ev_URL = url, ev_Class = cls, ev_Confidence = confidence, ev_Source = src\<rparr>]
      else [])"

section \<open>Facts\<close>

lemma defaults_idem [simp]: "defaults rt (defaults rt c) = defaults rt c"
  by (simp add: defaults_def DefaultMinImageWidth_def split: option.splits)

lemma defaults_fields [simp]:
  "cfg_Cache (defaults rt c) = cfg_Cache c"
  "cfg_Classifier (defaults rt c) = cfg_Classifier c"
  "cfg_StealthClient (defaults rt c) = cfg_StealthClient c"
  "cfg_SearxngURL (defaults rt c) = cfg_SearxngURL c"
  "cfg_Providers (defaults rt c) = cfg_Providers c"
  "cfg_VisionPrompt (defaults rt c) = cfg_VisionPrompt c"
  "cfg_ExtraBlockedDomains (defaults rt c) = cfg_ExtraBlockedDomains c"
  "cfg_ExtraSafeDomains (defaults rt c) = cfg_ExtraSafeDomains c"
  "cfg_OxBrowserURL (defaults rt c) = cfg_OxBrowserURL c"
  "cfg_OnImageSearch (defaults rt c) = cfg_OnImageSearch c"
  "cfg_OnPanic (defaults rt c) = cfg_OnPanic c"
  "cfg_OnClassification (defaults rt c) = cfg_OnClassification c"
  by (simp_all add: defaults_def)

lemma defaults_HTTPClient [simp]: "cfg_HTTPClient (defaults rt c) = Some (client_or_default rt (cfg_HTTPClient c))"
  by (simp add: defaults_def client_or_default_def split: option.splits)

lemma defaults_MinImageWidth: "0 < cfg_MinImageWidth (defaults rt c)"
  by (simp add: defaults_def DefaultMinImageWidth_def)

lemma defaults_UserAgent: "cfg_UserAgent (defaults rt c) \<noteq> ''''"
  by (simp add: defaults_def default_UserAgent_def)

lemma emitClassification_simps [simp]:
  "emitClassification (defaults rt c) = emitClassification c"
  by (simp add: emitClassification_def fun_eq_iff)

end
