(* ===== verification/Assessment.thy ===== *)
theory Assessment
  imports Config
begin

text \<open>
  assessment.go and prefilter.go: the licence verdict on a candidate, combined from the
  search-time class, the extended domain lists and the image's metadata, together with the
  evidence it rests on; and the older one-signal heuristic.
\<close>

section \<open>Signals\<close>

record LicenseSignal =
  sig_Source :: string
  sig_Detail :: string
  sig_License :: ImageLicense

record LicenseAssessment =
  as_License :: ImageLicense
  as_Signals :: "LicenseSignal list"

definition metadataStockDetail :: "unicode \<Rightarrow> ImageMetadata option \<Rightarrow> string" where
  "metadataStockDetail u meta =
     (case meta of
        None \<Rightarrow> ''''
      | Some m \<Rightarrow> (case List.find (stock_field_hit u) (stock_fields m) of None \<Rightarrow> '''' | Some f \<Rightarrow> f))"

definition metadataCCDetail :: "ImageMetadata option \<Rightarrow> string" where
  "metadataCCDetail meta =
     (case meta of
        None \<Rightarrow> ''''
      | Some m \<Rightarrow> (case List.find (\<lambda>f. f \<noteq> '''') (cc_fields m) of None \<Rightarrow> '''' | Some f \<Rightarrow> f))"

text \<open>The four stages of \<^verbatim>\<open>AssessLicense\<close>, each appending at most one signal.\<close>

definition domain_signal :: "ImageCandidate \<Rightarrow> LicenseSignal list" where
  "domain_signal cand =
     (if ImgURL cand \<noteq> '''' \<or> Source cand \<noteq> '''' then
        (case License cand of
           LicenseBlocked \<Rightarrow>
             [\<lparr>sig_Source = ''domain'',
               sig_Detail = ''blocked by search-time domain check: '' @ Source cand,
               sig_License = LicenseBlocked\<rparr>]
         | LicenseSafe \<Rightarrow>
             [\<lparr>sig_Source = ''domain'',
               sig_Detail = ''safe by search-time domain check: '' @ Source cand,
               sig_License = LicenseSafe\<rparr>]
         | LicenseUnknown \<Rightarrow> [])
      else [])"

definition extra_domain_signal :: "unicode \<Rightarrow> 'c Config \<Rightarrow> ImageCandidate \<Rightarrow> LicenseSignal list" where
  "extra_domain_signal u cfg cand =
     (if cfg_ExtraBlockedDomains cfg \<noteq> [] \<or> cfg_ExtraSafeDomains cfg \<noteq> [] then
        let extLicense = CheckLicenseWith u (ImgURL cand) (Source cand)
                           (cfg_ExtraBlockedDomains cfg) (cfg_ExtraSafeDomains cfg)
        in if extLicense \<noteq> License cand \<and> extLicense \<noteq> LicenseUnknown then
             [\<lparr>sig_Source = ''extra_domain'',
               sig_Detail = ''reclassified by extended domain check: '' @ License_String extLicense,
               sig_License = extLicense\<rparr>]
           else []
      else [])"

definition stock_signal :: "unicode \<Rightarrow> ImageMetadata option \<Rightarrow> LicenseSignal list" where
  "stock_signal u meta =
     (if IsStockByMetadata u meta then
        [\<lparr>sig_Source = ''metadata_stock'',
          sig_Detail = ''stock agency detected in metadata: '' @ metadataStockDetail u meta,
          sig_License = LicenseBlocked\<rparr>]
      else [])"

definition cc_signal :: "unicode \<Rightarrow> ImageMetadata option \<Rightarrow> LicenseSignal list" where
  "cc_signal u meta =
     (if IsCCByMetadata u meta then
        [\<lparr>sig_Source = ''metadata_cc'',
          sig_Detail = ''Creative Commons license in metadata: '' @ metadataCCDetail meta,
          sig_License = LicenseSafe\<rparr>]
      else [])"

text \<open>The resolution loop with its \<^verbatim>\<open>break\<close>; the second argument is the variable \<^verbatim>\<open>final\<close>.\<close>

fun resolve_signals :: "LicenseSignal list \<Rightarrow> ImageLicense \<Rightarrow> ImageLicense" where
  "resolve_signals [] final = final"
| "resolve_signals (sig # sigs) final =
     (if sig_License sig = LicenseBlocked then LicenseBlocked
      else if sig_License sig = LicenseSafe then resolve_signals sigs LicenseSafe
      else resolve_signals sigs final)"

definition AssessLicense ::
  "unicode \<Rightarrow> 'c Config \<Rightarrow> ImageCandidate \<Rightarrow> ImageMetadata option \<Rightarrow> LicenseAssessment" where
  "AssessLicense u cfg cand meta =
     (let signals = domain_signal cand @ extra_domain_signal u cfg cand
                      @ stock_signal u meta @ cc_signal u meta
      in \<lparr>as_License = resolve_signals signals LicenseUnknown, as_Signals = signals\<rparr>)"

text \<open>\<^verbatim>\<open>PreClassify\<close>: the class and whether the model call can be skipped.\<close>

definition PreClassify :: "ImageCandidate \<Rightarrow> string \<times> bool" where
  "PreClassify cand = (if License cand = LicenseSafe then (ClassPhoto, True) else ('''', False))"

lemmas signal_defs [lic_defs] = domain_signal_def extra_domain_signal_def stock_signal_def cc_signal_def

section \<open>The verdict of a set of signals\<close>

text \<open>
  The contract of a resolution: a verdict is Blocked exactly when some signal blocks, Safe
  exactly when none blocks and some signal is safe. Everything a caller may conclude from an
  assessment follows from these two laws; in particular the order of the signals is irrelevant
  and further evidence never lifts a block.
\<close>

locale verdict =
  fixes resolve :: "'s list \<Rightarrow> ImageLicense" and lic :: "'s \<Rightarrow> ImageLicense"
  assumes blocked_iff: "resolve ss = LicenseBlocked \<longleftrightarrow> LicenseBlocked \<in> lic ` set ss"
    and safe_iff: "resolve ss = LicenseSafe \<longleftrightarrow>
           LicenseBlocked \<notin> lic ` set ss \<and> LicenseSafe \<in> lic ` set ss"
begin

lemma unknown_iff: "resolve ss = LicenseUnknown \<longleftrightarrow> lic ` set ss \<subseteq> {LicenseUnknown}"
proof -
  have "resolve ss = LicenseUnknown \<longleftrightarrow> resolve ss \<noteq> LicenseBlocked \<and> resolve ss \<noteq> LicenseSafe"
    by (cases "resolve ss") auto
  also have "\<dots> \<longleftrightarrow> LicenseBlocked \<notin> lic ` set ss \<and> LicenseSafe \<notin> lic ` set ss"
    using blocked_iff safe_iff by blast
  also have "\<dots> \<longleftrightarrow> lic ` set ss \<subseteq> {LicenseUnknown}"
    by (auto intro: ImageLicense.exhaust simp: image_iff) (metis ImageLicense.exhaust)
  finally show ?thesis .
qed

lemma order_irrelevant:
  assumes "set ss = set ts"
  shows "resolve ss = resolve ts"
  using assms blocked_iff [of ss] blocked_iff [of ts] safe_iff [of ss] safe_iff [of ts]
  by (cases "resolve ss"; cases "resolve ts"; simp)

lemma blocked_more: "resolve ss = LicenseBlocked \<Longrightarrow> set ss \<subseteq> set ts \<Longrightarrow> resolve ts = LicenseBlocked"
  by (auto simp: blocked_iff)

end

lemma resolve_signals_Blocked:
  "resolve_signals ss f = LicenseBlocked \<longleftrightarrow> LicenseBlocked \<in> sig_License ` set ss \<or> f = LicenseBlocked \<and> LicenseSafe \<notin> sig_License ` set ss"
  by (induction ss f rule: resolve_signals.induct) auto

lemma resolve_signals_Safe:
  "resolve_signals ss f = LicenseSafe \<longleftrightarrow>
     LicenseBlocked \<notin> sig_License ` set ss \<and> (f = LicenseSafe \<or> LicenseSafe \<in> sig_License ` set ss)"
  by (induction ss f rule: resolve_signals.induct) auto

interpretation assessment: verdict "\<lambda>ss. resolve_signals ss LicenseUnknown" sig_License
  by unfold_locales (auto simp: resolve_signals_Blocked resolve_signals_Safe)

section \<open>Facts\<close>

lemma as_License_AssessLicense:
  "as_License (AssessLicense u cfg cand meta) = resolve_signals (as_Signals (AssessLicense u cfg cand meta)) LicenseUnknown"
  by (simp add: AssessLicense_def Let_def)

lemma signal_license_sets:
  "sig_License ` set (domain_signal cand) =
     (if ImgURL cand \<noteq> '''' \<or> Source cand \<noteq> '''' then {License cand} - {LicenseUnknown} else {})"
  "sig_License ` set (stock_signal u meta) = (if IsStockByMetadata u meta then {LicenseBlocked} else {})"
  "sig_License ` set (cc_signal u meta) = (if IsCCByMetadata u meta then {LicenseSafe} else {})"
  by (cases "License cand"; simp add: domain_signal_def)
     (simp_all add: stock_signal_def cc_signal_def)

lemma signal_licenses:
  "LicenseBlocked \<in> sig_License ` set (domain_signal cand) \<longleftrightarrow>
     License cand = LicenseBlocked \<and> (ImgURL cand \<noteq> '''' \<or> Source cand \<noteq> '''')"
  "LicenseSafe \<in> sig_License ` set (domain_signal cand) \<longleftrightarrow>
     License cand = LicenseSafe \<and> (ImgURL cand \<noteq> '''' \<or> Source cand \<noteq> '''')"
  "LicenseBlocked \<in> sig_License ` set (stock_signal u meta) \<longleftrightarrow> IsStockByMetadata u meta"
  "LicenseSafe \<notin> sig_License ` set (stock_signal u meta)"
  "LicenseBlocked \<notin> sig_License ` set (cc_signal u meta)"
  "LicenseSafe \<in> sig_License ` set (cc_signal u meta) \<longleftrightarrow> IsCCByMetadata u meta"
  unfolding signal_license_sets by auto

lemma Parse_Nil_hosts: "\<not> isBlockedWith u '''' e" "\<not> isSafeWith u '''' e"
proof -
  show "\<not> isBlockedWith u '''' e" by simp
  have "Parse [] = Some empty_URL" by code_simp
  then have "extractHost u [] = []" by (simp add: extractHost_def empty_URL_def)
  then show "\<not> isSafeWith u '''' e" by (simp add: isSafeWith_def)
qed

text \<open>The verdict on a candidate, said without signals.\<close>

definition ext_license :: "unicode \<Rightarrow> 'c Config \<Rightarrow> ImageCandidate \<Rightarrow> ImageLicense" where
  "ext_license u cfg cand =
     (if cfg_ExtraBlockedDomains cfg \<noteq> [] \<or> cfg_ExtraSafeDomains cfg \<noteq> []
      then CheckLicenseWith u (ImgURL cand) (Source cand) (cfg_ExtraBlockedDomains cfg) (cfg_ExtraSafeDomains cfg)
      else LicenseUnknown)"

lemma extra_signal_set:
  "sig_License ` set (extra_domain_signal u cfg cand) = {ext_license u cfg cand} - {License cand, LicenseUnknown}"
proof -
  have "extra_domain_signal u cfg cand =
      (if ext_license u cfg cand = License cand \<or> ext_license u cfg cand = LicenseUnknown then []
       else [\<lparr>sig_Source = ''extra_domain'',
              sig_Detail = ''reclassified by extended domain check: '' @ License_String (ext_license u cfg cand),
              sig_License = ext_license u cfg cand\<rparr>])"
    unfolding extra_domain_signal_def ext_license_def Let_def by presburger
  then show ?thesis by (cases "ext_license u cfg cand = License cand \<or> ext_license u cfg cand = LicenseUnknown") auto
qed

lemma extra_signal_licenses:
  "LicenseBlocked \<in> sig_License ` set (extra_domain_signal u cfg cand) \<longleftrightarrow>
     ext_license u cfg cand = LicenseBlocked \<and> License cand \<noteq> LicenseBlocked"
  "LicenseSafe \<in> sig_License ` set (extra_domain_signal u cfg cand) \<longleftrightarrow>
     ext_license u cfg cand = LicenseSafe \<and> License cand \<noteq> LicenseSafe"
  unfolding extra_signal_set by auto

lemma ext_license_named:
  "ext_license u cfg cand \<noteq> LicenseUnknown \<Longrightarrow> ImgURL cand \<noteq> '''' \<or> Source cand \<noteq> ''''"
  by (auto simp: ext_license_def CheckLicenseWith_def Parse_Nil_hosts split: if_splits)

lemma AssessLicense_Blocked_iff:
  "as_License (AssessLicense u cfg cand meta) = LicenseBlocked \<longleftrightarrow>
     License cand = LicenseBlocked \<and> (ImgURL cand \<noteq> '''' \<or> Source cand \<noteq> '''')
     \<or> ext_license u cfg cand = LicenseBlocked \<or> IsStockByMetadata u meta"
  using ext_license_named [of u cfg cand]
  by (auto simp: AssessLicense_def Let_def assessment.blocked_iff image_Un signal_licenses extra_signal_licenses)

lemma AssessLicense_Safe_iff:
  "as_License (AssessLicense u cfg cand meta) = LicenseSafe \<longleftrightarrow>
     as_License (AssessLicense u cfg cand meta) \<noteq> LicenseBlocked
     \<and> (License cand = LicenseSafe \<and> (ImgURL cand \<noteq> '''' \<or> Source cand \<noteq> '''')
        \<or> ext_license u cfg cand = LicenseSafe \<or> IsCCByMetadata u meta)"
  unfolding AssessLicense_Blocked_iff
  using ext_license_named [of u cfg cand]
  by (auto simp: AssessLicense_def Let_def assessment.safe_iff image_Un signal_licenses extra_signal_licenses)

lemma stock_detail_iff: "metadataStockDetail u meta \<noteq> '''' \<longleftrightarrow> IsStockByMetadata u meta"
  by (auto simp: metadataStockDetail_def IsStockByMetadata_def list_ex_iff stock_field_hit_def
      find_None_iff split: option.splits dest!: find_Some_set)

end
