(* ===== verification/Query.thy ===== *)
theory Query
  imports Go_Url Classify_Types
begin

text \<open>
  query.go: the search query built from an article title, with the stop words of the language
  removed. Cyrillic words are written as their UTF-8 bytes.
\<close>

section \<open>Stop words\<close>

definition ruStopWords :: "string list" where
  "ruStopWords = [
    [CHR 0xD0, CHR 0xB2], [CHR 0xD0, CHR 0xBD, CHR 0xD0, CHR 0xB0], [CHR 0xD0, CHR 0xB8],
    [CHR 0xD0, CHR 0xB8, CHR 0xD0, CHR 0xB7],
    [CHR 0xD0, CHR 0xB4, CHR 0xD0, CHR 0xBB, CHR 0xD1, CHR 0x8F],
    [CHR 0xD1, CHR 0x87, CHR 0xD1, CHR 0x82, CHR 0xD0, CHR 0xBE],
    [CHR 0xD0, CHR 0xBA, CHR 0xD0, CHR 0xB0, CHR 0xD0, CHR 0xBA],
    [CHR 0xD1, CHR 0x8D, CHR 0xD1, CHR 0x82, CHR 0xD0, CHR 0xBE],
    [CHR 0xD0, CHR 0xBF, CHR 0xD0, CHR 0xBE], [CHR 0xD0, CHR 0xBE, CHR 0xD1, CHR 0x82],
    [CHR 0xD1, CHR 0x81], [CHR 0xD0, CHR 0xBE], [CHR 0xD0, CHR 0xBA],
    [CHR 0xD0, CHR 0xBD, CHR 0xD0, CHR 0xB5], [CHR 0xD0, CHR 0xB7, CHR 0xD0, CHR 0xB0],
    [CHR 0xD1, CHR 0x83], [CHR 0xD0, CHR 0xBD, CHR 0xD0, CHR 0xBE],
    [CHR 0xD0, CHR 0xB6, CHR 0xD0, CHR 0xB5],
    [CHR 0xD0, CHR 0xB2, CHR 0xD1, CHR 0x81, CHR 0xD0, CHR 0xB5],
    [CHR 0xD1, CHR 0x82, CHR 0xD0, CHR 0xB0, CHR 0xD0, CHR 0xBA],
    [CHR 0xD0, CHR 0xB5, CHR 0xD0, CHR 0xB3, CHR 0xD0, CHR 0xBE],
    [CHR 0xD0, CHR 0xB5, CHR 0xD1, CHR 0x91], [CHR 0xD0, CHR 0xB8, CHR 0xD1, CHR 0x85],
    [CHR 0xD0, CHR 0xBC, CHR 0xD1, CHR 0x8B], [CHR 0xD0, CHR 0xB2, CHR 0xD1, CHR 0x8B],
    [CHR 0xD0, CHR 0xBE, CHR 0xD0, CHR 0xBD],
    [CHR 0xD0, CHR 0xBE, CHR 0xD0, CHR 0xBD, CHR 0xD0, CHR 0xB0],
    [CHR 0xD0, CHR 0xBE, CHR 0xD0, CHR 0xBD, CHR 0xD0, CHR 0xB8],
    [CHR 0xD0, CHR 0xB1, CHR 0xD1, CHR 0x8B, CHR 0xD0, CHR 0xBB],
    [CHR 0xD0, CHR 0xB1, CHR 0xD1, CHR 0x8B, CHR 0xD0, CHR 0xBB, CHR 0xD0, CHR 0xB0],
    [CHR 0xD0, CHR 0xB1, CHR 0xD1, CHR 0x83, CHR 0xD0, CHR 0xB4, CHR 0xD0, CHR 0xB5, CHR 0xD1, CHR 0x82],
    [CHR 0xD1, CHR 0x83, CHR 0xD0, CHR 0xB6, CHR 0xD0, CHR 0xB5],
    [CHR 0xD0, CHR 0xB5, CHR 0xD1, CHR 0x89, CHR 0xD1, CHR 0x91],
    [CHR 0xD0, CHR 0xB5, CHR 0xD1, CHR 0x89, CHR 0xD0, CHR 0xB5],
    [CHR 0xD0, CHR 0xB8, CHR 0xD0, CHR 0xBB, CHR 0xD0, CHR 0xB8],
    [CHR 0xD0, CHR 0xBD, CHR 0xD0, CHR 0xB8], [CHR 0xD0, CHR 0xB1, CHR 0xD1, CHR 0x8B],
    [CHR 0xD0, CHR 0xB4, CHR 0xD0, CHR 0xBE],
    [CHR 0xD0, CHR 0xBF, CHR 0xD0, CHR 0xBE, CHR 0xD0, CHR 0xB4],
    [CHR 0xD0, CHR 0xBF, CHR 0xD1, CHR 0x80, CHR 0xD0, CHR 0xB8],
    [CHR 0xD0, CHR 0xB1, CHR 0xD0, CHR 0xB5, CHR 0xD0, CHR 0xB7],
    [CHR 0xD0, CHR 0xBD, CHR 0xD0, CHR 0xB0, CHR 0xD0, CHR 0xB4],
    [CHR 0xD1, CHR 0x87, CHR 0xD0, CHR 0xB5, CHR 0xD1, CHR 0x80, CHR 0xD0, CHR 0xB5, CHR 0xD0, CHR 0xB7]]"

definition enStopWords :: "string list" where
  "enStopWords = [
    ''the'', ''and'', ''for'', ''with'', ''best'', ''top'', ''good'', ''your'', ''you'', ''this'',
    ''that'', ''these'', ''those'', ''from'', ''into'', ''about'', ''over'', ''under'', ''some'',
    ''any'', ''all'', ''more'', ''most'', ''very'', ''really'', ''just'', ''only'', ''also'']"

definition minWordRunes :: nat where
  "minWordRunes = 3"

definition maxQueryWords :: nat where
  "maxQueryWords = 5"

text \<open>The runes of the cutset: ASCII punctuation, the guillemets, the em and en dash, the hyphen.\<close>

definition query_cutset :: "rune list" where
  "query_cutset = map of_char ''.,;:!?'' @ [34, 39] @ map of_char ''()[]{}'' @ [0xAB, 0xBB, 0x2014, 0x2013, 45]"

section \<open>Building the query\<close>

text \<open>One pass of the loop over the words: \<open>None\<close> is \<^verbatim>\<open>continue\<close>.\<close>

definition meaningful_word :: "unicode \<Rightarrow> string list \<Rightarrow> string \<Rightarrow> string option" where
  "meaningful_word u stopWords w0 =
     (let w = Trim w0 query_cutset in
      if w = '''' then None
      else if ToLower u w \<in> set stopWords then None
      else if RuneCount w < minWordRunes then None
      else Some w)"

definition stop_words_for :: "unicode \<Rightarrow> string \<Rightarrow> string list" where
  "stop_words_for u lang =
     (let primary0 = ToLower u lang;
          primary = (case Index primary0 ''-'' of
                       Some idx \<Rightarrow> if idx > 0 then take idx primary0 else primary0
                     | None \<Rightarrow> primary0)
      in if primary = ''en'' then enStopWords else ruStopWords)"

definition BuildImageQueryLang :: "unicode \<Rightarrow> string \<Rightarrow> string \<Rightarrow> string \<Rightarrow> string" where
  "BuildImageQueryLang u title city lang =
     (let meaningful = take maxQueryWords (filter_map (meaningful_word u (stop_words_for u lang)) (Fields u title));
          query = Join meaningful '' ''
      in if city \<noteq> '''' \<and> \<not> Contains (ToLower u query) (ToLower u city) then query @ '' '' @ city
         else query)"

definition BuildImageQuery :: "unicode \<Rightarrow> string \<Rightarrow> string \<Rightarrow> string" where
  "BuildImageQuery u title city = BuildImageQueryLang u title city ''ru''"

section \<open>Words stay whole\<close>

lemma fields_chunks_no_blank:
  "(\<And>r bs. (r, bs) \<in> set cs \<Longrightarrow> CHR '' '' \<in> set bs \<Longrightarrow> r = 32) \<Longrightarrow> CHR '' '' \<notin> set acc \<Longrightarrow>
     w \<in> set (fields_chunks u cs acc) \<Longrightarrow> CHR '' '' \<notin> set w"
proof (induction u cs acc rule: fields_chunks.induct)
  case (2 u r bs cs acc)
  show ?case
  proof (cases "space_rune u r")
    case True
    with 2 show ?thesis by (auto split: if_splits)
  next
    case False
    then have "r \<noteq> 32" by (auto simp: space_rune_def)
    with "2.prems"(1) have "CHR '' '' \<notin> set bs" by auto
    moreover have "\<And>r' bs'. (r', bs') \<in> set cs \<Longrightarrow> CHR '' '' \<in> set bs' \<Longrightarrow> r' = 32"
      using "2.prems"(1) by (meson list.set_intros(2))
    ultimately show ?thesis using "2.IH"(2) [OF False] "2.prems"(2,3) False by simp
  qed
qed (auto split: if_splits)

lemma Fields_no_blank: "w \<in> set (Fields u s) \<Longrightarrow> CHR '' '' \<notin> set w"
  unfolding Fields_def
  by (rule fields_chunks_no_blank) (auto dest: chunks_ascii_byte [where c = "CHR '' ''"])

lemma TrimLeftFunc_suffix: "suffix (TrimLeftFunc p s) s"
proof (induction p s rule: TrimLeftFunc.induct)
  case (2 p c s)
  obtain r w where rw: "DecodeRune (c # s) = (r, w)" by fastforce
  show ?case
  proof (cases "p r")
    case True
    with 2 rw have "suffix (TrimLeftFunc p (drop (w - 1) s)) (drop (w - 1) s)" by simp
    also have "suffix \<dots> (c # s)" by (metis suffix_ConsI suffix_drop)
    finally show ?thesis using rw True by simp
  qed (simp add: rw)
qed simp

lemma Trim_sublist: "sublist (Trim s cs) s"
  unfolding Trim_def TrimFunc_def
  by (meson TrimLeftFunc_suffix TrimRightFunc_prefix prefix_imp_sublist sublist_order.order_trans
      suffix_imp_sublist)

lemma SplitByte_no_sep: "b \<notin> set w \<Longrightarrow> SplitByte w b = [w]"
  by (induction w) auto

lemma SplitByte_append:
  "b \<notin> set w \<Longrightarrow> SplitByte (w @ b # s) b = w # SplitByte s b"
  by (induction w) auto

lemma SplitByte_Join:
  "ws \<noteq> [] \<Longrightarrow> (\<And>w. w \<in> set ws \<Longrightarrow> b \<notin> set w) \<Longrightarrow> SplitByte (Join ws [b]) b = ws"
  by (induction ws "[b]" rule: Join.induct) (auto simp: SplitByte_no_sep SplitByte_append)

section \<open>Facts about the query\<close>

lemma meaningful_wordD:
  assumes "meaningful_word u stops f = Some w"
  shows "w \<noteq> ''''" "ToLower u w \<notin> set stops" "minWordRunes \<le> RuneCount w" "sublist w f"
  using assms Trim_sublist [of f query_cutset]
  by (auto simp: meaningful_word_def Let_def split: if_splits)

text \<open>The words a query without a city is made of.\<close>

definition query_words :: "unicode \<Rightarrow> string \<Rightarrow> string \<Rightarrow> string list" where
  "query_words u title lang =
     take maxQueryWords (filter_map (meaningful_word u (stop_words_for u lang)) (Fields u title))"

lemma query_wordsD:
  assumes "w \<in> set (query_words u title lang)"
  shows "w \<noteq> '''' \<and> ToLower u w \<notin> set (stop_words_for u lang) \<and> minWordRunes \<le> RuneCount w
     \<and> CHR '' '' \<notin> set w \<and> (\<exists>f \<in> set (Fields u title). sublist w f)"
proof -
  from assms obtain f where f: "f \<in> set (Fields u title)"
      "meaningful_word u (stop_words_for u lang) f = Some w"
    unfolding query_words_def by (auto dest!: in_set_takeD)
  have "CHR '' '' \<notin> set w"
    using meaningful_wordD(4) [OF f(2)] Fields_no_blank [OF f(1)] set_mono_sublist by blast
  with f meaningful_wordD [OF f(2)] show ?thesis by blast
qed

lemma BuildImageQueryLang_no_city:
  "BuildImageQueryLang u title '''' lang = Join (query_words u title lang) '' ''"
  by (simp add: BuildImageQueryLang_def query_words_def Let_def)

lemma Split_query:
  "query_words u title lang \<noteq> [] \<Longrightarrow>
     SplitByte (BuildImageQueryLang u title '''' lang) (CHR '' '') = query_words u title lang"
  unfolding BuildImageQueryLang_no_city by (rule SplitByte_Join) (auto dest: query_wordsD)

end
