(* ===== verification/Helpers.thy ===== *)
theory Helpers
  imports Go_Regexp Go_Html
begin

text \<open>
  helpers.go: the og:image URL of an HTML page, base64 and data URLs.
\<close>

section \<open>The og:image tag\<close>

text \<open>The two attribute orders; the groups are numbered 1 and 2.\<close>

definition ogPropRe :: "rx list" where
  "ogPropRe = [RLitI ''property='', R_quote, RLitI ''og:image'', R_quote]"

definition ogImageRe :: rx where
  "ogImageRe = RAlt
     (RSeqs ([RLitI ''<meta'', RPlus R_space, RStar R_intag] @ ogPropRe @
        [RStar R_intag, RLitI ''content='', R_quote, RCap 1 (RPlus R_unquoted), R_quote]))
     (RSeqs ([RLitI ''<meta'', RPlus R_space, RStar R_intag, RLitI ''content='', R_quote,
        RCap 2 (RPlus R_unquoted), R_quote, RStar R_intag] @ ogPropRe))"

definition ExtractOGImageURL :: "entities \<Rightarrow> string \<Rightarrow> string" where
  "ExtractOGImageURL E pageHTML =
     (case FindStringSubmatch ogImageRe pageHTML of
        None \<Rightarrow> ''''
      | Some m \<Rightarrow>
          let img = (if rx_group m 1 = '''' then rx_group m 2 else rx_group m 1) in
          if img = '''' then '''' else UnescapeString E img)"

section \<open>Base64\<close>

definition b64_alphabet :: string where
  "b64_alphabet = ''ABCDEFGHIJKLMNOPQRSTUVWXYZabcdefghijklmnopqrstuvwxyz0123456789+/''"

definition b64_char :: "nat \<Rightarrow> char" where
  "b64_char n = b64_alphabet ! n"

text \<open>\<^verbatim>\<open>base64.StdEncoding.EncodeToString\<close>: three bytes into four letters, the tail padded.\<close>

fun EncodeBase64 :: "bytes \<Rightarrow> string" where
  "EncodeBase64 [] = []"
| "EncodeBase64 [a] =
     [b64_char (of_char a div 4), b64_char (of_char a mod 4 * 16), CHR ''='', CHR ''='']"
| "EncodeBase64 [a, b] =
     [b64_char (of_char a div 4), b64_char (of_char a mod 4 * 16 + of_char b div 16),
      b64_char (of_char b mod 16 * 4), CHR ''='']"
| "EncodeBase64 (a # b # c # t) =
     [b64_char (of_char a div 4), b64_char (of_char a mod 4 * 16 + of_char b div 16),
      b64_char (of_char b mod 16 * 4 + of_char c div 64), b64_char (of_char c mod 64)] @ EncodeBase64 t"

definition EncodeDataURL :: "bytes \<Rightarrow> string \<Rightarrow> string" where
  "EncodeDataURL data mimeType = ''data:'' @ mimeType @ '';base64,'' @ EncodeBase64 data"

section \<open>The reference decoder\<close>

text \<open>
  What a receiver of the data URL does (RFC 4648, section 4): it is not part of the program,
  and states what the encoder has to preserve.
\<close>

definition b64_value :: "char \<Rightarrow> nat option" where
  "b64_value c = IndexByte b64_alphabet c"

fun b64_decode :: "string \<Rightarrow> bytes option" where
  "b64_decode [] = Some []"
| "b64_decode (p # q # r # s # t) =
     (case (b64_value p, b64_value q) of
        (Some x, Some y) \<Rightarrow>
          if r = CHR ''='' \<and> s = CHR ''='' \<and> t = [] then Some [char_of (x * 4 + y div 16)]
          else (case b64_value r of
              None \<Rightarrow> None
            | Some z \<Rightarrow>
                if s = CHR ''='' \<and> t = [] then
                  Some [char_of (x * 4 + y div 16), char_of (y mod 16 * 16 + z div 4)]
                else (case (b64_value s, b64_decode t) of
                    (Some v, Some rest) \<Rightarrow>
                      Some (char_of (x * 4 + y div 16) # char_of (y mod 16 * 16 + z div 4)
                            # char_of (z mod 4 * 64 + v) # rest)
                  | _ \<Rightarrow> None))
      | _ \<Rightarrow> None)"
| "b64_decode _ = None"

section \<open>Facts\<close>

lemma b64_table: "list_all (\<lambda>n. b64_value (b64_char n) = Some n \<and> b64_char n \<noteq> CHR ''='') [0..<64]"
  by code_simp

lemma b64_value_char [simp]: "n < 64 \<Longrightarrow> b64_value (b64_char n) = Some n"
  and b64_char_pad [simp]: "n < 64 \<Longrightarrow> b64_char n \<noteq> CHR ''=''"
  using b64_table by (auto simp: list_all_iff)

lemma div4_less [simp]: "of_char c div 4 < (64::nat)"
  by (rule less_mult_imp_div_less) simp

lemma div16_less [simp]: "of_char c div 16 < (16::nat)"
  by (rule less_mult_imp_div_less) simp

lemma div64_less [simp]: "of_char c div 64 < (4::nat)"
  by (rule less_mult_imp_div_less) simp

lemma sextet2 [simp]: "x mod 4 * 16 + of_char b div 16 < (64::nat)"
proof -
  have "x mod 4 \<le> 3" by presburger
  then show ?thesis using div16_less [of b] by linarith
qed

lemma sextet2_pad [simp]: "x mod 4 * 16 < (64::nat)"
  using sextet2 [of x "CHR 0x00"] by linarith

lemma sextet3 [simp]: "x mod 16 * 4 + of_char c div 64 < (64::nat)"
proof -
  have "x mod 16 \<le> (15::nat)" by presburger
  then show ?thesis using div64_less [of c] by linarith
qed

lemma sextet3_pad [simp]: "x mod 16 * 4 < (64::nat)"
  using sextet3 [of x "CHR 0x00"] by linarith

lemma char_join4: "char_of (of_char a div 4 * 4 + (of_char a mod 4 * 16 + of_char b div 16) div 16 :: nat) = (a::char)"
proof -
  have "(of_char a mod 4 * 16 + of_char b div 16) div 16 = (of_char a mod 4 :: nat)"
    using div16_less [of b] by simp
  then have eq: "of_char a div 4 * 4 + (of_char a mod 4 * 16 + of_char b div 16) div 16 = (of_char a :: nat)"
    by simp
  show ?thesis unfolding eq by simp
qed

lemma char_join4_pad: "char_of (of_char a div 4 * 4 + of_char a mod 4 * 16 div 16 :: nat) = (a::char)"
  using char_join4 [of a "CHR 0x00"] by simp

lemma char_join16:
  "char_of ((x mod 4 * 16 + of_char b div 16) mod 16 * 16 + (of_char b mod 16 * 4 + of_char c div 64) div 4 :: nat) = b"
proof -
  have "(x mod 4 * 16 + of_char b div 16) mod 16 = (of_char b div 16 :: nat)"
    using div16_less [of b] by simp
  moreover have "(of_char b mod 16 * 4 + of_char c div 64) div 4 = (of_char b mod 16 :: nat)"
    using div64_less [of c] by simp
  ultimately have eq: "(x mod 4 * 16 + of_char b div 16) mod 16 * 16 + (of_char b mod 16 * 4 + of_char c div 64) div 4
      = (of_char b :: nat)" by simp
  show ?thesis unfolding eq by simp
qed

lemma char_join16_pad:
  "char_of ((x mod 4 * 16 + of_char b div 16) mod 16 * 16 + of_char b mod 16 * 4 div 4 :: nat) = b"
  using char_join16 [of x b "CHR 0x00"] by simp

lemma char_join64:
  "char_of ((x mod 16 * 4 + of_char c div 64) mod 4 * 64 + of_char c mod 64 :: nat) = c"
proof -
  have "(x mod 16 * 4 + of_char c div 64) mod 4 = (of_char c div 64 :: nat)"
    using div64_less [of c] by simp
  then have eq: "(x mod 16 * 4 + of_char c div 64) mod 4 * 64 + of_char c mod 64 = (of_char c :: nat)" by simp
  show ?thesis unfolding eq by simp
qed

lemmas b64_joins = char_join4 char_join4_pad char_join16 char_join16_pad char_join64

lemma b64_decode_encode: "b64_decode (EncodeBase64 data) = Some data"
  by (induction data rule: EncodeBase64.induct) (simp_all add: b64_joins del: div_mult_self_is_m)

lemma length_EncodeBase64: "length (EncodeBase64 data) = (length data + 2) div 3 * 4"
  by (induction data rule: EncodeBase64.induct) (auto, presburger)

text \<open>What the og:image expression captures: a non-empty unquoted part of the page.\<close>

lemma unquoted_group: "rx_rel (RPlus R_unquoted) v [] \<Longrightarrow> v \<noteq> '''' \<and> CHR 0x22 \<notin> set v \<and> CHR 0x27 \<notin> set v"
  unfolding R_unquoted_def by (drule rx_rel_plus_set) (auto simp: list_all_iff)

lemma ogImage_branch:
  assumes "rx_rel (RSeqs (pre @ RCap n (RPlus R_unquoted) # post)) w cs"
    and "\<forall>r\<in>set (pre @ post). rx_nocap r"
  shows "\<exists>v. cs = [(n, v)] \<and> v \<noteq> '''' \<and> CHR 0x22 \<notin> set v \<and> CHR 0x27 \<notin> set v \<and> Contains w v"
  using rx_rel_single_caps [OF assms] unquoted_group by force

lemma ogImage_groups:
  assumes "rx_rel ogImageRe w cs"
  shows "\<exists>n v. n \<in> {1, 2} \<and> cs = [(n, v)] \<and> v \<noteq> '''' \<and> CHR 0x22 \<notin> set v \<and> CHR 0x27 \<notin> set v \<and> Contains w v"
proof -
  have no: "\<forall>r\<in>set ([RLitI ''<meta'', RPlus R_space, RStar R_intag] @ ogPropRe @
        [RStar R_intag, RLitI ''content='', R_quote] @ [R_quote]). rx_nocap r"
    by (auto simp: ogPropRe_def)
  consider "rx_rel (RSeqs (([RLitI ''<meta'', RPlus R_space, RStar R_intag] @ ogPropRe @
        [RStar R_intag, RLitI ''content='', R_quote]) @ RCap 1 (RPlus R_unquoted) # [R_quote])) w cs"
    | "rx_rel (RSeqs ([RLitI ''<meta'', RPlus R_space, RStar R_intag, RLitI ''content='', R_quote] @
        RCap 2 (RPlus R_unquoted) # (R_quote # RStar R_intag # ogPropRe))) w cs"
    using assms unfolding ogImageRe_def rx_rel_simps(4) append_assoc append_Cons append_Nil by blast
  then show ?thesis
  proof cases
    case 1
    from ogImage_branch [OF 1] no show ?thesis by auto
  next
    case 2
    from ogImage_branch [OF 2] no show ?thesis by auto
  qed
qed

end
