(* ===== verification/Providers.thy ===== *)
theory Providers
  imports Config Helpers
begin

text \<open>
  provider.go, openverse.go, pexels.go, provider_ddg.go and provider_og.go: the search backends
  that talk HTTP. Each builds a request URL, fetches and decodes the answer and keeps the
  results that may be offered, with their licence class set. The contract of the interface
  \<^verbatim>\<open>SearchProvider\<close> is the locale \<open>search_provider\<close>.
\<close>

section \<open>SearXNG\<close>

definition searxngBodyLimit :: int where
  "searxngBodyLimit = 1 * 1024 * 1024"

record SearXNGProvider =
  sx_URL :: string
  sx_HTTPClient :: "client option"
  sx_UserAgent :: string

record searxngResult =
  sx_ImgSrc :: string
  sx_Thumbnail :: string
  sx_PageURL :: string
  sx_Title :: string

definition read_searxngResult :: "json \<Rightarrow> searxngResult option" where
  "read_searxngResult =
     into_struct
       [str_field ''img_src'' sx_ImgSrc sx_ImgSrc_update,
        str_field ''thumbnail_src'' sx_Thumbnail sx_Thumbnail_update,
        str_field ''url'' sx_PageURL sx_PageURL_update,
        str_field ''title'' sx_Title sx_Title_update]
       \<lparr>sx_ImgSrc = '''', sx_Thumbnail = '''', sx_PageURL = '''', sx_Title = ''''\<rparr>"

definition searxng_buildURL :: "SearXNGProvider \<Rightarrow> string \<Rightarrow> SearchOpts \<Rightarrow> string" where
  "searxng_buildURL p query opts =
     TrimRightByte (sx_URL p) (CHR ''/'') @ ''/search?q='' @ QueryEscape query @ ''&format=json&categories=images''
     @ (if PageNumber opts > 1 then ''&pageno='' @ show_int (PageNumber opts) else '''')
     @ (if Engines opts \<noteq> [] then ''&engines='' @ QueryEscape (Join (Engines opts) '','') else '''')"

definition searxng_fetch ::
  "runtime \<Rightarrow> SearXNGProvider \<Rightarrow> string \<Rightarrow> SearchOpts \<Rightarrow> searxngResult list result" where
  "searxng_fetch rt p query opts =
     (case NewRequest ''GET'' (searxng_buildURL p query opts) [] 0 of
        Inl e \<Rightarrow> Inl e
      | Inr req \<Rightarrow>
         (case Do (client_or_default rt (sx_HTTPClient p)) (SetHeader ''Accept'' ''application/json'' req) of
            Inl e \<Rightarrow> Inl e
          | Inr resp \<Rightarrow>
             (case ReadAllLimit resp searxngBodyLimit of
                Inl e \<Rightarrow> Inl e
              | Inr body \<Rightarrow>
                 (case response_list ''results'' read_searxngResult body of
                    None \<Rightarrow> Inl json_error
                  | Some rs \<Rightarrow> Inr rs))))"

definition searxng_filter :: "unicode \<Rightarrow> searxngResult list \<Rightarrow> ImageCandidate list" where
  "searxng_filter u results =
     filter_map (\<lambda>r.
       if sx_ImgSrc r = '''' then None
       else if IsLogoOrBanner (ToLower u (sx_ImgSrc r)) then None
       else let license = CheckLicense u (sx_ImgSrc r) (sx_PageURL r) in
         if license = LicenseBlocked then None
         else Some \<lparr>ImgURL = sx_ImgSrc r, Thumbnail = sx_Thumbnail r, Source = sx_PageURL r,
                    Title = sx_Title r, License = license, Width = 0, Height = 0, Engine = ''''\<rparr>)
       results"

definition searxng_Search ::
  "runtime \<Rightarrow> SearXNGProvider \<Rightarrow> string \<Rightarrow> SearchOpts \<Rightarrow> ImageCandidate list result" where
  "searxng_Search rt p query opts =
     (case searxng_fetch rt p query opts of
        Inl e \<Rightarrow> Inl e | Inr results \<Rightarrow> Inr (searxng_filter (rt_unicode rt) results))"

section \<open>Openverse\<close>

definition openverseDefaultURL :: string where
  "openverseDefaultURL = ''https://api.openverse.org/v1''"

definition openverseBodyLimit :: int where
  "openverseBodyLimit = 1 * 1024 * 1024"

definition openverseDefaultLimit :: int where
  "openverseDefaultLimit = 20"

record openverseResult =
  ov_ID :: string
  ov_Title :: string
  ov_URL :: string
  ov_Thumbnail :: string
  ov_ForeignLandingURL :: string
  ov_Source :: string
  ov_License :: string

definition read_openverseResult :: "json \<Rightarrow> openverseResult option" where
  "read_openverseResult =
     into_struct
       [str_field ''id'' ov_ID ov_ID_update,
        str_field ''title'' ov_Title ov_Title_update,
        str_field ''url'' ov_URL ov_URL_update,
        str_field ''thumbnail'' ov_Thumbnail ov_Thumbnail_update,
        str_field ''foreign_landing_url'' ov_ForeignLandingURL ov_ForeignLandingURL_update,
        str_field ''source'' ov_Source ov_Source_update,
        str_field ''license'' ov_License ov_License_update]
       \<lparr>ov_ID = '''', ov_Title = '''', ov_URL = '''', ov_Thumbnail = '''', ov_ForeignLandingURL = '''',
        ov_Source = '''', ov_License = ''''\<rparr>"

record OpenverseProvider =
  ov_BaseURL :: string
  ov_HTTPClient :: "client option"
  ov_UserAgent :: string

definition openverse_buildURL :: "OpenverseProvider \<Rightarrow> string \<Rightarrow> SearchOpts \<Rightarrow> string" where
  "openverse_buildURL p query opts =
     (let base = TrimRightByte (or_default (ov_BaseURL p) openverseDefaultURL) (CHR ''/'');
          page = (if PageNumber opts < 1 then 1 else PageNumber opts)
      in base @ ''/images/?q='' @ QueryEscape query @ ''&page='' @ show_int page
           @ ''&page_size='' @ show_int openverseDefaultLimit)"

definition optional_UA :: "string \<Rightarrow> request \<Rightarrow> request" where
  "optional_UA ua req = (if ua \<noteq> '''' then SetHeader ''User-Agent'' ua req else req)"

definition openverse_fetch ::
  "runtime \<Rightarrow> OpenverseProvider \<Rightarrow> string \<Rightarrow> SearchOpts \<Rightarrow> openverseResult list result" where
  "openverse_fetch rt p query opts =
     (case NewRequest ''GET'' (openverse_buildURL p query opts) [] 0 of
        Inl e \<Rightarrow> Inl e
      | Inr req \<Rightarrow>
         (case Do (client_or_default rt (ov_HTTPClient p))
                 (optional_UA (ov_UserAgent p) (SetHeader ''Accept'' ''application/json'' req)) of
            Inl e \<Rightarrow> Inl e
          | Inr resp \<Rightarrow>
             if StatusCode resp \<noteq> 200 then Inl (''openverse: unexpected status '' @ show_int (StatusCode resp))
             else (case ReadAllLimit resp openverseBodyLimit of
                Inl e \<Rightarrow> Inl e
              | Inr body \<Rightarrow>
                 (case response_list ''results'' read_openverseResult body of
                    None \<Rightarrow> Inl json_error
                  | Some rs \<Rightarrow> Inr rs))))"

definition openverse_filter :: "unicode \<Rightarrow> openverseResult list \<Rightarrow> ImageCandidate list" where
  "openverse_filter u results =
     filter_map (\<lambda>r.
       if ov_URL r = '''' then None
       else if IsLogoOrBanner (ToLower u (ov_URL r)) then None
       else Some \<lparr>ImgURL = ov_URL r, Thumbnail = ov_Thumbnail r, Source = ov_ForeignLandingURL r,
                  Title = ov_Title r, License = LicenseSafe, Width = 0, Height = 0, Engine = ''''\<rparr>)
       results"

definition openverse_Search ::
  "runtime \<Rightarrow> OpenverseProvider \<Rightarrow> string \<Rightarrow> SearchOpts \<Rightarrow> ImageCandidate list result" where
  "openverse_Search rt p query opts =
     (case openverse_fetch rt p query opts of
        Inl e \<Rightarrow> Inl e | Inr results \<Rightarrow> Inr (openverse_filter (rt_unicode rt) results))"

section \<open>Pexels\<close>

definition pexelsOfficialURL :: string where
  "pexelsOfficialURL = ''https://api.pexels.com/v1''"

definition pexelsInternalURL :: string where
  "pexelsInternalURL = ''https://www.pexels.com/en-us/api/v3/search/photos''"

definition pexelsBodyLimit :: int where
  "pexelsBodyLimit = 2 * 1024 * 1024"

definition pexelsPerPage :: int where
  "pexelsPerPage = 40"

record PexelsProvider =
  px_APIKey :: string
  px_SecretKey :: string
  px_HTTPClient :: "client option"
  px_UserAgent :: string
  px_officialBase :: string
  px_internalBase :: string

definition pexels_officialURL :: "PexelsProvider \<Rightarrow> string" where
  "pexels_officialURL p = or_default (px_officialBase p) pexelsOfficialURL"

definition pexels_internalURL :: "PexelsProvider \<Rightarrow> string" where
  "pexels_internalURL p = or_default (px_internalBase p) pexelsInternalURL"

record pexelsSrc =
  px_Large :: string
  px_Small :: string

record pexelsOfficialPhoto =
  px_ID :: int
  px_Alt :: string
  px_URL :: string
  px_Src :: pexelsSrc

definition read_pexelsOfficialPhoto :: "json \<Rightarrow> pexelsOfficialPhoto option" where
  "read_pexelsOfficialPhoto =
     into_struct
       [int_field ''id'' px_ID px_ID_update,
        str_field ''alt'' px_Alt px_Alt_update,
        str_field ''url'' px_URL px_URL_update,
        struct_field ''src''
          [str_field ''large'' px_Large px_Large_update, str_field ''small'' px_Small px_Small_update]
          px_Src px_Src_update]
       \<lparr>px_ID = 0, px_Alt = '''', px_URL = '''', px_Src = \<lparr>px_Large = '''', px_Small = ''''\<rparr>\<rparr>"

record pexelsInternalImage =
  pi_Small :: string
  pi_DownloadLink :: string

record pexelsInternalUser =
  pi_Username :: string

record pexelsInternalAttrs =
  pi_ID :: int
  pi_Slug :: string
  pi_Title :: string
  pi_Image :: pexelsInternalImage
  pi_User :: pexelsInternalUser

record pexelsInternalItem =
  pi_Attributes :: pexelsInternalAttrs

definition read_pexelsInternalItem :: "json \<Rightarrow> pexelsInternalItem option" where
  "read_pexelsInternalItem =
     into_struct
       [struct_field ''attributes''
          [int_field ''id'' pi_ID pi_ID_update,
           str_field ''slug'' pi_Slug pi_Slug_update,
           str_field ''title'' pi_Title pi_Title_update,
           struct_field ''image''
             [str_field ''small'' pi_Small pi_Small_update,
              str_field ''download_link'' pi_DownloadLink pi_DownloadLink_update]
             pi_Image pi_Image_update,
           struct_field ''user'' [str_field ''username'' pi_Username pi_Username_update] pi_User pi_User_update]
          pi_Attributes pi_Attributes_update]
       \<lparr>pi_Attributes = \<lparr>pi_ID = 0, pi_Slug = '''', pi_Title = '''',
          pi_Image = \<lparr>pi_Small = '''', pi_DownloadLink = ''''\<rparr>, pi_User = \<lparr>pi_Username = ''''\<rparr>\<rparr>\<rparr>"

definition pexels_doGet :: "runtime \<Rightarrow> PexelsProvider \<Rightarrow> string \<Rightarrow> string \<Rightarrow> string \<Rightarrow> bytes result" where
  "pexels_doGet rt p rawURL hdrKey hdrVal =
     (case NewRequest ''GET'' rawURL [] 0 of
        Inl e \<Rightarrow> Inl e
      | Inr req \<Rightarrow>
         (case Do (client_or_default rt (px_HTTPClient p))
                 (optional_UA (px_UserAgent p) (SetHeader hdrKey hdrVal req)) of
            Inl e \<Rightarrow> Inl e
          | Inr resp \<Rightarrow>
              if StatusCode resp \<noteq> 200 then Inl (''pexels: unexpected status '' @ show_int (StatusCode resp))
              else ReadAllLimit resp pexelsBodyLimit))"

definition pexelsPage :: "SearchOpts \<Rightarrow> int" where
  "pexelsPage opts = (if PageNumber opts < 1 then 1 else PageNumber opts)"

definition filterOfficialResults :: "unicode \<Rightarrow> pexelsOfficialPhoto list \<Rightarrow> ImageCandidate list" where
  "filterOfficialResults u photos =
     filter_map (\<lambda>p.
       if px_Large (px_Src p) = '''' \<or> IsLogoOrBanner (ToLower u (px_Large (px_Src p))) then None
       else Some \<lparr>ImgURL = px_Large (px_Src p), Thumbnail = px_Small (px_Src p), Source = px_URL p,
                  Title = px_Alt p, License = LicenseSafe, Width = 0, Height = 0, Engine = ''''\<rparr>)
       photos"

definition filterInternalResults :: "unicode \<Rightarrow> pexelsInternalItem list \<Rightarrow> ImageCandidate list" where
  "filterInternalResults u items =
     filter_map (\<lambda>item.
       let a = pi_Attributes item in
       if pi_DownloadLink (pi_Image a) = '''' \<or> IsLogoOrBanner (ToLower u (pi_DownloadLink (pi_Image a))) then None
       else Some \<lparr>ImgURL = pi_DownloadLink (pi_Image a), Thumbnail = pi_Small (pi_Image a),
                  Source = ''https://www.pexels.com/photo/'' @ pi_Slug a @ ''-'' @ show_int (pi_ID a) @ ''/'',
                  Title = pi_Title a, License = LicenseSafe, Width = 0, Height = 0, Engine = ''''\<rparr>)
       items"

definition searchOfficial ::
  "runtime \<Rightarrow> PexelsProvider \<Rightarrow> string \<Rightarrow> string \<Rightarrow> SearchOpts \<Rightarrow> ImageCandidate list result" where
  "searchOfficial rt p base query opts =
     (let u = TrimRightByte base (CHR ''/'') @ ''/search?query='' @ QueryEscape query
                @ ''&per_page='' @ show_int pexelsPerPage @ ''&page='' @ show_int (pexelsPage opts)
      in case pexels_doGet rt p u ''Authorization'' (px_APIKey p) of
           Inl e \<Rightarrow> Inl e
         | Inr body \<Rightarrow>
            (case response_list ''photos'' read_pexelsOfficialPhoto body of
               None \<Rightarrow> Inl json_error
             | Some photos \<Rightarrow> Inr (filterOfficialResults (rt_unicode rt) photos)))"

definition searchInternal ::
  "runtime \<Rightarrow> PexelsProvider \<Rightarrow> string \<Rightarrow> string \<Rightarrow> SearchOpts \<Rightarrow> ImageCandidate list result" where
  "searchInternal rt p base query opts =
     (let u = TrimRightByte base (CHR ''/'') @ ''?query='' @ QueryEscape query
                @ ''&per_page='' @ show_int pexelsPerPage @ ''&page='' @ show_int (pexelsPage opts)
      in case pexels_doGet rt p u ''Secret-Key'' (px_SecretKey p) of
           Inl e \<Rightarrow> Inl e
         | Inr body \<Rightarrow>
            (case response_list ''data'' read_pexelsInternalItem body of
               None \<Rightarrow> Inl json_error
             | Some items \<Rightarrow> Inr (filterInternalResults (rt_unicode rt) items)))"

definition pexels_Search ::
  "runtime \<Rightarrow> PexelsProvider \<Rightarrow> string \<Rightarrow> SearchOpts \<Rightarrow> ImageCandidate list result" where
  "pexels_Search rt p query opts =
     (let rest = (if px_SecretKey p \<noteq> '''' then searchInternal rt p (pexels_internalURL p) query opts
                  else if px_APIKey p \<noteq> '''' then searchOfficial rt p (pexels_officialURL p) query opts
                  else Inl ''pexels: no API key or secret key configured'')
      in if px_APIKey p \<noteq> '''' then
           (case searchOfficial rt p (pexels_officialURL p) query opts of
              Inr c \<Rightarrow> Inr c | Inl _ \<Rightarrow> rest)
         else rest)"

section \<open>DuckDuckGo\<close>

definition ddgBodyLimit :: int where
  "ddgBodyLimit = 2 * 1024 * 1024"

definition ddgBaseURL :: string where
  "ddgBaseURL = ''https://duckduckgo.com''"

record DDGImageProvider =
  ddg_HTTPClient :: "client option"
  ddg_UserAgent :: string

record ddgImageResult =
  ddg_Image :: string
  ddg_Thumbnail :: string
  ddg_URL :: string
  ddg_Title :: string
  ddg_Width :: int
  ddg_Height :: int

definition read_ddgImageResult :: "json \<Rightarrow> ddgImageResult option" where
  "read_ddgImageResult =
     into_struct
       [str_field ''image'' ddg_Image ddg_Image_update,
        str_field ''thumbnail'' ddg_Thumbnail ddg_Thumbnail_update,
        str_field ''url'' ddg_URL ddg_URL_update,
        str_field ''title'' ddg_Title ddg_Title_update,
        int_field ''width'' ddg_Width ddg_Width_update,
        int_field ''height'' ddg_Height ddg_Height_update]
       \<lparr>ddg_Image = '''', ddg_Thumbnail = '''', ddg_URL = '''', ddg_Title = '''', ddg_Width = 0, ddg_Height = 0\<rparr>"

definition token_byte :: "char \<Rightarrow> bool" where
  "token_byte c \<longleftrightarrow> byte_in 48 57 c \<or> byte_in 97 102 c \<or> c = CHR ''-''"

definition vqdRe :: rx where
  "vqdRe = RSeqs ([RLit ''vqd=''] @ RCap 1 (RPlus (RSet token_byte)) # [])"

definition ddg_default_UA :: string where
  "ddg_default_UA =
     ''Mozilla/5.0 (X11; Linux x86_64) AppleWebKit/537.36 (KHTML, like Gecko) Chrome/131.0.0.0 Safari/537.36''"

definition ddg_get :: "runtime \<Rightarrow> DDGImageProvider \<Rightarrow> string \<Rightarrow> bytes result" where
  "ddg_get rt p rawURL =
     (case NewRequest ''GET'' rawURL [] 0 of
        Inl e \<Rightarrow> Inl e
      | Inr req0 \<Rightarrow>
          let req = SetHeader ''Referer'' (ddgBaseURL @ ''/'')
                (SetHeader ''Accept-Language'' ''ru-RU,ru;q=0.9,en-US;q=0.8,en;q=0.7''
                (SetHeader ''Accept'' ''text/html,application/xhtml+xml,application/json,*/*''
                (SetHeader ''User-Agent'' (or_default (ddg_UserAgent p) ddg_default_UA) req0)))
          in (case Do (client_or_default rt (ddg_HTTPClient p)) req of
               Inl e \<Rightarrow> Inl e
             | Inr resp \<Rightarrow>
                 if StatusCode resp \<ge> 400 then Inl (''HTTP '' @ show_int (StatusCode resp) @ '' from '' @ rawURL)
                 else ReadAllLimit resp ddgBodyLimit))"

definition fetchToken :: "runtime \<Rightarrow> DDGImageProvider \<Rightarrow> string \<Rightarrow> string result" where
  "fetchToken rt p query =
     (case ddg_get rt p (ddgBaseURL @ ''/?q='' @ QueryEscape query @ ''&iax=images&ia=images'') of
        Inl e \<Rightarrow> Inl e
      | Inr body \<Rightarrow>
         (case FindStringSubmatch vqdRe body of
            None \<Rightarrow> Inl (''vqd token not found in DDG response ('' @ digits_of (length body) @ '' bytes)'')
          | Some m \<Rightarrow> Inr (rx_group m 1)))"

definition ddg_images_URL :: "string \<Rightarrow> string \<Rightarrow> string" where
  "ddg_images_URL query token =
     ddgBaseURL @ ''/i.js?l=ru-ru&o=json&q='' @ QueryEscape query @ ''&vqd='' @ QueryEscape token @ ''&f=,,,,,&p=1''"

definition fetchImages ::
  "runtime \<Rightarrow> DDGImageProvider \<Rightarrow> string \<Rightarrow> string \<Rightarrow> ddgImageResult list result" where
  "fetchImages rt p query token =
     (case ddg_get rt p (ddg_images_URL query token) of
        Inl e \<Rightarrow> Inl e
      | Inr body \<Rightarrow>
         (case response_list ''results'' read_ddgImageResult body of
            None \<Rightarrow> Inl (''ddg json: '' @ json_error @ '' (body: '' @ concat (map snd (take 200 (chunks body))) @ '')'')
          | Some rs \<Rightarrow> Inr rs))"

definition ddg_filter :: "unicode \<Rightarrow> ddgImageResult list \<Rightarrow> ImageCandidate list" where
  "ddg_filter u results =
     filter_map (\<lambda>r.
       if ddg_Image r = '''' then None
       else if IsLogoOrBanner (ToLower u (ddg_Image r)) then None
       else let license = CheckLicense u (ddg_Image r) (ddg_URL r) in
         if license = LicenseBlocked then None
         else Some \<lparr>ImgURL = ddg_Image r, Thumbnail = ddg_Thumbnail r, Source = ddg_URL r,
                    Title = ddg_Title r, License = license, Width = 0, Height = 0, Engine = ''''\<rparr>)
       results"

definition ddg_Search ::
  "runtime \<Rightarrow> DDGImageProvider \<Rightarrow> string \<Rightarrow> SearchOpts \<Rightarrow> ImageCandidate list result" where
  "ddg_Search rt p query opts =
     (case fetchToken rt p query of
        Inl e \<Rightarrow> Inl (''ddg token: '' @ e)
      | Inr token \<Rightarrow>
         (case fetchImages rt p query token of
            Inl e \<Rightarrow> Inl (''ddg images: '' @ e)
          | Inr results \<Rightarrow> Inr (ddg_filter (rt_unicode rt) results)))"

section \<open>The og:image of a page\<close>

definition ogFetchTimeout :: int where
  "ogFetchTimeout = 10 * second"

definition ogBodyLimit :: int where
  "ogBodyLimit = 2 * 1024 * 1024"

record OGImageProvider =
  og_HTTPClient :: "client option"

definition fetchOG :: "runtime \<Rightarrow> OGImageProvider \<Rightarrow> string \<Rightarrow> string" where
  "fetchOG rt p pageURL =
     (case NewRequest ''GET'' pageURL [] ogFetchTimeout of
        Inl _ \<Rightarrow> ''''
      | Inr req \<Rightarrow>
         (case Do (client_or_default rt (og_HTTPClient p))
                 (SetHeader ''User-Agent'' ''Mozilla/5.0 (compatible; go-imagefy/1.0)'' req) of
            Inl _ \<Rightarrow> ''''
          | Inr resp \<Rightarrow>
              if StatusCode resp \<ge> 400 then ''''
              else (case ReadAllLimit resp ogBodyLimit of
                 Inl _ \<Rightarrow> ''''
               | Inr body \<Rightarrow> ExtractOGImageURL (rt_entities rt) body)))"

definition og_Search ::
  "runtime \<Rightarrow> OGImageProvider \<Rightarrow> string \<Rightarrow> SearchOpts \<Rightarrow> ImageCandidate list result" where
  "og_Search rt p query opts =
     (if PageURL opts = '''' then Inr []
      else let imgURL = fetchOG rt p (PageURL opts) in
        if imgURL = '''' then Inr []
        else if IsLogoOrBanner (ToLower (rt_unicode rt) imgURL) then Inr []
        else let license = CheckLicense (rt_unicode rt) imgURL (PageURL opts) in
          if license = LicenseBlocked then Inr []
          else Inr [\<lparr>ImgURL = imgURL, Thumbnail = '''', Source = PageURL opts, Title = ''og:image'',
                     License = license, Width = 0, Height = 0, Engine = ''''\<rparr>])"

section \<open>The contract of a provider\<close>

text \<open>
  What the interface documents and the pipeline relies on: a candidate has an image URL, its
  licence is set and not Blocked, and no provider offers a logo or banner.
\<close>

definition offerable :: "unicode \<Rightarrow> ImageCandidate \<Rightarrow> bool" where
  "offerable u cand \<longleftrightarrow>
     ImgURL cand \<noteq> '''' \<and> License cand \<noteq> LicenseBlocked \<and> \<not> IsLogoOrBanner (ToLower u (ImgURL cand))"

locale search_provider =
  fixes u :: unicode and Search :: "string \<Rightarrow> SearchOpts \<Rightarrow> ImageCandidate list result"
  assumes offers: "Search query opts = Inr cands \<Longrightarrow> list_all (offerable u) cands"
begin

lemma candidate_offerable: "Search query opts = Inr cands \<Longrightarrow> cand \<in> set cands \<Longrightarrow> offerable u cand"
  using offers by (auto simp: list_all_iff)

lemma no_blocked: "Search query opts = Inr cands \<Longrightarrow> LicenseBlocked \<notin> License ` set cands"
  by (auto simp: offerable_def dest: candidate_offerable)

lemma filtered: "Search query opts = Inr cands \<Longrightarrow> list_all (offerable u) (filter P cands)"
  by (auto simp: list_all_iff dest: candidate_offerable)

end

text \<open>
  Providers that classify by domain promise more: the licence of a candidate is the class of
  its two URLs, so none of them lies on a blocked site.
\<close>

locale domain_provider = search_provider +
  assumes classified: "Search query opts = Inr cands \<Longrightarrow>
      list_all (\<lambda>cand. License cand = CheckLicense u (ImgURL cand) (Source cand)) cands"
begin

lemma not_on_blocked_site:
  assumes "Search query opts = Inr cands" and "cand \<in> set cands"
  shows "\<not> isBlockedWith u (ImgURL cand) [] \<and> \<not> isBlockedWith u (Source cand) []"
  using classified [OF assms(1)] candidate_offerable [OF assms] assms(2)
    CheckLicenseWith_Blocked_iff [of u "ImgURL cand" "Source cand" "[]" "[]"]
  by (auto simp: list_all_iff offerable_def CheckLicense_def)

end

text \<open>The loop every provider filters with.\<close>

lemma filter_map_all: "(\<And>x y. x \<in> set xs \<Longrightarrow> f x = Some y \<Longrightarrow> P y) \<Longrightarrow> list_all P (filter_map f xs)"
  by (auto simp: list_all_iff)

named_theorems filter_defs \<open>the filters of the providers\<close>

lemmas provider_filters [filter_defs] = searxng_filter_def openverse_filter_def filterOfficialResults_def
  filterInternalResults_def ddg_filter_def

lemma filters_offerable:
  "list_all (offerable u) (searxng_filter u xs)"
  "list_all (offerable u) (openverse_filter u ys)"
  "list_all (offerable u) (filterOfficialResults u ps)"
  "list_all (offerable u) (filterInternalResults u qs)"
  "list_all (offerable u) (ddg_filter u ds)"
  unfolding filter_defs
  by (rule filter_map_all; auto simp: offerable_def Let_def CheckLicense_def split: if_splits)+

lemma filters_classified:
  "list_all (\<lambda>c. License c = CheckLicense u (ImgURL c) (Source c)) (searxng_filter u xs)"
  "list_all (\<lambda>c. License c = CheckLicense u (ImgURL c) (Source c)) (ddg_filter u ds)"
  unfolding filter_defs
  by (rule filter_map_all; auto simp: Let_def split: if_splits)+

interpretation searxng: domain_provider "rt_unicode rt" "searxng_Search rt p" for rt p
  by unfold_locales
     (auto simp: searxng_Search_def filters_offerable filters_classified split: sum.splits)

interpretation openverse: search_provider "rt_unicode rt" "openverse_Search rt p" for rt p
  by unfold_locales (auto simp: openverse_Search_def filters_offerable split: sum.splits)

lemma pexels_apis:
  "searchOfficial rt p base q opts = Inr cs \<Longrightarrow> list_all (offerable (rt_unicode rt)) cs"
  "searchInternal rt p base q opts = Inr cs \<Longrightarrow> list_all (offerable (rt_unicode rt)) cs"
  by (auto simp: searchOfficial_def searchInternal_def Let_def filters_offerable
      split: sum.splits option.splits)

interpretation pexels: search_provider "rt_unicode rt" "pexels_Search rt p" for rt p
  by unfold_locales
     (auto simp: pexels_Search_def Let_def split: sum.splits if_splits dest: pexels_apis)

interpretation ddg: domain_provider "rt_unicode rt" "ddg_Search rt p" for rt p
  by unfold_locales
     (auto simp: ddg_Search_def filters_offerable filters_classified split: sum.splits)

interpretation og: domain_provider "rt_unicode rt" "og_Search rt p" for rt p
  by unfold_locales
     (auto simp: og_Search_def Let_def offerable_def CheckLicense_def split: if_splits)

section \<open>Request URLs\<close>

text \<open>
  A query is copied into a URL through \<^const>\<open>QueryEscape\<close> only: nothing it contains can end
  its parameter or start another one.
\<close>

lemma QueryEscape_no_delim: "c \<in> set ''&=?#/ '' \<Longrightarrow> c \<notin> set (QueryEscape s)"
  by (auto dest!: set_QueryEscape simp: is_alnum_def is_alpha_def is_digit_def byte_in_def)

lemma vqd_token:
  assumes "fetchToken rt p query = Inr token"
  shows "token \<noteq> '''' \<and> list_all token_byte token"
proof -
  from assms obtain body m where m: "FindStringSubmatch vqdRe body = Some m" "token = rx_group m 1"
    by (auto simp: fetchToken_def split: sum.splits option.splits)
  have "rx_rel (RPlus (RSet token_byte)) token []"
    using FindStringSubmatch_single_group [of "[RLit ''vqd='']" 1 "RPlus (RSet token_byte)" "[]" body m] m
    by (simp add: vqdRe_def)
  then show ?thesis using rx_rel_plus_set by blast
qed

end
