(* ===== verification/Orchestrator.thy ===== *)
theory Orchestrator
  imports Providers
begin

text \<open>
  orchestrator.go and provider_native.go, with the part of the vendored package imagesearch the
  latter calls: the provider that tries others in turn, and the provider that fuses the result
  lists of several engines by reciprocal rank.
\<close>

section \<open>Providers as values\<close>

definition searxng_provider :: "runtime \<Rightarrow> SearXNGProvider \<Rightarrow> SearchProvider" where
  "searxng_provider rt p = \<lparr>prov_Search = searxng_Search rt p, prov_Name = ''searxng''\<rparr>"

definition openverse_provider :: "runtime \<Rightarrow> OpenverseProvider \<Rightarrow> SearchProvider" where
  "openverse_provider rt p = \<lparr>prov_Search = openverse_Search rt p, prov_Name = ''openverse''\<rparr>"

definition pexels_provider :: "runtime \<Rightarrow> PexelsProvider \<Rightarrow> SearchProvider" where
  "pexels_provider rt p = \<lparr>prov_Search = pexels_Search rt p, prov_Name = ''pexels''\<rparr>"

definition ddg_provider :: "runtime \<Rightarrow> DDGImageProvider \<Rightarrow> SearchProvider" where
  "ddg_provider rt p = \<lparr>prov_Search = ddg_Search rt p, prov_Name = ''ddg''\<rparr>"

definition og_provider :: "runtime \<Rightarrow> OGImageProvider \<Rightarrow> SearchProvider" where
  "og_provider rt p = \<lparr>prov_Search = og_Search rt p, prov_Name = ''og''\<rparr>"

lemmas provider_values = searxng_provider_def openverse_provider_def pexels_provider_def
  ddg_provider_def og_provider_def

section \<open>Fallback\<close>

record FallbackProvider =
  fb_Providers :: "SearchProvider list"
  fb_FallbackName :: string

definition fallback_Name :: "FallbackProvider \<Rightarrow> string" where
  "fallback_Name f = or_default (fb_FallbackName f) ''fallback''"

text \<open>The loop; the accumulator is the variable \<^verbatim>\<open>lastErr\<close>.\<close>

fun fallback_loop ::
  "SearchProvider list \<Rightarrow> error option \<Rightarrow> string \<Rightarrow> SearchOpts \<Rightarrow> ImageCandidate list result" where
  "fallback_loop [] lastErr query opts =
     (case lastErr of Some e \<Rightarrow> Inl e | None \<Rightarrow> Inl ''all providers failed'')"
| "fallback_loop (p # ps) lastErr query opts =
     (case prov_Search p query opts of
        Inl err \<Rightarrow> fallback_loop ps (Some err) query opts
      | Inr results \<Rightarrow>
          if results = [] then fallback_loop ps lastErr query opts else Inr results)"

definition fallback_Search :: "FallbackProvider \<Rightarrow> string \<Rightarrow> SearchOpts \<Rightarrow> ImageCandidate list result" where
  "fallback_Search f query opts = fallback_loop (fb_Providers f) None query opts"

definition fallback_provider :: "FallbackProvider \<Rightarrow> SearchProvider" where
  "fallback_provider f = \<lparr>prov_Search = fallback_Search f, prov_Name = fallback_Name f\<rparr>"

text \<open>A provider that offers something: the one the loop stops at.\<close>

definition delivers :: "string \<Rightarrow> SearchOpts \<Rightarrow> SearchProvider \<Rightarrow> bool" where
  "delivers query opts p \<longleftrightarrow> (case prov_Search p query opts of Inl _ \<Rightarrow> False | Inr rs \<Rightarrow> rs \<noteq> [])"

definition errors_of :: "SearchProvider list \<Rightarrow> string \<Rightarrow> SearchOpts \<Rightarrow> error list" where
  "errors_of ps query opts =
     filter_map (\<lambda>p. case prov_Search p query opts of Inl e \<Rightarrow> Some e | Inr _ \<Rightarrow> None) ps"

lemma fallback_loop_spec:
  "fallback_loop ps lastErr query opts =
     (case List.find (delivers query opts) ps of
        Some p \<Rightarrow> prov_Search p query opts
      | None \<Rightarrow> Inl (last (''all providers failed'' # (case lastErr of None \<Rightarrow> [] | Some e \<Rightarrow> [e]) @ errors_of ps query opts)))"
  by (induction ps lastErr query opts rule: fallback_loop.induct)
     (auto simp: delivers_def errors_of_def split: sum.splits option.splits)

text \<open>A chain of providers that keep the contract is a provider that keeps it.\<close>

locale provider_chain =
  fixes u :: unicode and ps :: "SearchProvider list"
  assumes chain: "p \<in> set ps \<Longrightarrow> search_provider u (prov_Search p)"
begin

lemma loop_offers: "fallback_loop ps lastErr query opts = Inr cands \<Longrightarrow> list_all (offerable u) cands"
  using chain search_provider.offers
  by (fastforce simp: fallback_loop_spec split: option.splits dest: find_Some_set)

end

sublocale provider_chain \<subseteq> fallback: search_provider u "fallback_Search \<lparr>fb_Providers = ps, fb_FallbackName = n\<rparr>" for n
  by unfold_locales (auto simp: fallback_Search_def dest: loop_offers)

interpretation standard_chain: provider_chain "rt_unicode rt"
    "[searxng_provider rt a, openverse_provider rt b, pexels_provider rt c, ddg_provider rt d, og_provider rt e]"
  for rt a b c d e
  by (rule provider_chain.intro)
     (auto simp: provider_values intro: searxng.search_provider_axioms openverse.search_provider_axioms
       pexels.search_provider_axioms ddg.search_provider_axioms og.search_provider_axioms)

section \<open>Fused engines\<close>

record ImageResult =
  ir_URL :: string
  ir_Thumbnail :: string
  ir_Source :: string
  ir_Title :: string
  ir_Width :: int
  ir_Height :: int
  ir_Engine :: string

text \<open>An engine searches through a doer, the HTTP stack it is given.\<close>

record 'd ImageEngine =
  eng_Search :: "'d \<Rightarrow> string \<Rightarrow> int \<Rightarrow> ImageResult list result"
  eng_Name :: string

record 'd MultiSearch =
  ms_Engines :: "'d ImageEngine list"
  ms_Doer :: 'd
  ms_FallbackDoer :: "'d option"

text \<open>A float64 sum or quotient of the positive scores, none of which comes near overflow.\<close>

definition f64_of_rat :: "rat \<Rightarrow> rat" where
  "f64_of_rat x = (case quotient_of x of (p, q) \<Rightarrow> (case round_f64 p q of Some v \<Rightarrow> v | None \<Rightarrow> x))"

definition rrf_weight :: "nat \<Rightarrow> rat" where
  "rrf_weight rank = f64_of_rat (1 / (60 + of_nat rank))"

type_synonym scored = "(ImageResult \<times> rat) list"

text \<open>The body of the inner loop: the map \<^verbatim>\<open>byURL\<close> and the slice \<^verbatim>\<open>order\<close> as one list.\<close>

definition fuse_insert :: "nat \<times> ImageResult \<Rightarrow> scored \<Rightarrow> scored" where
  "fuse_insert p acc =
     (let (rank, r) = p; rrf = rrf_weight rank in
      if ir_URL r = '''' then acc
      else if list_ex (\<lambda>(r', s). ir_URL r' = ir_URL r) acc
        then map (\<lambda>(r', s). (r', if ir_URL r' = ir_URL r then f64_of_rat (s + rrf) else s)) acc
      else acc @ [(r, rrf)])"

definition fuse_set :: "ImageResult list \<Rightarrow> scored \<Rightarrow> scored" where
  "fuse_set rs acc = fold fuse_insert (enumerate 0 rs) acc"

definition fuseWRR :: "ImageResult list list \<Rightarrow> ImageResult list" where
  "fuseWRR resultSets = map fst (sort_key (\<lambda>(r, s). - s) (fold fuse_set resultSets []))"

text \<open>What the goroutine of one engine appends to \<^verbatim>\<open>allSets\<close>, if anything.\<close>

definition engine_results :: "'d MultiSearch \<Rightarrow> string \<Rightarrow> int \<Rightarrow> 'd ImageEngine \<Rightarrow> ImageResult list option" where
  "engine_results ms query maxn e =
     (let first = eng_Search e (ms_Doer ms) query maxn;
          second = (case (first, ms_FallbackDoer ms) of
                      (Inl _, Some d) \<Rightarrow> eng_Search e d query maxn | _ \<Rightarrow> first)
      in case second of
           Inl _ \<Rightarrow> None
         | Inr rs \<Rightarrow>
             let rs' = (case (rs, ms_FallbackDoer ms) of
                          ([], Some d) \<Rightarrow> (case eng_Search e d query maxn of Inl _ \<Rightarrow> [] | Inr x \<Rightarrow> x)
                        | _ \<Rightarrow> rs)
             in if rs' \<noteq> [] then Some rs' else None)"

text \<open>\<open>arrived\<close> lists the engines in the order their goroutines take the mutex.\<close>

definition MultiSearch_Search ::
  "'d MultiSearch \<Rightarrow> 'd ImageEngine list \<Rightarrow> string \<Rightarrow> int \<Rightarrow> ImageResult list" where
  "MultiSearch_Search ms arrived query maxn =
     (if ms_Engines ms = [] then []
      else let fused = fuseWRR (filter_map (engine_results ms query maxn) arrived)
           in if int (length fused) > maxn then take (nat maxn) fused else fused)"

definition nativeMaxResults :: int where
  "nativeMaxResults = 10"

definition native_filter :: "unicode \<Rightarrow> ImageResult list \<Rightarrow> ImageCandidate list" where
  "native_filter u results =
     filter_map (\<lambda>r.
       if IsLogoOrBanner (ToLower u (ir_URL r)) then None
       else let license = CheckLicense u (ir_URL r) (ir_Source r) in
         if license = LicenseBlocked then None
         else Some \<lparr>ImgURL = ir_URL r, Thumbnail = ir_Thumbnail r, Source = ir_Source r, Title = ir_Title r,
                    License = license, Width = ir_Width r, Height = ir_Height r, Engine = ir_Engine r\<rparr>)
       results"

definition native_Search ::
  "runtime \<Rightarrow> 'd MultiSearch \<Rightarrow> 'd ImageEngine list \<Rightarrow> string \<Rightarrow> SearchOpts \<Rightarrow> ImageCandidate list result" where
  "native_Search rt ms arrived query opts =
     Inr (native_filter (rt_unicode rt) (MultiSearch_Search ms arrived query nativeMaxResults))"

definition native_provider :: "runtime \<Rightarrow> 'd MultiSearch \<Rightarrow> 'd ImageEngine list \<Rightarrow> SearchProvider" where
  "native_provider rt ms arrived = \<lparr>prov_Search = native_Search rt ms arrived, prov_Name = ''native''\<rparr>"

section \<open>Facts about the fusion\<close>

definition fused_ok :: "scored \<Rightarrow> bool" where
  "fused_ok acc \<longleftrightarrow> distinct (map (ir_URL \<circ> fst) acc) \<and> '''' \<notin> set (map (ir_URL \<circ> fst) acc)"

lemma fuse_insert_urls:
  "map (ir_URL \<circ> fst) (fuse_insert (rank, r) acc) =
     (if ir_URL r = '''' \<or> ir_URL r \<in> set (map (ir_URL \<circ> fst) acc) then map (ir_URL \<circ> fst) acc
      else map (ir_URL \<circ> fst) acc @ [ir_URL r])"
proof -
  have "list_ex (\<lambda>(r', s). ir_URL r' = ir_URL r) acc \<longleftrightarrow> ir_URL r \<in> set (map (ir_URL \<circ> fst) acc)"
    by (induction acc) auto
  moreover have "map (ir_URL \<circ> fst) (map (\<lambda>(r', s). (r', g r' s)) acc) = map (ir_URL \<circ> fst) acc" for g :: "ImageResult \<Rightarrow> rat \<Rightarrow> rat"
    by (auto split: prod.splits)
  ultimately show ?thesis by (simp only: fuse_insert_def Let_def prod.case) simp
qed

lemma fuse_insert_ok: "fused_ok acc \<Longrightarrow> fused_ok (fuse_insert p acc)"
  by (cases p) (auto simp: fused_ok_def fuse_insert_urls simp del: map_map)

lemma fuse_fold_ok: "fused_ok acc \<Longrightarrow> fused_ok (fold fuse_insert ps acc)"
  by (induction ps arbitrary: acc) (auto simp: fuse_insert_ok)

lemma fuse_sets_ok: "fused_ok acc \<Longrightarrow> fused_ok (fold fuse_set sets acc)"
  by (induction sets arbitrary: acc) (auto simp: fuse_set_def fuse_fold_ok)

lemma fuse_insert_url_set:
  "set (map (ir_URL \<circ> fst) (fuse_insert (rank, r) acc)) = set (map (ir_URL \<circ> fst) acc) \<union> ({ir_URL r} - {''''})"
  unfolding fuse_insert_urls by auto

lemma fuse_set_url_set:
  "set (map (ir_URL \<circ> fst) (fuse_set rs acc)) = set (map (ir_URL \<circ> fst) acc) \<union> (ir_URL ` set rs - {''''})"
proof -
  have "set (map (ir_URL \<circ> fst) (fold fuse_insert (enumerate n rs) acc)) =
      set (map (ir_URL \<circ> fst) acc) \<union> (ir_URL ` set rs - {''''})" for n
  proof (induction rs arbitrary: n acc)
    case (Cons r rs)
    show ?case
      unfolding enumerate_simps fold_simps Cons.IH fuse_insert_url_set by auto
  qed simp
  then show ?thesis by (simp add: fuse_set_def)
qed

lemma fuse_sets_url_set:
  "set (map (ir_URL \<circ> fst) (fold fuse_set sets acc)) =
     set (map (ir_URL \<circ> fst) acc) \<union> ((\<Union>rs \<in> set sets. ir_URL ` set rs) - {''''})"
proof (induction sets arbitrary: acc)
  case (Cons rs sets)
  show ?case unfolding fold_simps Cons.IH fuse_set_url_set by auto
qed simp

lemma fuseWRR_urls:
  "distinct (map ir_URL (fuseWRR sets))"
  "set (map ir_URL (fuseWRR sets)) = (\<Union>rs \<in> set sets. ir_URL ` set rs) - {''''}"
proof -
  let ?acc = "fold fuse_set sets []"
  have "mset (map ir_URL (fuseWRR sets)) = mset (map (ir_URL \<circ> fst) ?acc)"
    by (simp only: fuseWRR_def map_map mset_map mset_sort)
  moreover have "fused_ok ?acc" by (rule fuse_sets_ok) (simp add: fused_ok_def)
  ultimately show "distinct (map ir_URL (fuseWRR sets))"
    by (metis fused_ok_def mset_eq_imp_distinct_iff)
  from \<open>mset _ = _\<close> show "set (map ir_URL (fuseWRR sets)) = (\<Union>rs \<in> set sets. ir_URL ` set rs) - {''''}"
    using fuse_sets_url_set [of sets "[]"] by (metis mset_eq_setD Un_empty_left list.set(1) list.simps(8))
qed

lemma MultiSearch_subset: "set (MultiSearch_Search ms arrived query maxn) \<subseteq> set (fuseWRR (filter_map (engine_results ms query maxn) arrived))"
  by (auto simp: MultiSearch_Search_def Let_def split: if_splits dest: in_set_takeD)

lemma MultiSearch_nonempty_URL: "r \<in> set (MultiSearch_Search ms arrived query maxn) \<Longrightarrow> ir_URL r \<noteq> ''''"
proof -
  assume "r \<in> set (MultiSearch_Search ms arrived query maxn)"
  then have "ir_URL r \<in> set (map ir_URL (fuseWRR (filter_map (engine_results ms query maxn) arrived)))"
    using MultiSearch_subset by fastforce
  then show ?thesis unfolding fuseWRR_urls(2) by blast
qed

interpretation native: domain_provider "rt_unicode rt" "native_Search rt ms arrived" for rt ms arrived
  by unfold_locales
     (auto simp: native_Search_def native_filter_def offerable_def list_all_iff Let_def CheckLicense_def
       dest: MultiSearch_nonempty_URL split: if_splits)

end
