(* ===== verification/Content.thy ===== *)
theory Content
  imports Orchestrator "HOL-Library.Word"
begin

text \<open>
  provider_content.go: the images of an article page (img tags on the page's own domain, JSON-LD,
  og:image, twitter:image), deduplicated by their URL without a size suffix and ordered by how
  likely they show the article's subject.
\<close>

section \<open>Expressions\<close>

definition contentFetchTimeout :: int where
  "contentFetchTimeout = 10 * second"

definition contentBodyLimit :: int where
  "contentBodyLimit = 2 * 1024 * 1024"

definition contentMaxResults :: nat where
  "contentMaxResults = 8"

definition contentSkipPatterns :: "string list" where
  "contentSkipPatterns = [''logo'', ''icon'', ''avatar'', ''sprite'', ''favicon'', ''placeholder'', ''stub'', ''banner'']"

definition contentSizeRe :: rx where
  "contentSizeRe = RSeqs [RLit ''-'', RCap 1 (RPlus R_digit), RLit ''x'', RCap 2 (RPlus R_digit), REnd]"

definition contentSrcRe :: rx where
  "contentSrcRe = RSeqs [RWordB, RLitI ''src='', R_quote, RCap 1 (RPlus R_unquoted), R_quote]"

definition contentWidthRe :: rx where
  "contentWidthRe = RSeqs [RWordB, RLitI ''width='', ROpt R_quote, RCap 1 (RPlus R_digit), ROpt R_quote]"

definition contentHeightRe :: rx where
  "contentHeightRe = RSeqs [RWordB, RLitI ''height='', ROpt R_quote, RCap 1 (RPlus R_digit), ROpt R_quote]"

definition contentImgTagRe :: rx where
  "contentImgTagRe = RSeqs [RLitI ''<img'', RWordB, RStar R_intag, RLit ''>'']"

definition name_or_property :: rx where
  "name_or_property = RAlt (RLitI ''name'') (RLitI ''property'')"

definition twitterImageRe :: rx where
  "twitterImageRe = RAlt
     (RSeqs [RLitI ''<meta'', RPlus R_space, RStar R_intag, name_or_property, RLitI ''='', R_quote,
        RLitI ''twitter:image'', R_quote, RStar R_intag, RLitI ''content='', R_quote,
        RCap 1 (RPlus R_unquoted), R_quote])
     (RSeqs [RLitI ''<meta'', RPlus R_space, RStar R_intag, RLitI ''content='', R_quote,
        RCap 2 (RPlus R_unquoted), R_quote, RStar R_intag, name_or_property, RLitI ''='', R_quote,
        RLitI ''twitter:image'', R_quote])"

definition jsonLDScriptRe :: rx where
  "jsonLDScriptRe = RSeqs [RLitI ''<script'', RWordB, RStar R_intag, RLitI ''type='', R_quote,
     RLitI ''application/ld+json'', R_quote, RStar R_intag, RLit ''>'', RCap 1 (RLazy (RSet (\<lambda>_. True))),
     RLitI ''</script>'']"

text \<open>\<^verbatim>\<open>ReplaceAllString(s, "")\<close> for an expression that never matches empty text.\<close>

function rx_delete :: "rx \<Rightarrow> char option \<Rightarrow> string \<Rightarrow> string" where
  "rx_delete r p s =
     (case rx_find_from r p s of
        None \<Rightarrow> s
      | Some (w, cs, (p', s')) \<Rightarrow>
          take (length s - length w - length s') s @ (if length s' < length s then rx_delete r p' s' else s'))"
  by pat_completeness auto
termination
  by (relation "measure (\<lambda>(r, p, s). length s)") auto

declare rx_delete.simps [simp del]

text \<open>\<^verbatim>\<open>Split\<close> at maximal runs of bytes with a property.\<close>

function split_runs :: "(char \<Rightarrow> bool) \<Rightarrow> string \<Rightarrow> string list" where
  "split_runs sep s =
     (let rest = dropWhile (\<lambda>c. \<not> sep c) s in
      takeWhile (\<lambda>c. \<not> sep c) s # (if rest = [] then [] else split_runs sep (dropWhile sep rest)))"
  by pat_completeness auto
termination
proof (relation "measure (\<lambda>(p, s). length s)", goal_cases)
  case (2 sep s rest)
  then have ne: "dropWhile (\<lambda>c. \<not> sep c) s \<noteq> []" by simp
  then obtain c t where r: "rest = c # t" "sep c"
    using hd_dropWhile [OF ne] 2 by (metis list.collapse)
  have "length (dropWhile sep rest) \<le> length t" using r by (simp add: length_dropWhile_le)
  also have "length t < length s" using r 2 length_dropWhile_le [of "\<lambda>c. \<not> sep c" s] by simp
  finally show ?case by simp
qed simp

declare split_runs.simps [simp del]

section \<open>Helpers\<close>

definition extractAttr :: "rx \<Rightarrow> string \<Rightarrow> string" where
  "extractAttr re s = (case FindStringSubmatch re s of None \<Rightarrow> '''' | Some m \<Rightarrow> rx_group m 1)"

text \<open>The accumulator is Go's 64-bit \<^verbatim>\<open>int\<close>: it wraps.\<close>

fun parse_digits :: "rune list \<Rightarrow> 64 word \<Rightarrow> 64 word" where
  "parse_digits [] n = n"
| "parse_digits (c # cs) n = (if c < 48 \<or> c > 57 then 0 else parse_digits cs (n * 10 + of_nat (c - 48)))"

definition parseIntFast :: "string \<Rightarrow> int" where
  "parseIntFast s = sint (parse_digits (runes s) 0)"

definition registrableDomain :: "string \<Rightarrow> string" where
  "registrableDomain rawURL =
     (case Parse rawURL of
        None \<Rightarrow> ''''
      | Some u \<Rightarrow>
          if url_Host u = '''' then ''''
          else let host = Hostname u; parts = SplitByte host (CHR ''.'') in
            if length parts < 2 then host
            else Join (drop (length parts - 2) parts) ''.'')"

definition slug_byte :: "char \<Rightarrow> bool" where
  "slug_byte c \<longleftrightarrow> byte_in 97 122 c \<or> byte_in 48 57 c"

definition add_token :: "unicode \<Rightarrow> string \<Rightarrow> string list \<Rightarrow> string list" where
  "add_token u s0 tokens =
     (let s = ToLower u s0 in if length s \<ge> 4 \<and> s \<notin> set tokens then tokens @ [s] else tokens)"

definition slugTokensFrom :: "unicode \<Rightarrow> string \<Rightarrow> string \<Rightarrow> string list" where
  "slugTokensFrom u pageURL query =
     (let from_page = (case Parse pageURL of
              None \<Rightarrow> []
            | Some p \<Rightarrow> fold (add_token u)
                (split_runs (\<lambda>c. \<not> slug_byte c) (ToLower u (path_Base (url_Path p)))) [])
      in fold (add_token u) (split_runs (\<lambda>c. \<not> slug_byte c) (ToLower u query)) from_page)"

definition isSlugMatch :: "unicode \<Rightarrow> string \<Rightarrow> string list \<Rightarrow> bool" where
  "isSlugMatch u imgURL tokens =
     (if tokens = [] then False
      else list_ex (\<lambda>t. Contains (ToLower u (path_Base imgURL)) t) tokens)"

definition isContentSkip :: "string \<Rightarrow> bool" where
  "isContentSkip lower = contains_any lower contentSkipPatterns"

definition minContentDimension :: int where
  "minContentDimension = 200"

definition tiny :: "string \<Rightarrow> string \<Rightarrow> bool" where
  "tiny wStr hStr \<longleftrightarrow>
     (let w = parseIntFast wStr; h = parseIntFast hStr in
      w > 0 \<and> h > 0 \<and> w < minContentDimension \<and> h < minContentDimension)"

definition isTinyThumbnail :: "string \<Rightarrow> string \<Rightarrow> bool" where
  "isTinyThumbnail imgTag src =
     (let base = TrimSuffix (path_Base src) (path_Ext src) in
      if (case FindStringSubmatch contentSizeRe base of
            None \<Rightarrow> False | Some m \<Rightarrow> tiny (rx_group m 1) (rx_group m 2)) then True
      else let wStr = extractAttr contentWidthRe imgTag; hStr = extractAttr contentHeightRe imgTag in
        wStr \<noteq> '''' \<and> hStr \<noteq> '''' \<and> tiny wStr hStr)"

definition normalizeImgURL :: "string \<Rightarrow> string" where
  "normalizeImgURL imgURL =
     (let ext = path_Ext imgURL; stem = TrimSuffix imgURL ext in
      if MatchString contentSizeRe (path_Base stem) then rx_delete contentSizeRe None stem @ ext
      else imgURL)"

text \<open>A struct with the one member \<^verbatim>\<open>url\<close>, from its zero value.\<close>

definition read_url_object :: "json \<Rightarrow> string option" where
  "read_url_object = into_struct [(''url'', \<lambda>old x. into_string old x)] ''''"

definition extractJSONLDImage :: "runtime \<Rightarrow> string \<Rightarrow> string" where
  "extractJSONLDImage rt raw0 =
     (let raw = TrimSpace (rt_unicode rt) raw0 in
      if raw = '''' then ''''
      else (case Option.bind (json_read raw) into_rawmap of
          None \<Rightarrow> ''''
        | Some doc \<Rightarrow>
           (case doc ''image'' of
              None \<Rightarrow> ''''
            | Some imageRaw \<Rightarrow>
               (case into_string '''' imageRaw of
                  Some (c # s) \<Rightarrow> c # s
                | _ \<Rightarrow>
                   (case read_url_object imageRaw of
                      Some (c # s) \<Rightarrow> c # s
                    | _ \<Rightarrow>
                       (case imageRaw of
                          JArr (first # _) \<Rightarrow>
                            (case into_string '''' first of
                               Some s \<Rightarrow> s
                             | None \<Rightarrow> (case read_url_object first of Some s \<Rightarrow> s | None \<Rightarrow> ''''))
                        | _ \<Rightarrow> ''''))))))"

section \<open>The search\<close>

record ContentImageProvider =
  ct_HTTPClient :: "client option"

definition fetchPage :: "runtime \<Rightarrow> ContentImageProvider \<Rightarrow> string \<Rightarrow> string result" where
  "fetchPage rt p pageURL =
     (case NewRequest ''GET'' pageURL [] contentFetchTimeout of
        Inl e \<Rightarrow> Inl e
      | Inr req \<Rightarrow>
         (case Do (client_or_default rt (ct_HTTPClient p))
                 (SetHeader ''User-Agent'' ''Mozilla/5.0 (compatible; go-imagefy/1.0)'' req) of
            Inl e \<Rightarrow> Inl e
          | Inr resp \<Rightarrow>
              if StatusCode resp \<ge> 400 then Inr ''''
              else ReadAllLimit resp contentBodyLimit))"

text \<open>The closure \<^verbatim>\<open>addIfNew\<close>: the set \<^verbatim>\<open>seen\<close> and the bucket it appends to.\<close>

definition addIfNew ::
  "runtime \<Rightarrow> string \<Rightarrow> string \<Rightarrow> string \<Rightarrow> string list \<times> ImageCandidate list \<Rightarrow> string list \<times> ImageCandidate list" where
  "addIfNew rt pageURL imgURL title st =
     (let (seen, bucket) = st;
          u = rt_unicode rt;
          clean = UnescapeString (rt_entities rt) (TrimSpace u imgURL)
      in if clean = '''' \<or> \<not> HasPrefix clean ''http'' then (seen, bucket)
         else let norm = normalizeImgURL clean in
           if norm \<in> set seen then (seen, bucket)
           else if IsLogoOrBanner (ToLower u clean) then (norm # seen, bucket)
           else let license = CheckLicense u clean pageURL in
             if license = LicenseBlocked then (norm # seen, bucket)
             else (norm # seen,
                   bucket @ [\<lparr>ImgURL = clean, Thumbnail = '''', Source = pageURL, Title = title,
                              License = license, Width = 0, Height = 0, Engine = ''''\<rparr>]))"

record buckets =
  bk_seen :: "string list"
  bk_priority :: "ImageCandidate list"
  bk_normal :: "ImageCandidate list"
  bk_jsonld :: "ImageCandidate list"
  bk_ogFallback :: "ImageCandidate list"

definition add_og :: "runtime \<Rightarrow> string \<Rightarrow> string \<Rightarrow> string \<Rightarrow> buckets \<Rightarrow> buckets" where
  "add_og rt pageURL imgURL title b =
     (let (s, c) = addIfNew rt pageURL imgURL title (bk_seen b, bk_ogFallback b)
      in b\<lparr>bk_seen := s, bk_ogFallback := c\<rparr>)"

definition add_jsonld :: "runtime \<Rightarrow> string \<Rightarrow> string \<Rightarrow> buckets \<Rightarrow> buckets" where
  "add_jsonld rt pageURL imgURL b =
     (let (s, c) = addIfNew rt pageURL imgURL ''jsonld:image'' (bk_seen b, bk_jsonld b)
      in b\<lparr>bk_seen := s, bk_jsonld := c\<rparr>)"

definition og_stage :: "runtime \<Rightarrow> string \<Rightarrow> string \<Rightarrow> buckets \<Rightarrow> buckets" where
  "og_stage rt pageURL pageBody b =
     (let ogURL = ExtractOGImageURL (rt_entities rt) pageBody;
          b1 = (if ogURL \<noteq> '''' then add_og rt pageURL ogURL ''og:image'' b else b)
      in case FindStringSubmatch twitterImageRe pageBody of
           None \<Rightarrow> b1
         | Some m \<Rightarrow> add_og rt pageURL (or_default (rx_group m 1) (rx_group m 2)) ''twitter:image'' b1)"

definition jsonld_stage :: "runtime \<Rightarrow> string \<Rightarrow> string \<Rightarrow> buckets \<Rightarrow> buckets" where
  "jsonld_stage rt pageURL pageBody b =
     fold (\<lambda>(w, m) b. let u = extractJSONLDImage rt (rx_group m 1)
                     in if u \<noteq> '''' then add_jsonld rt pageURL u b else b)
       (FindAllStringSubmatch jsonLDScriptRe pageBody) b"

text \<open>The tests an img tag must pass, and the URL it yields.\<close>

definition img_source :: "runtime \<Rightarrow> string \<Rightarrow> string \<Rightarrow> string option" where
  "img_source rt pageHost imgTag =
     (let src0 = extractAttr contentSrcRe imgTag; u = rt_unicode rt in
      if src0 = '''' then None
      else let src = UnescapeString (rt_entities rt) (TrimSpace u src0) in
        if \<not> HasPrefix src ''http'' then None
        else if registrableDomain src \<noteq> pageHost \<or> pageHost = '''' then None
        else if isContentSkip (ToLower u src) then None
        else if isTinyThumbnail imgTag src then None
        else Some (normalizeImgURL src))"

definition add_img :: "runtime \<Rightarrow> string \<Rightarrow> string list \<Rightarrow> string \<Rightarrow> buckets \<Rightarrow> buckets" where
  "add_img rt pageURL slugTokens src b =
     (if isSlugMatch (rt_unicode rt) src slugTokens then
        (let (s, c) = addIfNew rt pageURL src ''content:img:slug'' (bk_seen b, bk_priority b)
         in b\<lparr>bk_seen := s, bk_priority := c\<rparr>)
      else
        (let (s, c) = addIfNew rt pageURL src ''content:img'' (bk_seen b, bk_normal b)
         in b\<lparr>bk_seen := s, bk_normal := c\<rparr>))"

definition img_stage :: "runtime \<Rightarrow> string \<Rightarrow> string \<Rightarrow> string list \<Rightarrow> string \<Rightarrow> buckets \<Rightarrow> buckets" where
  "img_stage rt pageURL pageHost slugTokens pageBody b =
     fold (\<lambda>(imgTag, m) b. case img_source rt pageHost imgTag of
                              None \<Rightarrow> b | Some src \<Rightarrow> add_img rt pageURL slugTokens src b)
       (FindAllStringSubmatch contentImgTagRe pageBody) b"

definition no_buckets :: buckets where
  "no_buckets = \<lparr>bk_seen = [], bk_priority = [], bk_normal = [], bk_jsonld = [], bk_ogFallback = []\<rparr>"

definition all_buckets :: "buckets \<Rightarrow> ImageCandidate list" where
  "all_buckets b = bk_priority b @ bk_normal b @ bk_jsonld b @ bk_ogFallback b"

definition collect_page :: "runtime \<Rightarrow> string \<Rightarrow> string \<Rightarrow> string \<Rightarrow> buckets" where
  "collect_page rt pageURL query pageBody =
     img_stage rt pageURL (registrableDomain pageURL) (slugTokensFrom (rt_unicode rt) pageURL query) pageBody
       (jsonld_stage rt pageURL pageBody (og_stage rt pageURL pageBody no_buckets))"

definition content_Search ::
  "runtime \<Rightarrow> ContentImageProvider \<Rightarrow> string \<Rightarrow> SearchOpts \<Rightarrow> ImageCandidate list result" where
  "content_Search rt p query opts =
     (if PageURL opts = '''' then Inr []
      else (case fetchPage rt p (PageURL opts) of
          Inl _ \<Rightarrow> Inr []
        | Inr pageBody \<Rightarrow>
            if pageBody = '''' then Inr []
            else Inr (take contentMaxResults (all_buckets (collect_page rt (PageURL opts) query pageBody)))))"

definition content_provider :: "runtime \<Rightarrow> ContentImageProvider \<Rightarrow> SearchProvider" where
  "content_provider rt p = \<lparr>prov_Search = content_Search rt p, prov_Name = ''content''\<rparr>"

section \<open>What a page can contribute\<close>

definition page_norm :: "ImageCandidate \<Rightarrow> string" where
  "page_norm cand = normalizeImgURL (ImgURL cand)"

definition page_cand :: "runtime \<Rightarrow> string \<Rightarrow> ImageCandidate \<Rightarrow> bool" where
  "page_cand rt pageURL cand \<longleftrightarrow>
     offerable (rt_unicode rt) cand \<and> Source cand = pageURL \<and> HasPrefix (ImgURL cand) ''http''
     \<and> License cand = CheckLicense (rt_unicode rt) (ImgURL cand) pageURL"

lemma addIfNew_cases:
  obtains (same) "addIfNew rt pageURL imgURL title (seen, bucket) = (seen, bucket)"
  | (skip) n where "addIfNew rt pageURL imgURL title (seen, bucket) = (n # seen, bucket)"
  | (new) cand where "addIfNew rt pageURL imgURL title (seen, bucket) = (page_norm cand # seen, bucket @ [cand])"
      "page_norm cand \<notin> set seen" "page_cand rt pageURL cand"
proof -
  let ?c = "UnescapeString (rt_entities rt) (TrimSpace (rt_unicode rt) imgURL)"
  let ?r = "\<lparr>ImgURL = ?c, Thumbnail = '''', Source = pageURL, Title = title,
      License = CheckLicense (rt_unicode rt) ?c pageURL, Width = 0, Height = 0, Engine = ''''\<rparr>"
  consider "?c = '''' \<or> \<not> HasPrefix ?c ''http'' \<or> normalizeImgURL ?c \<in> set seen"
    | "normalizeImgURL ?c \<notin> set seen" "?c \<noteq> ''''" "HasPrefix ?c ''http''"
      "IsLogoOrBanner (ToLower (rt_unicode rt) ?c) \<or> CheckLicense (rt_unicode rt) ?c pageURL = LicenseBlocked"
    | "normalizeImgURL ?c \<notin> set seen" "?c \<noteq> ''''" "HasPrefix ?c ''http''"
      "\<not> IsLogoOrBanner (ToLower (rt_unicode rt) ?c)" "CheckLicense (rt_unicode rt) ?c pageURL \<noteq> LicenseBlocked"
    by blast
  then show thesis
  proof cases
    case 1
    then show thesis by (intro same) (auto simp: addIfNew_def Let_def)
  next
    case 2
    then show thesis by (intro skip [of "normalizeImgURL ?c"]) (auto simp: addIfNew_def Let_def)
  next
    case 3
    then show thesis
      by (intro new [of ?r]) (simp_all add: addIfNew_def Let_def page_norm_def page_cand_def offerable_def)
  qed
qed

text \<open>Nothing is offered twice up to its size suffix, and everything offered keeps the contract.\<close>

definition buckets_ok :: "runtime \<Rightarrow> string \<Rightarrow> buckets \<Rightarrow> bool" where
  "buckets_ok rt pageURL b \<longleftrightarrow>
     list_all (page_cand rt pageURL) (all_buckets b)
     \<and> distinct (map page_norm (all_buckets b))
     \<and> page_norm ` set (all_buckets b) \<subseteq> set (bk_seen b)"

lemma buckets_ok_seen:
  "buckets_ok rt pageURL b \<Longrightarrow> all_buckets b' = all_buckets b \<Longrightarrow> set (bk_seen b) \<subseteq> set (bk_seen b') \<Longrightarrow>
     buckets_ok rt pageURL b'"
  by (auto simp: buckets_ok_def)

lemma buckets_ok_new:
  assumes "buckets_ok rt pageURL b" and "page_cand rt pageURL cand" and "page_norm cand \<notin> set (bk_seen b)"
    and "mset (all_buckets b') = add_mset cand (mset (all_buckets b))"
    and "set (bk_seen b') = insert (page_norm cand) (set (bk_seen b))"
  shows "buckets_ok rt pageURL b'"
proof -
  have s: "set (all_buckets b') = insert cand (set (all_buckets b))"
    using assms(4) by (metis set_mset_add_mset_insert set_mset_mset)
  have "mset (map page_norm (all_buckets b')) = add_mset (page_norm cand) (mset (map page_norm (all_buckets b)))"
    using assms(4) by (simp only: mset_map) simp
  then have "distinct (map page_norm (all_buckets b')) \<longleftrightarrow> distinct (page_norm cand # map page_norm (all_buckets b))"
    by (metis mset.simps(2) mset_eq_imp_distinct_iff)
  with s assms(1,2,3,5) show ?thesis by (auto simp: buckets_ok_def list_all_iff)
qed

lemma add_og_ok: "buckets_ok rt pageURL b \<Longrightarrow> buckets_ok rt pageURL (add_og rt pageURL imgURL title b)"
  by (cases rt pageURL imgURL title "bk_seen b" "bk_ogFallback b" rule: addIfNew_cases)
     (auto simp: add_og_def all_buckets_def intro: buckets_ok_seen buckets_ok_new)

lemma add_jsonld_ok: "buckets_ok rt pageURL b \<Longrightarrow> buckets_ok rt pageURL (add_jsonld rt pageURL imgURL b)"
  by (cases rt pageURL imgURL "''jsonld:image''" "bk_seen b" "bk_jsonld b" rule: addIfNew_cases)
     (auto simp: add_jsonld_def all_buckets_def intro: buckets_ok_seen buckets_ok_new)

lemma add_img_ok: "buckets_ok rt pageURL b \<Longrightarrow> buckets_ok rt pageURL (add_img rt pageURL toks src b)"
proof (cases "isSlugMatch (rt_unicode rt) src toks")
  case True
  assume "buckets_ok rt pageURL b"
  with True show ?thesis
    by (cases rt pageURL src "''content:img:slug''" "bk_seen b" "bk_priority b" rule: addIfNew_cases)
       (auto simp: add_img_def all_buckets_def intro: buckets_ok_seen buckets_ok_new)
next
  case False
  assume "buckets_ok rt pageURL b"
  with False show ?thesis
    by (cases rt pageURL src "''content:img''" "bk_seen b" "bk_normal b" rule: addIfNew_cases)
       (auto simp: add_img_def all_buckets_def intro: buckets_ok_seen buckets_ok_new)
qed

lemma collect_page_ok: "buckets_ok rt pageURL (collect_page rt pageURL query pageBody)"
proof -
  have "buckets_ok rt pageURL no_buckets"
    by (simp add: buckets_ok_def no_buckets_def all_buckets_def)
  then have "buckets_ok rt pageURL (og_stage rt pageURL pageBody no_buckets)"
    by (auto simp: og_stage_def Let_def add_og_ok split: option.splits)
  then have "buckets_ok rt pageURL (jsonld_stage rt pageURL pageBody (og_stage rt pageURL pageBody no_buckets))"
    unfolding jsonld_stage_def by (rule fold_keeps [rotated]) (auto simp: Let_def add_jsonld_ok)
  then show ?thesis
    unfolding collect_page_def img_stage_def
    by (rule fold_keeps [rotated]) (auto simp: add_img_ok split: option.splits)
qed

lemma content_Search_page:
  assumes "content_Search rt p query opts = Inr cands"
  shows "list_all (page_cand rt (PageURL opts)) cands \<and> distinct (map page_norm cands)
     \<and> length cands \<le> contentMaxResults"
proof -
  have "cands = [] \<or> (\<exists>b. buckets_ok rt (PageURL opts) b \<and> cands = take contentMaxResults (all_buckets b))"
    using assms unfolding content_Search_def
    by (auto split: if_splits sum.splits) (metis collect_page_ok)
  then show ?thesis
    by (auto simp: buckets_ok_def list_all_iff take_map [symmetric] dest: in_set_takeD)
qed

interpretation content: domain_provider "rt_unicode rt" "content_Search rt p" for rt p
  by unfold_locales (auto simp: list_all_iff page_cand_def dest: content_Search_page)

section \<open>Where the images come from, and their order\<close>

text \<open>The URL that \<^verbatim>\<open>addIfNew\<close> makes of what it is given.\<close>

definition clean_url :: "runtime \<Rightarrow> string \<Rightarrow> string" where
  "clean_url rt s = UnescapeString (rt_entities rt) (TrimSpace (rt_unicode rt) s)"

text \<open>The source of an img tag of the page.\<close>

definition tag_source :: "runtime \<Rightarrow> string \<Rightarrow> string \<Rightarrow> string \<Rightarrow> bool" where
  "tag_source rt pageURL page src \<longleftrightarrow>
     (\<exists>tag m. (tag, m) \<in> set (FindAllStringSubmatch contentImgTagRe page) \<and> img_source rt (registrableDomain pageURL) tag = Some src)"

text \<open>A token occurs in the lower-cased name of the file.\<close>

definition shares_token :: "runtime \<Rightarrow> string list \<Rightarrow> string \<Rightarrow> bool" where
  "shares_token rt tokens src \<longleftrightarrow> (\<exists>t \<in> set tokens. \<exists>x y. ToLower (rt_unicode rt) (path_Base src) = x @ t @ y)"

definition body_image :: "runtime \<Rightarrow> string \<Rightarrow> string list \<Rightarrow> string \<Rightarrow> bool \<Rightarrow> ImageCandidate \<Rightarrow> bool" where
  "body_image rt pageURL tokens page match c \<longleftrightarrow>
     (\<exists>src. tag_source rt pageURL page src \<and> ImgURL c = clean_url rt src \<and> shares_token rt tokens src = match)"

definition jsonld_image :: "runtime \<Rightarrow> string \<Rightarrow> ImageCandidate \<Rightarrow> bool" where
  "jsonld_image rt page c \<longleftrightarrow>
     (\<exists>w m. (w, m) \<in> set (FindAllStringSubmatch jsonLDScriptRe page) \<and> ImgURL c = clean_url rt (extractJSONLDImage rt (rx_group m 1)))"

definition meta_image :: "runtime \<Rightarrow> string \<Rightarrow> ImageCandidate \<Rightarrow> bool" where
  "meta_image rt page c \<longleftrightarrow>
     ImgURL c = clean_url rt (ExtractOGImageURL (rt_entities rt) page)
     \<or> (\<exists>m. FindStringSubmatch twitterImageRe page = Some m \<and> ImgURL c = clean_url rt (or_default (rx_group m 1) (rx_group m 2)))"

definition buckets_from :: "runtime \<Rightarrow> string \<Rightarrow> string list \<Rightarrow> string \<Rightarrow> buckets \<Rightarrow> bool" where
  "buckets_from rt pageURL tokens page b \<longleftrightarrow>
     list_all (body_image rt pageURL tokens page True) (bk_priority b) \<and> list_all (body_image rt pageURL tokens page False) (bk_normal b)
     \<and> list_all (jsonld_image rt page) (bk_jsonld b) \<and> list_all (meta_image rt page) (bk_ogFallback b)"

lemma isSlugMatch_shares: "isSlugMatch (rt_unicode rt) src tokens = shares_token rt tokens src"
  by (auto simp: isSlugMatch_def shares_token_def list_ex_iff Contains_iff)

lemma addIfNew_from:
  "list_all Q bucket \<Longrightarrow> (\<And>c. ImgURL c = clean_url rt imgURL \<Longrightarrow> Q c) \<Longrightarrow>
     list_all Q (snd (addIfNew rt pageURL imgURL title (seen, bucket)))"
  by (auto simp: addIfNew_def clean_url_def Let_def)

lemma add_og_from:
  "buckets_from rt pageURL tokens page b \<Longrightarrow> (\<And>c. ImgURL c = clean_url rt imgURL \<Longrightarrow> meta_image rt page c) \<Longrightarrow>
     buckets_from rt pageURL tokens page (add_og rt pageURL imgURL title b)"
  by (auto simp: buckets_from_def add_og_def case_prod_unfold Let_def intro!: addIfNew_from)

lemma add_jsonld_from:
  "buckets_from rt pageURL tokens page b \<Longrightarrow> (\<And>c. ImgURL c = clean_url rt imgURL \<Longrightarrow> jsonld_image rt page c) \<Longrightarrow>
     buckets_from rt pageURL tokens page (add_jsonld rt pageURL imgURL b)"
  by (auto simp: buckets_from_def add_jsonld_def case_prod_unfold Let_def intro!: addIfNew_from)

lemma add_img_from:
  "buckets_from rt pageURL tokens page b \<Longrightarrow> tag_source rt pageURL page src \<Longrightarrow>
     buckets_from rt pageURL tokens page (add_img rt pageURL tokens src b)"
  by (auto simp: buckets_from_def add_img_def isSlugMatch_shares case_prod_unfold Let_def body_image_def intro!: addIfNew_from)

lemma collect_page_from:
  "buckets_from rt pageURL (slugTokensFrom (rt_unicode rt) pageURL query) page (collect_page rt pageURL query page)"
proof -
  let ?ok = "buckets_from rt pageURL (slugTokensFrom (rt_unicode rt) pageURL query) page"
  have "?ok no_buckets" by (simp add: buckets_from_def no_buckets_def)
  then have "?ok (og_stage rt pageURL page no_buckets)"
    by (auto simp: og_stage_def Let_def meta_image_def intro!: add_og_from split: option.splits)
  then have "?ok (jsonld_stage rt pageURL page (og_stage rt pageURL page no_buckets))"
    unfolding jsonld_stage_def by (rule fold_keeps [rotated]) (auto simp: Let_def jsonld_image_def intro!: add_jsonld_from, blast)
  then show ?thesis
    unfolding collect_page_def img_stage_def
    by (rule fold_keeps [rotated]) (auto simp: tag_source_def intro!: add_img_from split: option.splits, blast)
qed

lemma take_append4:
  "\<exists>a b c d. take n (xs @ ys @ zs @ ws) = a @ b @ c @ d \<and> set a \<subseteq> set xs \<and> set b \<subseteq> set ys \<and> set c \<subseteq> set zs \<and> set d \<subseteq> set ws"
  by (simp add: take_append) (blast intro: in_set_takeD)

lemma content_Search_from:
  assumes "content_Search rt p query opts = Inr cands" and "cands \<noteq> []"
  obtains page a b c d where "fetchPage rt p (PageURL opts) = Inr page" "cands = a @ b @ c @ d"
    "list_all (body_image rt (PageURL opts) (slugTokensFrom (rt_unicode rt) (PageURL opts) query) page True) a"
    "list_all (body_image rt (PageURL opts) (slugTokensFrom (rt_unicode rt) (PageURL opts) query) page False) b"
    "list_all (jsonld_image rt page) c" "list_all (meta_image rt page) d"
proof -
  obtain page where page: "fetchPage rt p (PageURL opts) = Inr page"
      "cands = take contentMaxResults (all_buckets (collect_page rt (PageURL opts) query page))"
    using assms by (auto simp: content_Search_def split: if_splits sum.splits)
  let ?b = "collect_page rt (PageURL opts) query page"
  obtain a b c d where d: "cands = a @ b @ c @ d" "set a \<subseteq> set (bk_priority ?b)" "set b \<subseteq> set (bk_normal ?b)"
      "set c \<subseteq> set (bk_jsonld ?b)" "set d \<subseteq> set (bk_ogFallback ?b)"
    using take_append4 [of contentMaxResults "bk_priority ?b" "bk_normal ?b" "bk_jsonld ?b" "bk_ogFallback ?b"] page(2)
    unfolding all_buckets_def by blast
  with page(1) collect_page_from [of rt "PageURL opts" query page] show thesis
    by (intro that) (auto simp: buckets_from_def list_all_iff)
qed

section \<open>Sizes\<close>

lemma runes_ascii: "is_ascii s \<Longrightarrow> runes s = map of_char s"
  by (simp add: runes_def chunks_ascii)

definition dec_value :: "string \<Rightarrow> nat" where
  "dec_value s = foldl (\<lambda>n c. 10 * n + (of_char c - 48)) 0 s"

lemma parse_digits_eq:
  "list_all is_digit s \<Longrightarrow>
     parse_digits (map of_char s) (of_nat n) = of_nat (foldl (\<lambda>n c. 10 * n + (of_char c - 48)) n s)"
proof (induction s arbitrary: n)
  case (Cons c s)
  have d: "\<not> (of_char c < (48::nat) \<or> of_char c > (57::nat))"
    using Cons.prems by (auto simp: is_digit_def byte_in_def)
  have "(of_nat n * 10 + of_nat (of_char c - 48) :: 64 word) = of_nat (10 * n + (of_char c - 48))"
    by (simp add: mult.commute)
  moreover have "parse_digits (map of_char (c # s)) (of_nat n) =
      parse_digits (map of_char s) (of_nat n * 10 + of_nat (of_char c - 48))"
    using d by (simp only: list.map parse_digits.simps if_False)
  ultimately show ?case using Cons.IH [of "10 * n + (of_char c - 48)"] Cons.prems by (simp only: foldl_Cons list.pred_inject)
qed simp

lemma digits_ascii: "list_all is_digit s \<Longrightarrow> is_ascii s"
  by (induction s) (auto simp: is_digit_def byte_in_def)

lemma parseIntFast_word: "list_all is_digit s \<Longrightarrow> parseIntFast s = sint (of_nat (dec_value s) :: 64 word)"
  using parse_digits_eq [of s 0] by (simp add: parseIntFast_def runes_ascii digits_ascii dec_value_def)

lemma parseIntFast_small:
  assumes "list_all is_digit s" and "dec_value s < 2 ^ 63"
  shows "parseIntFast s = int (dec_value s)"
proof -
  have "sint (of_nat (dec_value s) :: 64 word) = int (dec_value s)"
    using assms(2) by (simp add: signed_of_nat signed_take_bit_int_eq_self)
  then show ?thesis using assms(1) by (simp add: parseIntFast_word)
qed

end
