(* ===== verification/Download.thy ===== *)
theory Download
  imports Config
begin

text \<open>
  download.go and validate.go: fetching an image through the plain client with the stealth
  client as a fallback, and the check of an image URL by its headers and decoded width.
\<close>

section \<open>Downloading\<close>

record DownloadOpts =
  dl_MaxBytes :: int
  dl_MinBytes :: int
  dl_Timeout :: int
  dl_UserAgent :: string

definition zero_DownloadOpts :: DownloadOpts where
  "zero_DownloadOpts = \<lparr>dl_MaxBytes = 0, dl_MinBytes = 0, dl_Timeout = 0, dl_UserAgent = ''''\<rparr>"

definition defaultMaxBytes :: int where
  "defaultMaxBytes = 200 * 1024"

definition defaultTimeout :: int where
  "defaultTimeout = 10 * second"

record DownloadResult =
  dr_Data :: bytes
  dr_MIMEType :: string

text \<open>The content type without its parameters.\<close>

definition strip_params :: "unicode \<Rightarrow> string \<Rightarrow> string" where
  "strip_params u ct =
     (case IndexByte ct (CHR '';'') of None \<Rightarrow> ct | Some idx \<Rightarrow> TrimSpace u (take idx ct))"

definition fetchImageData ::
  "unicode \<Rightarrow> client \<Rightarrow> string \<Rightarrow> string \<Rightarrow> DownloadOpts \<Rightarrow> DownloadResult option" where
  "fetchImageData u c imageURL ua opts =
     (case NewRequest ''GET'' imageURL [] (dl_Timeout opts) of
        Inl _ \<Rightarrow> None
      | Inr req \<Rightarrow>
         (case Do c (SetHeader ''User-Agent'' ua req) of
            Inl _ \<Rightarrow> None
          | Inr resp \<Rightarrow>
              if StatusCode resp \<noteq> 200 then None
              else let ct = strip_params u (ContentType resp) in
                if \<not> HasPrefix ct ''image/'' then None
                else (case ReadAllLimit resp (dl_MaxBytes opts) of
                    Inl _ \<Rightarrow> None
                  | Inr data \<Rightarrow>
                      if int (length data) < dl_MinBytes opts then None
                      else Some \<lparr>dr_Data = data, dr_MIMEType = ct\<rparr>)))"

definition download_defaults :: "DownloadOpts \<Rightarrow> DownloadOpts" where
  "download_defaults opts =
     opts\<lparr>dl_MaxBytes := (if dl_MaxBytes opts \<le> 0 then defaultMaxBytes else dl_MaxBytes opts),
          dl_Timeout := (if dl_Timeout opts \<le> 0 then defaultTimeout else dl_Timeout opts)\<rparr>"

text \<open>The error \<^verbatim>\<open>Download\<close> returns is always nil, so the result is an option.\<close>

definition Download :: "runtime \<Rightarrow> 'c Config \<Rightarrow> string \<Rightarrow> DownloadOpts \<Rightarrow> DownloadResult option" where
  "Download rt cfg0 url opts0 =
     (let cfg = defaults rt cfg0;
          opts = download_defaults opts0;
          ua = or_default (dl_UserAgent opts) (cfg_UserAgent cfg);
          u = rt_unicode rt
      in case fetchImageData u (client_or_default rt (cfg_HTTPClient cfg)) url ua opts of
           Some r \<Rightarrow> Some r
         | None \<Rightarrow>
            (case cfg_StealthClient cfg of
               None \<Rightarrow> None
             | Some sc \<Rightarrow> fetchImageData u sc url ua opts))"

section \<open>Validation by headers\<close>

text \<open>The client \<^verbatim>\<open>ValidateImageURL\<close> uses: the plain transport under a policy that stops at three requests.\<close>

definition maxRedirects :: nat where
  "maxRedirects = 3"

definition validationClient :: "runtime \<Rightarrow> 'c Config \<Rightarrow> client" where
  "validationClient rt cfg =
     \<lparr>Transport = Transport (client_or_default rt (cfg_HTTPClient cfg)), RedirectLimit = maxRedirects\<rparr>"

definition decodeLimit :: int where
  "decodeLimit = 256 * 1024"

definition ValidateImageURL :: "runtime \<Rightarrow> 'c Config \<Rightarrow> string \<Rightarrow> bool" where
  "ValidateImageURL rt cfg0 rawURL =
     (let cfg = defaults rt cfg0 in
      if IsLogoOrBanner (ToLower (rt_unicode rt) rawURL) then False
      else (case NewRequest ''GET'' rawURL [] defaultTimeout of
          Inl _ \<Rightarrow> False
        | Inr req \<Rightarrow>
           (case Do (validationClient rt cfg) (SetHeader ''User-Agent'' (cfg_UserAgent cfg) req) of
              Inl _ \<Rightarrow> False
            | Inr resp \<Rightarrow>
                if StatusCode resp \<noteq> 200 then False
                else if \<not> HasPrefix (ContentType resp) ''image/'' then False
                else (case rt_DecodeConfig rt (limit_bytes decodeLimit (Body resp)) of
                    None \<Rightarrow> True
                  | Some w \<Rightarrow> \<not> w < cfg_MinImageWidth cfg))))"

section \<open>The contract of a fetch\<close>

text \<open>
  What every caller of a fetcher relies on: a result carries an image content type, at most
  \<open>hi\<close> and at least \<open>lo\<close> bytes.
\<close>

locale image_fetcher =
  fixes fetch :: "'q \<Rightarrow> DownloadResult option" and lo hi :: int
  assumes fetched: "fetch q = Some r \<Longrightarrow>
      HasPrefix (dr_MIMEType r) ''image/'' \<and> lo \<le> int (length (dr_Data r)) \<and> int (length (dr_Data r)) \<le> hi"
begin

lemma nonempty_when_required: "fetch q = Some r \<Longrightarrow> 0 < lo \<Longrightarrow> dr_Data r \<noteq> []"
  using fetched [of q r] by auto

end

text \<open>A fetcher with a fallback is a fetcher.\<close>

locale fallback_fetcher = first: image_fetcher f lo hi + second: image_fetcher g lo hi
  for f g :: "'q \<Rightarrow> DownloadResult option" and lo hi :: int
begin

lemma either: "(case f q of Some r \<Rightarrow> Some r | None \<Rightarrow> g q) = Some r \<Longrightarrow>
    HasPrefix (dr_MIMEType r) ''image/'' \<and> lo \<le> int (length (dr_Data r)) \<and> int (length (dr_Data r)) \<le> hi"
  by (auto split: option.splits dest: first.fetched second.fetched)

end

sublocale fallback_fetcher \<subseteq> both: image_fetcher "\<lambda>q. case f q of Some r \<Rightarrow> Some r | None \<Rightarrow> g q" lo hi
  by unfold_locales (rule either)

section \<open>Facts\<close>

lemma fetchImageData_Some:
  assumes "fetchImageData u c url ua opts = Some r"
  shows "HasPrefix (dr_MIMEType r) ''image/'' \<and> dl_MinBytes opts \<le> int (length (dr_Data r))
     \<and> int (length (dr_Data r)) \<le> max 0 (dl_MaxBytes opts)"
  using assms
  by (auto simp: fetchImageData_def ReadAllLimit_def limit_bytes_take Let_def split: sum.splits if_splits)

interpretation fetch_image: image_fetcher "\<lambda>(c, url). fetchImageData u c url ua opts"
    "dl_MinBytes opts" "max 0 (dl_MaxBytes opts)"
  for u ua opts
  by unfold_locales (auto dest: fetchImageData_Some)

lemma download_defaults_bounds [simp]:
  "0 < dl_MaxBytes (download_defaults opts)" "0 < dl_Timeout (download_defaults opts)"
  "dl_MinBytes (download_defaults opts) = dl_MinBytes opts"
  "dl_UserAgent (download_defaults opts) = dl_UserAgent opts"
  by (simp_all add: download_defaults_def defaultMaxBytes_def defaultTimeout_def second_def)

interpretation stealth_fetch: fallback_fetcher
    "\<lambda>url. fetchImageData u c url ua (download_defaults opts)"
    "\<lambda>url. case sc of None \<Rightarrow> None | Some s \<Rightarrow> fetchImageData u s url ua (download_defaults opts)"
    "dl_MinBytes opts" "dl_MaxBytes (download_defaults opts)"
  for u c sc ua opts
  using download_defaults_bounds(1) [of opts]
  by unfold_locales (force split: option.splits dest: fetchImageData_Some)+

lemma Download_fetched:
  "Download rt cfg url opts = Some r \<Longrightarrow>
     HasPrefix (dr_MIMEType r) ''image/'' \<and> dl_MinBytes opts \<le> int (length (dr_Data r))
     \<and> int (length (dr_Data r)) \<le> dl_MaxBytes (download_defaults opts)"
  unfolding Download_def Let_def by (drule stealth_fetch.both.fetched)

lemma ValidateImageURL_defaults: "ValidateImageURL rt (defaults rt cfg) = ValidateImageURL rt cfg"
  by (simp add: ValidateImageURL_def fun_eq_iff)

end
