(* ===== verification/Classify.thy ===== *)
theory Classify
  imports Download Helpers
begin

text \<open>
  classify.go: the vision-model classification of an image, with the cache in front of it. A
  call threads the cache store, returns the callbacks it made and either a result or the
  classifier's panic.
\<close>

type_synonym 'c classify_run = "'c \<times> event list \<times> ClassificationResult outcome"

definition classifyFromData ::
  "runtime \<Rightarrow> 'c Config \<Rightarrow> string \<Rightarrow> bytes \<Rightarrow> string \<Rightarrow> event list \<times> ClassificationResult outcome" where
  "classifyFromData rt cfg imageURL data mimeType =
     (case cfg_Classifier cfg of
        None \<Rightarrow> ([], if data = [] then Returns no_result else Panics)
      | Some classifier \<Rightarrow>
          if data = [] then ([], Returns no_result)
          else
            let dataURL = EncodeDataURL data mimeType;
                prompt = or_default (cfg_VisionPrompt cfg) DefaultVisionPrompt
            in (case classifier prompt [\<lparr>input_URL = dataURL, input_MIMEType = ''''\<rparr>] of
                 Panics \<Rightarrow> ([], Panics)
               | Returns (Inl err) \<Rightarrow> ([], Returns no_result)
               | Returns (Inr resp) \<Rightarrow>
                   let r = ParseClassificationResult (rt_unicode rt) resp
                   in (emitClassification cfg imageURL (Class r) (Confidence r) ''llm'', Returns r)))"

definition doClassifyFull ::
  "runtime \<Rightarrow> 'c Config \<Rightarrow> string \<Rightarrow> event list \<times> ClassificationResult outcome" where
  "doClassifyFull rt cfg imageURL =
     (case Download rt cfg imageURL (zero_DownloadOpts\<lparr>dl_MaxBytes := visionMaxBytes\<rparr>) of
        None \<Rightarrow> ([], Returns no_result)
      | Some r \<Rightarrow> classifyFromData rt cfg imageURL (dr_Data r) (dr_MIMEType r))"

text \<open>
  The two entry points repeat the code around the cache; both copies are written out, with the key
  prefix each of them has.
\<close>

definition ClassifyImageFull :: "runtime \<Rightarrow> 'c Config \<Rightarrow> string \<Rightarrow> 'c \<Rightarrow> 'c classify_run" where
  "ClassifyImageFull rt cfg0 imageURL st =
     (let cfg = defaults rt cfg0 in
      if cfg_Classifier cfg = None then (st, [], Returns no_result)
      else (case cfg_Cache cfg of
          Some cache \<Rightarrow>
            let cacheKey = cache_Key cache ''vision_cls_v2'' imageURL in
            (case cache_Get cache st cacheKey of
               (Some cached, st1) \<Rightarrow> (st1, [], Returns cached)
             | (None, st1) \<Rightarrow>
                 (case doClassifyFull rt cfg imageURL of
                    (evs, Panics) \<Rightarrow> (st1, evs, Panics)
                  | (evs, Returns result) \<Rightarrow> (cache_Set cache st1 cacheKey result, evs, Returns result)))
        | None \<Rightarrow> (st, doClassifyFull rt cfg imageURL)))"

definition classifyPredownloaded ::
  "runtime \<Rightarrow> 'c Config \<Rightarrow> string \<Rightarrow> bytes \<Rightarrow> string \<Rightarrow> 'c \<Rightarrow> 'c classify_run" where
  "classifyPredownloaded rt cfg0 imageURL data mimeType st =
     (let cfg = defaults rt cfg0 in
      if cfg_Classifier cfg = None then (st, [], Returns no_result)
      else (case cfg_Cache cfg of
          Some cache \<Rightarrow>
            let cacheKey = cache_Key cache ''vision_cls_v2'' imageURL in
            (case cache_Get cache st cacheKey of
               (Some cached, st1) \<Rightarrow> (st1, [], Returns cached)
             | (None, st1) \<Rightarrow>
                 (case classifyFromData rt cfg imageURL data mimeType of
                    (evs, Panics) \<Rightarrow> (st1, evs, Panics)
                  | (evs, Returns result) \<Rightarrow> (cache_Set cache st1 cacheKey result, evs, Returns result)))
        | None \<Rightarrow> (st, classifyFromData rt cfg imageURL data mimeType)))"

definition map_outcome :: "('a \<Rightarrow> 'b) \<Rightarrow> 'a outcome \<Rightarrow> 'b outcome" where
  "map_outcome f x = (case x of Returns v \<Rightarrow> Returns (f v) | Panics \<Rightarrow> Panics)"

definition ClassifyImage :: "runtime \<Rightarrow> 'c Config \<Rightarrow> string \<Rightarrow> 'c \<Rightarrow> 'c \<times> event list \<times> string outcome" where
  "ClassifyImage rt cfg imageURL st =
     (case ClassifyImageFull rt cfg imageURL st of (st', evs, r) \<Rightarrow> (st', evs, map_outcome Class r))"

definition IsRealPhoto :: "runtime \<Rightarrow> 'c Config \<Rightarrow> string \<Rightarrow> 'c \<Rightarrow> 'c \<times> event list \<times> bool outcome" where
  "IsRealPhoto rt cfg imageURL st =
     (case ClassifyImage rt cfg imageURL st of
        (st', evs, r) \<Rightarrow> (st', evs, map_outcome (\<lambda>cls. cls = ClassPhoto \<or> cls = '''') r))"

section \<open>Facts\<close>

text \<open>Both entry points as one: the answer of the cache, or a classification that is then stored.\<close>

definition cached_run ::
  "'c Cache \<Rightarrow> string \<Rightarrow> event list \<times> ClassificationResult outcome \<Rightarrow> 'c \<Rightarrow> 'c classify_run" where
  "cached_run cache imageURL run st =
     (case cache_Get cache st (cache_Key cache ''vision_cls_v2'' imageURL) of
        (Some cached, st1) \<Rightarrow> (st1, [], Returns cached)
      | (None, st1) \<Rightarrow>
          (case run of
             (evs, Panics) \<Rightarrow> (st1, evs, Panics)
           | (evs, Returns r) \<Rightarrow> (cache_Set cache st1 (cache_Key cache ''vision_cls_v2'' imageURL) r, evs, Returns r)))"

lemma ClassifyImageFull_cases:
  "cfg_Classifier cfg = None \<Longrightarrow> ClassifyImageFull rt cfg url st = (st, [], Returns no_result)"
  "cfg_Classifier cfg \<noteq> None \<Longrightarrow> cfg_Cache cfg = None \<Longrightarrow>
     ClassifyImageFull rt cfg url st = (st, doClassifyFull rt (defaults rt cfg) url)"
  "cfg_Classifier cfg \<noteq> None \<Longrightarrow> cfg_Cache cfg = Some cache \<Longrightarrow>
     ClassifyImageFull rt cfg url st = cached_run cache url (doClassifyFull rt (defaults rt cfg) url) st"
  by (auto simp: ClassifyImageFull_def cached_run_def Let_def)

lemma classifyPredownloaded_cases:
  "cfg_Classifier cfg = None \<Longrightarrow> classifyPredownloaded rt cfg url data mimeType st = (st, [], Returns no_result)"
  "cfg_Classifier cfg \<noteq> None \<Longrightarrow> cfg_Cache cfg = None \<Longrightarrow>
     classifyPredownloaded rt cfg url data mimeType st = (st, classifyFromData rt (defaults rt cfg) url data mimeType)"
  "cfg_Classifier cfg \<noteq> None \<Longrightarrow> cfg_Cache cfg = Some cache \<Longrightarrow>
     classifyPredownloaded rt cfg url data mimeType st = cached_run cache url (classifyFromData rt (defaults rt cfg) url data mimeType) st"
  by (auto simp: classifyPredownloaded_def cached_run_def Let_def)

lemma cached_run_hit:
  "cache_Get cache st (cache_Key cache ''vision_cls_v2'' url) = (Some r, st') \<Longrightarrow> cached_run cache url run st = (st', [], Returns r)"
  by (simp add: cached_run_def)

lemma cached_run_miss:
  "cache_Get cache st (cache_Key cache ''vision_cls_v2'' url) = (None, st') \<Longrightarrow> cached_run cache url run st = (st'', evs, Returns r) \<Longrightarrow>
     st'' = cache_Set cache st' (cache_Key cache ''vision_cls_v2'' url) r \<and> run = (evs, Returns r)"
  by (auto simp: cached_run_def split: prod.splits outcome.splits)

lemma doClassifyFull_downloaded:
  "Download rt cfg url (zero_DownloadOpts\<lparr>dl_MaxBytes := visionMaxBytes\<rparr>) = Some r \<Longrightarrow>
     doClassifyFull rt cfg url = classifyFromData rt cfg url (dr_Data r) (dr_MIMEType r)"
  by (simp add: doClassifyFull_def)

lemma Download_defaults: "Download rt (defaults rt cfg) = Download rt cfg"
  by (simp add: Download_def fun_eq_iff client_or_default_def)

end
