(* ===== verification/Reverse.thy ===== *)
theory Reverse
  imports Config
begin

text \<open>
  reverse.go: the question to the ox-browser service whether an image is also published on
  stock sites. The service is what the client's transport answers; the payload is the JSON
  encoding of the request. Every failure is the empty result.
\<close>

section \<open>Encoding strings as JSON\<close>

text \<open>
  \<^verbatim>\<open>json.Marshal\<close> of a string: quotes, backslashes, control bytes and the HTML characters are
  escaped, an invalid byte becomes U+FFFD, U+2028 and U+2029 are escaped, anything else is copied.
\<close>

definition hex_lower :: "nat \<Rightarrow> char" where
  "hex_lower n = (if n < 10 then char_of (48 + n) else char_of (87 + n))"

definition json_escape_chunk :: "rune \<times> string \<Rightarrow> string" where
  "json_escape_chunk p =
     (let (r, bs) = p in
      if r = 34 then [CHR 0x5C, CHR 0x22]
      else if r = 92 then [CHR 0x5C, CHR 0x5C]
      else if r = 8 then CHR 0x5C # ''b''
      else if r = 12 then CHR 0x5C # ''f''
      else if r = 10 then CHR 0x5C # ''n''
      else if r = 13 then CHR 0x5C # ''r''
      else if r = 9 then CHR 0x5C # ''t''
      else if r < 32 \<or> r = 60 \<or> r = 62 \<or> r = 38 then
        CHR 0x5C # ''u00'' @ [hex_lower (r div 16), hex_lower (r mod 16)]
      else if r = RuneError \<and> length bs = 1 then CHR 0x5C # ''ufffd''
      else if r = 0x2028 then CHR 0x5C # ''u2028''
      else if r = 0x2029 then CHR 0x5C # ''u2029''
      else bs)"

definition json_string :: "string \<Rightarrow> string" where
  "json_string s = [CHR 0x22] @ concat (map json_escape_chunk (chunks s)) @ [CHR 0x22]"

section \<open>The service call\<close>

definition reverseMaxResults :: int where
  "reverseMaxResults = 10"

definition reverseBodyLimit :: int where
  "reverseBodyLimit = 512 * 1024"

definition reverseTimeout :: int where
  "reverseTimeout = 10"

record ReverseResult =
  IsStock :: bool
  StockDomains :: "string list"

definition zero_ReverseResult :: ReverseResult where
  "zero_ReverseResult = \<lparr>IsStock = False, StockDomains = []\<rparr>"

record reverseRequest =
  rq_URL :: string
  rq_MaxResults :: int

record reverseMatch =
  rm_PageURL :: string
  rm_Domain :: string

record reverseResponse =
  rr_Matches :: "reverseMatch list"
  rr_IsStock :: bool
  rr_StockDomains :: "string list"

definition marshal_reverseRequest :: "reverseRequest \<Rightarrow> bytes" where
  "marshal_reverseRequest q =
     ''{'' @ json_string ''url'' @ '':'' @ json_string (rq_URL q) @ '',''
       @ json_string ''max_results'' @ '':'' @ show_int (rq_MaxResults q) @ ''}''"

definition read_reverseMatch :: "json \<Rightarrow> reverseMatch option" where
  "read_reverseMatch =
     into_struct
       [(''page_url'', \<lambda>m x. map_option (\<lambda>v. m\<lparr>rm_PageURL := v\<rparr>) (into_string (rm_PageURL m) x)),
        (''domain'', \<lambda>m x. map_option (\<lambda>v. m\<lparr>rm_Domain := v\<rparr>) (into_string (rm_Domain m) x))]
       \<lparr>rm_PageURL = '''', rm_Domain = ''''\<rparr>"

definition read_reverseResponse :: "json \<Rightarrow> reverseResponse option" where
  "read_reverseResponse =
     into_struct
       [(''matches'', \<lambda>r x. map_option (\<lambda>v. r\<lparr>rr_Matches := v\<rparr>) (into_slice read_reverseMatch x)),
        (''is_stock'', \<lambda>r x. map_option (\<lambda>v. r\<lparr>rr_IsStock := v\<rparr>) (into_bool (rr_IsStock r) x)),
        (''stock_domains'', \<lambda>r x. map_option (\<lambda>v. r\<lparr>rr_StockDomains := v\<rparr>) (into_slice (into_string '''') x))]
       \<lparr>rr_Matches = [], rr_IsStock = False, rr_StockDomains = []\<rparr>"

definition reverse_endpoint :: "string \<Rightarrow> string" where
  "reverse_endpoint base = TrimRightByte base (CHR ''/'') @ ''/images/reverse''"

definition ReverseCheck :: "runtime \<Rightarrow> 'c Config \<Rightarrow> string \<Rightarrow> ReverseResult" where
  "ReverseCheck rt cfg imageURL =
     (if cfg_OxBrowserURL cfg = '''' then zero_ReverseResult
      else
        let payload = marshal_reverseRequest \<lparr>rq_URL = imageURL, rq_MaxResults = reverseMaxResults\<rparr>
        in case NewRequest ''POST'' (reverse_endpoint (cfg_OxBrowserURL cfg)) payload (reverseTimeout * second) of
             Inl _ \<Rightarrow> zero_ReverseResult
           | Inr req \<Rightarrow>
              (case Do (client_or_default rt (cfg_HTTPClient cfg)) (SetHeader ''Content-Type'' ''application/json'' req) of
                 Inl _ \<Rightarrow> zero_ReverseResult
               | Inr resp \<Rightarrow>
                   if StatusCode resp \<noteq> 200 then zero_ReverseResult
                   else (case ReadAllLimit resp reverseBodyLimit of
                       Inl _ \<Rightarrow> zero_ReverseResult
                     | Inr body \<Rightarrow>
                        (case Option.bind (json_read body) read_reverseResponse of
                           None \<Rightarrow> zero_ReverseResult
                         | Some r \<Rightarrow> \<lparr>IsStock = rr_IsStock r, StockDomains = rr_StockDomains r\<rparr>))))"

section \<open>Reading the payload back\<close>

text \<open>A valid encoding is decoded from its own bytes, whatever follows them.\<close>

lemma DecodeRune_own_bytes:
  assumes "DecodeRune s = (r, w)" and "1 < w"
  shows "DecodeRune (take w s @ t) = (r, w)"
proof -
  obtain b s' where s: "s = b # s'" using assms by (cases s) (auto simp: DecodeRune_def)
  consider "s' = []" | c1 where "s' = [c1]" | c1 c2 where "s' = [c1, c2]" | c1 c2 c3 u where "s' = c1 # c2 # c3 # u"
    by (metis list.exhaust)
  then show ?thesis
    by cases (use assms in \<open>auto simp: s DecodeRune_def Let_def split: if_splits\<close>)
qed

lemma hex_lower_round_trip: "n < 16 \<Longrightarrow> ishex (hex_lower n) \<and> unhex (hex_lower n) = n"
  by (auto simp: hex_lower_def ishex_def unhex_def is_digit_def byte_in_def)

lemma EncodeRune_ascii: "r < 128 \<Longrightarrow> EncodeRune r = [char_of r]"
  by (simp add: EncodeRune_def)

lemma decoded_width: "s \<noteq> [] \<Longrightarrow> DecodeRune s = (r, w) \<Longrightarrow> r = RuneError \<longrightarrow> w \<noteq> 1 \<Longrightarrow> of_char (hd s) < (128::nat) \<or> 1 < w"
  by (cases s) (auto simp: DecodeRune_def Let_def split: list.splits if_splits)

lemma lex_plain:
  assumes "DecodeRune s = (r, w)" and "s \<noteq> []" and "32 \<le> r" and "r \<noteq> 34" and "r \<noteq> 92" and "of_char (hd s) < (128::nat) \<or> 1 < w"
  shows "lex_string (take w s @ t) = prepend (EncodeRune r) (lex_string t)"
proof -
  obtain b s' where s: "s = b # s'" using assms(2) by (cases s) auto
  show ?thesis
  proof (cases "of_char b < (128::nat)")
    case True
    then have "r = of_char b" "w = 1" using assms(1) by (simp_all add: s DecodeRune_ascii)
    moreover have "b \<noteq> CHR 0x22" "b \<noteq> CHR 0x5C" using assms(4,5) \<open>r = of_char b\<close> by auto
    ultimately show ?thesis using assms(3) True by (simp add: s lex_string.simps(2) DecodeRune_ascii)
  next
    case False
    then have w: "1 < w" using assms(6) by (simp add: s)
    have "w \<le> length s" using DecodeRune_width [OF assms(2)] assms(1) by simp
    moreover have "take w s = b # take (w - 1) s'" using w by (cases w) (simp_all add: s)
    moreover have "b \<noteq> CHR 0x22" "b \<noteq> CHR 0x5C" "\<not> of_char b < (32::nat)" using False by auto
    ultimately show ?thesis
      using DecodeRune_own_bytes [OF assms(1) w, of t] by (simp add: s lex_string.simps(2))
  qed
qed

lemma lex_u:
  assumes "hex4 [a, b, c, d] = Some r" and "r < 0xD800 \<or> 0xE000 \<le> r"
  shows "lex_string (CHR 0x5C # CHR ''u'' # a # b # c # d # t) = prepend (EncodeRune r) (lex_string t)"
  using assms by (auto simp: lex_string.simps(2) paired_def high_surrogate_def split: if_splits)

lemma lex_u00:
  assumes "r < 128"
  shows "lex_string (CHR 0x5C # ''u00'' @ [hex_lower (r div 16), hex_lower (r mod 16)] @ t) = prepend (EncodeRune r) (lex_string t)"
proof -
  have "ishex (CHR ''0'') \<and> unhex (CHR ''0'') = 0" by (simp add: ishex_def unhex_def is_digit_def byte_in_def)
  then have "hex4 [CHR ''0'', CHR ''0'', hex_lower (r div 16), hex_lower (r mod 16)] = Some r"
    using assms hex_lower_round_trip [of "r div 16"] hex_lower_round_trip [of "r mod 16"] by simp
  then show ?thesis using lex_u assms by simp
qed

lemma lex_simple:
  "lex_string (CHR 0x5C # CHR 0x22 # t) = prepend (EncodeRune 34) (lex_string t)"
  "lex_string (CHR 0x5C # CHR 0x5C # t) = prepend (EncodeRune 92) (lex_string t)"
  "lex_string (CHR 0x5C # CHR ''b'' # t) = prepend (EncodeRune 8) (lex_string t)"
  "lex_string (CHR 0x5C # CHR ''f'' # t) = prepend (EncodeRune 12) (lex_string t)"
  "lex_string (CHR 0x5C # CHR ''n'' # t) = prepend (EncodeRune 10) (lex_string t)"
  "lex_string (CHR 0x5C # CHR ''r'' # t) = prepend (EncodeRune 13) (lex_string t)"
  "lex_string (CHR 0x5C # CHR ''t'' # t) = prepend (EncodeRune 9) (lex_string t)"
  by (simp_all add: lex_string.simps(2) simple_escape_def EncodeRune_ascii char_of_def bit_0)

lemma lex_escaped:
  assumes "s \<noteq> []" and "DecodeRune s = (r, w)"
  shows "lex_string (json_escape_chunk (r, take w s) @ t) = prepend (EncodeRune r) (lex_string t)"
proof -
  have short: "length (take w s) = w" using DecodeRune_width [OF assms(1)] assms(2) by simp
  let ?simple = "r \<in> {34, 92, 8, 12, 10, 13, 9}" and ?ctl = "r < 32 \<or> r = 60 \<or> r = 62 \<or> r = 38"
    and ?bad = "r = RuneError \<and> w = 1" and ?sep = "r = 0x2028 \<or> r = 0x2029"
  consider ?simple | "\<not> ?simple" ?ctl | "\<not> ?simple" "\<not> ?ctl" ?bad | ?sep
    | "\<not> ?simple" "\<not> ?ctl" "\<not> ?bad" "\<not> ?sep"
    by blast
  then show ?thesis
  proof cases
    case 1
    then show ?thesis
      unfolding insert_iff empty_iff json_escape_chunk_def Let_def prod.case
      by (elim disjE FalseE) (simp_all add: lex_simple)
  next
    case 2
    then have "json_escape_chunk (r, take w s) = CHR 0x5C # ''u00'' @ [hex_lower (r div 16), hex_lower (r mod 16)]"
      by (simp add: json_escape_chunk_def)
    then show ?thesis using lex_u00 [of r t] 2(2) by fastforce
  next
    case 3
    have "hex4 ''fffd'' = Some RuneError"
      by (simp add: ishex_def unhex_def is_digit_def byte_in_def RuneError_def)
    from lex_u [OF this] 3 short show ?thesis by (simp add: json_escape_chunk_def RuneError_def)
  next
    case 4
    have "hex4 ''2028'' = Some 0x2028" "hex4 ''2029'' = Some 0x2029"
      by (simp_all add: ishex_def unhex_def is_digit_def byte_in_def)
    from this [THEN lex_u] 4 show ?thesis by (auto simp: json_escape_chunk_def RuneError_def)
  next
    case 5
    then have "json_escape_chunk (r, take w s) = take w s" using short by (auto simp: json_escape_chunk_def)
    moreover have "of_char (hd s) < (128::nat) \<or> 1 < w" using 5(3) by (intro decoded_width [OF assms]) blast
    ultimately show ?thesis using lex_plain [OF assms(2,1)] 5(1,2) by simp
  qed
qed

lemma lex_json_string:
  "lex_string (concat (map json_escape_chunk (chunks s)) @ CHR 0x22 # t) = Some (concat (map EncodeRune (runes s)), t)"
proof (induction s rule: chunks.induct)
  case 1
  then show ?case by (simp add: lex_string.simps(2) runes_def)
next
  case (2 c s)
  obtain r w where rw: "DecodeRune (c # s) = (r, w)" by fastforce
  have "lex_string (json_escape_chunk (r, take w (c # s)) @ concat (map json_escape_chunk (chunks (drop (w - 1) s))) @ CHR 0x22 # t) =
      prepend (EncodeRune r) (Some (concat (map EncodeRune (runes (drop (w - 1) s))), t))"
    using lex_escaped [OF _ rw] "2.IH" [OF rw [symmetric] refl] by simp
  then show ?case using rw by (simp add: runes_def prepend_def)
qed

lemma tokens_string:
  "json_tokens (json_string s @ t) = map_option ((#) (TStr (concat (map EncodeRune (runes s))))) (json_tokens t)"
  using lex_json_string [of s t] by (simp add: json_string_def json_tokens.simps(2) json_space_def json_punct_def)


lemma runes_url: "concat (map EncodeRune (runes s)) = s" if "is_ascii s"
proof -
  have "concat (map EncodeRune (map of_char s)) = s"
    using that by (induction s) (auto simp: EncodeRune_ascii)
  then show ?thesis using that by (simp add: runes_def chunks_ascii comp_def)
qed

lemma payload_tokens:
  "json_tokens (marshal_reverseRequest \<lparr>rq_URL = url, rq_MaxResults = reverseMaxResults\<rparr>) =
     Some [TPunct (CHR ''{''), TStr ''url'', TPunct (CHR '':''), TStr (concat (map EncodeRune (runes url))), TPunct (CHR '',''),
       TStr ''max_results'', TPunct (CHR '':''), TNum ''10'', TPunct (CHR ''}'')]"
proof -
  have p: "json_tokens (c # s) = map_option ((#) (TPunct c)) (json_tokens s)" if "json_punct c" for c s
    using that by (auto simp: json_tokens.simps(2) json_punct_def json_space_def)
  have n: "json_tokens (show_int reverseMaxResults @ ''}'') = Some [TNum ''10'', TPunct (CHR ''}'')]"
    by code_simp
  show ?thesis
    by (simp add: marshal_reverseRequest_def tokens_string p json_punct_def n runes_url)
qed

end
