(* ===== verification/Pipeline.thy ===== *)
theory Pipeline
  imports Assessment Classify Reverse
begin

text \<open>
  validate_pipeline.go and \<^verbatim>\<open>downloadForValidation\<close> of dedup.go, one goroutine at a time: the
  stages a candidate goes through, over the state the goroutines of a call share. The theory
  \<open>Pipeline_Machine\<close> interleaves them.
\<close>

section \<open>The shared state\<close>

text \<open>
  The validated slice, the hashes of the dedup filter, the store behind the cache and the
  callbacks made so far, oldest first.
\<close>

record 'c shared =
  validated :: "ImageCandidate list"
  hashes :: dedupFilter
  store :: 'c
  calls :: "event list"

definition emit :: "event list \<Rightarrow> 'c shared \<Rightarrow> 'c shared" where
  "emit evs sh = sh\<lparr>calls := calls sh @ evs\<rparr>"

text \<open>The deferred function of \<^verbatim>\<open>validateOne\<close>: a panic ends the candidate and is reported.\<close>

definition recovered :: "'c Config \<Rightarrow> 'c shared \<Rightarrow> 'c shared" where
  "recovered cfg sh = emit (if cfg_OnPanic cfg then [Panicked ''imageValidation''] else []) sh"

section \<open>Stages\<close>

definition downloadForValidation ::
  "runtime \<Rightarrow> 'c Config \<Rightarrow> string \<Rightarrow> (bytes \<times> string \<times> image option) outcome" where
  "downloadForValidation rt cfg url =
     (case Download rt cfg url zero_DownloadOpts of
        None \<Rightarrow> Returns ([], '''', None)
      | Some r \<Rightarrow>
         (case rt_Decode rt (dr_Data r) of
            Panics \<Rightarrow> Panics
          | Returns img \<Rightarrow> Returns (dr_Data r, dr_MIMEType r, img)))"

definition isBlockedByExtraDomains :: "runtime \<Rightarrow> 'c Config \<Rightarrow> ImageCandidate \<Rightarrow> bool \<times> event list" where
  "isBlockedByExtraDomains rt cfg cand =
     (if cfg_ExtraBlockedDomains cfg = [] then (False, [])
      else if CheckLicenseWith (rt_unicode rt) (ImgURL cand) (Source cand) (cfg_ExtraBlockedDomains cfg) []
              \<noteq> LicenseBlocked then (False, [])
      else (True, emitClassification cfg (ImgURL cand) ClassStock (Fin 0) ''license_assessment''))"

definition appendValidated :: "ImageCandidate \<Rightarrow> int \<Rightarrow> 'c shared \<Rightarrow> 'c shared" where
  "appendValidated cand maxResults sh =
     (if int (length (validated sh)) < maxResults then sh\<lparr>validated := validated sh @ [cand]\<rparr> else sh)"

text \<open>The verdict \<^verbatim>\<open>assessAndAccept\<close> acts on.\<close>

definition verdict_on :: "runtime \<Rightarrow> 'c Config \<Rightarrow> ImageCandidate \<Rightarrow> bytes \<Rightarrow> ImageLicense" where
  "verdict_on rt cfg cand data =
     as_License (AssessLicense (rt_unicode rt) cfg cand (ExtractImageMetadata (rt_imagemeta rt) data))"

text \<open>The returned pair is (accepted, done).\<close>

definition assessAndAccept ::
  "runtime \<Rightarrow> 'c Config \<Rightarrow> ImageCandidate \<Rightarrow> bytes \<Rightarrow> int \<Rightarrow> 'c shared \<Rightarrow> (bool \<times> bool) \<times> 'c shared" where
  "assessAndAccept rt cfg cand data maxResults sh =
     (case verdict_on rt cfg cand data of
        LicenseBlocked \<Rightarrow>
          ((False, True), emit (emitClassification cfg (ImgURL cand) ClassStock (Fin 0) ''license_assessment'') sh)
      | LicenseSafe \<Rightarrow>
          ((True, True), appendValidated cand maxResults
             (emit (emitClassification cfg (ImgURL cand) ClassPhoto (Fin 1) ''license_assessment'') sh))
      | LicenseUnknown \<Rightarrow> ((False, False), sh))"

definition acceptable_class :: "ClassificationResult \<Rightarrow> bool" where
  "acceptable_class r \<longleftrightarrow> Class r = ClassPhoto \<or> Class r = ''''"

text \<open>The stages from the dedup test on, on the downloaded data.\<close>

definition validate_data ::
  "runtime \<Rightarrow> 'c Config \<Rightarrow> ImageCandidate \<Rightarrow> int \<Rightarrow> bytes \<Rightarrow> string \<Rightarrow> 'c shared \<Rightarrow> 'c shared" where
  "validate_data rt cfg cand maxResults data mimeType sh =
     (case assessAndAccept rt cfg cand data maxResults sh of
        ((accepted, done), sh1) \<Rightarrow>
          if done then sh1
          else if accepted then sh1
          else if IsStock (ReverseCheck rt cfg (ImgURL cand)) then
            emit (emitClassification cfg (ImgURL cand) ClassStock (Fin 0) ''reverse_stock'') sh1
          else (case classifyPredownloaded rt cfg (ImgURL cand) data mimeType (store sh1) of
              (st, evs, Panics) \<Rightarrow> recovered cfg (emit evs (sh1\<lparr>store := st\<rparr>))
            | (st, evs, Returns r) \<Rightarrow>
                if \<not> acceptable_class r then emit evs (sh1\<lparr>store := st\<rparr>)
                else appendValidated cand maxResults (emit evs (sh1\<lparr>store := st\<rparr>))))"

definition validateOne ::
  "runtime \<Rightarrow> 'c Config \<Rightarrow> ImageCandidate \<Rightarrow> int \<Rightarrow> 'c shared \<Rightarrow> 'c shared" where
  "validateOne rt cfg cand maxResults sh =
     (if \<not> ValidateImageURL rt cfg (ImgURL cand) then sh
      else (case isBlockedByExtraDomains rt cfg cand of
          (True, evs) \<Rightarrow> emit evs sh
        | (False, _) \<Rightarrow>
           (case downloadForValidation rt cfg (ImgURL cand) of
              Panics \<Rightarrow> recovered cfg sh
            | Returns (data, mimeType, None) \<Rightarrow> validate_data rt cfg cand maxResults data mimeType sh
            | Returns (data, mimeType, Some img) \<Rightarrow>
               (case isDuplicate (rt_gray rt) (hashes sh) (Some img) of
                  (True, hs) \<Rightarrow> sh\<lparr>hashes := hs\<rparr>
                | (False, hs) \<Rightarrow> validate_data rt cfg cand maxResults data mimeType (sh\<lparr>hashes := hs\<rparr>)))))"

text \<open>
  The loop of \<^verbatim>\<open>validateCandidates\<close> when every goroutine finishes before the next check of
  \<^verbatim>\<open>enough\<close>: one of the schedules of the machine.
\<close>

fun validate_seq :: "runtime \<Rightarrow> 'c Config \<Rightarrow> int \<Rightarrow> ImageCandidate list \<Rightarrow> 'c shared \<Rightarrow> 'c shared" where
  "validate_seq rt cfg maxResults [] sh = sh"
| "validate_seq rt cfg maxResults (c # cs) sh =
     (if int (length (validated sh)) \<ge> maxResults then sh
      else validate_seq rt cfg maxResults cs (validateOne rt cfg c maxResults sh))"

definition fresh :: "'c \<Rightarrow> event list \<Rightarrow> 'c shared" where
  "fresh st evs = \<lparr>validated = [], hashes = [], store = st, calls = evs\<rparr>"

section \<open>What a candidate must pass\<close>

text \<open>
  The checks whose outcome the candidate alone decides: everything before the vision model.
\<close>

definition downloaded :: "runtime \<Rightarrow> 'c Config \<Rightarrow> ImageCandidate \<Rightarrow> bytes \<times> string \<times> image option" where
  "downloaded rt cfg cand =
     (case downloadForValidation rt cfg (ImgURL cand) of Returns d \<Rightarrow> d | Panics \<Rightarrow> ([], '''', None))"

definition passes_checks :: "runtime \<Rightarrow> 'c Config \<Rightarrow> ImageCandidate \<Rightarrow> bool" where
  "passes_checks rt cfg cand \<longleftrightarrow>
     ValidateImageURL rt cfg (ImgURL cand)
     \<and> \<not> fst (isBlockedByExtraDomains rt cfg cand)
     \<and> downloadForValidation rt cfg (ImgURL cand) \<noteq> Panics
     \<and> (let v = verdict_on rt cfg cand (fst (downloaded rt cfg cand)) in
        v = LicenseSafe \<or> v = LicenseUnknown \<and> \<not> IsStock (ReverseCheck rt cfg (ImgURL cand)))"

lemma emit_simps [simp]:
  "validated (emit evs sh) = validated sh" "hashes (emit evs sh) = hashes sh"
  "store (emit evs sh) = store sh" "calls (emit evs sh) = calls sh @ evs"
  by (simp_all add: emit_def)

lemma emit_Nil [simp]: "emit [] sh = sh"
  by (simp add: emit_def)

lemma recovered_simps [simp]:
  "validated (recovered cfg sh) = validated sh" "hashes (recovered cfg sh) = hashes sh"
  "store (recovered cfg sh) = store sh"
  by (simp_all add: recovered_def)

lemma appendValidated_simps [simp]:
  "hashes (appendValidated c m sh) = hashes sh" "store (appendValidated c m sh) = store sh"
  "calls (appendValidated c m sh) = calls sh"
  by (simp_all add: appendValidated_def)

lemma validated_append:
  "validated (appendValidated c m sh) = (if int (length (validated sh)) < m then validated sh @ [c] else validated sh)"
  by (simp add: appendValidated_def)

end
