(* ===== verification/Pipeline_Machine.thy ===== *)
theory Pipeline_Machine
  imports Pipeline
begin

text \<open>
  The goroutines of \<^verbatim>\<open>validateCandidates\<close>: the loop that starts one per candidate until enough
  results are in, the counting semaphore, and the bodies of \<^verbatim>\<open>validateOne\<close> cut at every access to
  shared state (the dedup filter and the result slice under their mutexes, the cache, the
  callbacks) and between the calls that use the network. Any interleaving of these steps is a run of the machine.
\<close>

section \<open>One goroutine\<close>

text \<open>Where a goroutine stands, with the local variables that are live there.\<close>

datatype phase =
    AtSemaphore
  | AtProbe
  | AtDownload
  | AtDedup bytes string image
  | AtAssess bytes string
  | AtReverse bytes string
  | AtCache bytes string
  | AtCall bytes string
  | AtStore ClassificationResult
  | AtJudge ClassificationResult
  | AtAppend
  | AtRelease
  | Exited

text \<open>One step between two accesses to shared state, for a goroutine that holds a slot.\<close>

fun work :: "runtime \<Rightarrow> 'c Config \<Rightarrow> int \<Rightarrow> ImageCandidate \<Rightarrow> phase \<Rightarrow> 'c shared \<Rightarrow> phase \<times> 'c shared" where
  "work rt cfg maxResults cand AtProbe sh =
     (if \<not> ValidateImageURL rt cfg (ImgURL cand) then (AtRelease, sh)
      else (case isBlockedByExtraDomains rt cfg cand of
          (True, evs) \<Rightarrow> (AtRelease, emit evs sh)
        | (False, _) \<Rightarrow> (AtDownload, sh)))"
| "work rt cfg maxResults cand AtDownload sh =
     (case downloadForValidation rt cfg (ImgURL cand) of
        Panics \<Rightarrow> (AtRelease, recovered cfg sh)
      | Returns (data, mimeType, None) \<Rightarrow> (AtAssess data mimeType, sh)
      | Returns (data, mimeType, Some img) \<Rightarrow> (AtDedup data mimeType img, sh))"
| "work rt cfg maxResults cand (AtDedup data mimeType img) sh =
     (case isDuplicate (rt_gray rt) (hashes sh) (Some img) of
        (True, hs) \<Rightarrow> (AtRelease, sh\<lparr>hashes := hs\<rparr>)
      | (False, hs) \<Rightarrow> (AtAssess data mimeType, sh\<lparr>hashes := hs\<rparr>))"
| "work rt cfg maxResults cand (AtAssess data mimeType) sh =
     (case verdict_on rt cfg cand data of
        LicenseBlocked \<Rightarrow>
          (AtRelease, emit (emitClassification cfg (ImgURL cand) ClassStock (Fin 0) ''license_assessment'') sh)
      | LicenseSafe \<Rightarrow>
          (AtAppend, emit (emitClassification cfg (ImgURL cand) ClassPhoto (Fin 1) ''license_assessment'') sh)
      | LicenseUnknown \<Rightarrow> (AtReverse data mimeType, sh))"
| "work rt cfg maxResults cand (AtReverse data mimeType) sh =
     (if IsStock (ReverseCheck rt cfg (ImgURL cand)) then
        (AtRelease, emit (emitClassification cfg (ImgURL cand) ClassStock (Fin 0) ''reverse_stock'') sh)
      else (AtCache data mimeType, sh))"
| "work rt cfg maxResults cand (AtCache data mimeType) sh =
     (if cfg_Classifier cfg = None then (AtJudge no_result, sh)
      else (case cfg_Cache cfg of
          None \<Rightarrow> (AtCall data mimeType, sh)
        | Some cache \<Rightarrow>
           (case cache_Get cache (store sh) (cache_Key cache ''vision_cls_v2'' (ImgURL cand)) of
              (Some cached, st) \<Rightarrow> (AtJudge cached, sh\<lparr>store := st\<rparr>)
            | (None, st) \<Rightarrow> (AtCall data mimeType, sh\<lparr>store := st\<rparr>))))"
| "work rt cfg maxResults cand (AtCall data mimeType) sh =
     (case classifyFromData rt (defaults rt cfg) (ImgURL cand) data mimeType of
        (evs, Panics) \<Rightarrow> (AtRelease, recovered cfg (emit evs sh))
      | (evs, Returns r) \<Rightarrow> (if cfg_Cache cfg = None then AtJudge r else AtStore r, emit evs sh))"
| "work rt cfg maxResults cand (AtStore r) sh =
     (case cfg_Cache cfg of
        None \<Rightarrow> (AtJudge r, sh)
      | Some cache \<Rightarrow>
          (AtJudge r, sh\<lparr>store := cache_Set cache (store sh) (cache_Key cache ''vision_cls_v2'' (ImgURL cand)) r\<rparr>))"
| "work rt cfg maxResults cand (AtJudge r) sh =
     (if \<not> acceptable_class r then (AtRelease, sh) else (AtAppend, sh))"
| "work rt cfg maxResults cand AtAppend sh = (AtRelease, appendValidated cand maxResults sh)"
| "work rt cfg maxResults cand AtSemaphore sh = (AtSemaphore, sh)"
| "work rt cfg maxResults cand AtRelease sh = (AtRelease, sh)"
| "work rt cfg maxResults cand Exited sh = (Exited, sh)"

definition working :: "phase \<Rightarrow> bool" where
  "working ph \<longleftrightarrow> ph \<notin> {AtSemaphore, AtRelease, Exited}"

text \<open>A goroutine holds a slot of the semaphore from the send to the receive.\<close>

definition holding :: "phase \<Rightarrow> bool" where
  "holding ph \<longleftrightarrow> ph \<noteq> AtSemaphore \<and> ph \<noteq> Exited"

section \<open>The machine\<close>

datatype main_phase = Spawning | Waiting | Finished

record 'c machine =
  main :: main_phase
  todo :: "ImageCandidate list"
  threads :: "(ImageCandidate \<times> phase) list"
  slots :: nat
  mem :: "'c shared"

definition validationSemaphore :: nat where
  "validationSemaphore = 3"

definition start :: "ImageCandidate list \<Rightarrow> 'c \<Rightarrow> event list \<Rightarrow> 'c machine" where
  "start toValidate st evs =
     \<lparr>main = Spawning, todo = toValidate, threads = [], slots = 0, mem = fresh st evs\<rparr>"

inductive machine_step :: "runtime \<Rightarrow> 'c Config \<Rightarrow> int \<Rightarrow> 'c machine \<Rightarrow> 'c machine \<Rightarrow> bool"
  for rt :: runtime and cfg :: "'c Config" and maxResults :: int where
  enough: "main m = Spawning \<Longrightarrow> todo m = c # cs \<Longrightarrow> int (length (validated (mem m))) \<ge> maxResults \<Longrightarrow>
     machine_step rt cfg maxResults m (m\<lparr>main := Waiting\<rparr>)"
| spawn: "main m = Spawning \<Longrightarrow> todo m = c # cs \<Longrightarrow> int (length (validated (mem m))) < maxResults \<Longrightarrow>
     machine_step rt cfg maxResults m (m\<lparr>todo := cs, threads := threads m @ [(c, AtSemaphore)]\<rparr>)"
| drained: "main m = Spawning \<Longrightarrow> todo m = [] \<Longrightarrow>
     machine_step rt cfg maxResults m (m\<lparr>main := Waiting\<rparr>)"
| acquire: "i < length (threads m) \<Longrightarrow> threads m ! i = (c, AtSemaphore) \<Longrightarrow> slots m < validationSemaphore \<Longrightarrow>
     machine_step rt cfg maxResults m (m\<lparr>threads := (threads m)[i := (c, AtProbe)], slots := Suc (slots m)\<rparr>)"
| run: "i < length (threads m) \<Longrightarrow> threads m ! i = (c, ph) \<Longrightarrow> working ph \<Longrightarrow>
     work rt cfg maxResults c ph (mem m) = (ph', sh') \<Longrightarrow>
     machine_step rt cfg maxResults m (m\<lparr>threads := (threads m)[i := (c, ph')], mem := sh'\<rparr>)"
| release: "i < length (threads m) \<Longrightarrow> threads m ! i = (c, AtRelease) \<Longrightarrow>
     machine_step rt cfg maxResults m (m\<lparr>threads := (threads m)[i := (c, Exited)], slots := slots m - 1\<rparr>)"
| join: "main m = Waiting \<Longrightarrow> list_all (\<lambda>t. snd t = Exited) (threads m) \<Longrightarrow>
     machine_step rt cfg maxResults m (m\<lparr>main := Finished\<rparr>)"

inductive_cases machine_stepE: "machine_step rt cfg maxResults m m'"

definition runs :: "runtime \<Rightarrow> 'c Config \<Rightarrow> int \<Rightarrow> 'c machine \<Rightarrow> 'c machine \<Rightarrow> bool" where
  "runs rt cfg maxResults = (machine_step rt cfg maxResults)\<^sup>*\<^sup>*"

text \<open>\<open>out\<close> is what a call of \<^verbatim>\<open>validateCandidates\<close> may return.\<close>

definition validateCandidates ::
  "runtime \<Rightarrow> 'c Config \<Rightarrow> ImageCandidate list \<Rightarrow> int \<Rightarrow> 'c \<Rightarrow> event list \<Rightarrow> 'c shared \<Rightarrow> bool" where
  "validateCandidates rt cfg toValidate maxResults st evs sh \<longleftrightarrow>
     (\<exists>m. runs rt cfg maxResults (start toValidate st evs) m \<and> main m = Finished \<and> mem m = sh)"

section \<open>Invariants of a goroutine's steps\<close>

text \<open>
  The argument every safety property of the machine follows: a predicate on the shared state
  and an assertion for every goroutine, both kept by a step of any goroutine; the assertion
  of one goroutine must survive the steps of the others.
\<close>

locale thread_invariant =
  fixes rt :: runtime and cfg :: "'c Config" and maxResults :: int
    and Inv :: "'c shared \<Rightarrow> bool" and At :: "'c shared \<Rightarrow> ImageCandidate \<Rightarrow> phase \<Rightarrow> bool"
    and Adm :: "ImageCandidate \<Rightarrow> bool"
  assumes enter: "Adm c \<Longrightarrow> At sh c AtSemaphore" "At sh c AtSemaphore \<Longrightarrow> At sh c AtProbe"
    and leave: "At sh c AtRelease \<Longrightarrow> At sh c Exited"
    and keeps: "Inv sh \<Longrightarrow> At sh c ph \<Longrightarrow> working ph \<Longrightarrow> work rt cfg maxResults c ph sh = (ph', sh') \<Longrightarrow>
           Inv sh' \<and> At sh' c ph'"
    and stable: "Inv sh \<Longrightarrow> At sh c ph \<Longrightarrow> working ph \<Longrightarrow> work rt cfg maxResults c ph sh = (ph', sh') \<Longrightarrow>
           At sh d q \<Longrightarrow> At sh' d q"
begin

definition ok :: "'c machine \<Rightarrow> bool" where
  "ok m \<longleftrightarrow> Inv (mem m) \<and> list_all (\<lambda>(c, ph). At (mem m) c ph) (threads m) \<and> list_all Adm (todo m)"

lemma at_thread: "ok m \<Longrightarrow> i < length (threads m) \<Longrightarrow> threads m ! i = (c, ph) \<Longrightarrow> At (mem m) c ph"
  by (auto simp: ok_def list_all_length)

lemma step_ok: "machine_step rt cfg maxResults m m' \<Longrightarrow> ok m \<Longrightarrow> ok m'"
proof (induction rule: machine_step.induct)
  case (spawn m c cs)
  then show ?case by (auto simp: ok_def intro: enter(1))
next
  case (acquire i m c)
  then have "At (mem m) c AtProbe" using at_thread enter(2) by blast
  then show ?case using acquire by (simp add: ok_def list_all_update)
next
  case (run i m c ph ph' sh')
  have a: "At (mem m) c ph" using at_thread [OF run(5,1,2)] .
  have i: "Inv (mem m)" using run(5) by (simp add: ok_def)
  have k: "Inv sh'" "At sh' c ph'" using keeps [OF i a run(3,4)] by simp_all
  have "list_all (\<lambda>(c, ph). At (mem m) c ph) (threads m)" using run(5) by (simp add: ok_def)
  then have "list_all (\<lambda>(c, ph). At sh' c ph) (threads m)"
    using stable [OF i a run(3,4)] by (auto simp: list_all_iff)
  then show ?case using k run(5) by (simp add: ok_def list_all_update)
next
  case (release i m c)
  then have "At (mem m) c Exited" using at_thread leave by blast
  then show ?case using release by (simp add: ok_def list_all_update)
qed (auto simp: ok_def)

lemma runs_ok:
  assumes "runs rt cfg maxResults m m'" and "ok m"
  shows "ok m'"
  using assms unfolding runs_def by (induction rule: rtranclp_induct) (auto intro: step_ok)

lemma start_ok: "Inv (fresh st evs) \<Longrightarrow> list_all Adm cs \<Longrightarrow> ok (start cs st evs)"
  by (simp add: ok_def start_def)

lemma reached:
  assumes "Inv (fresh st evs)" and "list_all Adm cs" and "runs rt cfg maxResults (start cs st evs) m"
  shows "Inv (mem m) \<and> list_all (\<lambda>(c, ph). At (mem m) c ph) (threads m)"
  using runs_ok [OF assms(3) start_ok [OF assms(1,2)]] by (simp add: ok_def)

end

section \<open>How a step changes the shared state\<close>

lemma work_validated:
  "work rt cfg maxResults c ph sh = (ph', sh') \<Longrightarrow>
     validated sh' = validated sh
     \<or> ph = AtAppend \<and> int (length (validated sh)) < maxResults \<and> validated sh' = validated sh @ [c]"
  by (cases ph) (auto simp: validated_append split: if_splits prod.splits outcome.splits option.splits
      ImageLicense.splits bool.splits)

lemma work_hashes:
  "work rt cfg maxResults c ph sh = (ph', sh') \<Longrightarrow>
     hashes sh' = hashes sh
     \<or> (\<exists>img. hashes sh' = snd (isDuplicate (rt_gray rt) (hashes sh) (Some img)))"
proof (cases ph)
  case (AtDedup data mimeType img)
  assume "work rt cfg maxResults c ph sh = (ph', sh')"
  with AtDedup have "hashes sh' = snd (isDuplicate (rt_gray rt) (hashes sh) (Some img))"
    by (auto split: prod.splits bool.splits)
  then show ?thesis by blast
qed (auto split: if_splits prod.splits outcome.splits option.splits ImageLicense.splits bool.splits)

section \<open>The result is never too long\<close>

interpretation bounded: thread_invariant rt cfg maxResults
    "\<lambda>sh. int (length (validated sh)) \<le> max 0 maxResults" "\<lambda>sh c ph. True" "\<lambda>c. True"
  for rt cfg maxResults
  by unfold_locales (auto dest: work_validated)

section \<open>The dedup filter under interleaving\<close>

interpretation separated: thread_invariant rt cfg maxResults
    "\<lambda>sh. sorted_wrt (\<lambda>a b. \<not> close_to a b) (hashes sh)" "\<lambda>sh c ph. True" "\<lambda>c. True"
  for rt cfg maxResults
  by unfold_locales (auto dest!: work_hashes dest: dedup.offer_apart [unfolded dedup.apart_def])

section \<open>Every result passed every check\<close>

definition model_accepts :: "runtime \<Rightarrow> 'c Config \<Rightarrow> ImageCandidate \<Rightarrow> bool" where
  "model_accepts rt cfg cand \<longleftrightarrow>
     cfg_Classifier cfg = None
     \<or> (case downloaded rt cfg cand of (data, mimeType, _) \<Rightarrow>
          (case snd (classifyFromData rt (defaults rt cfg) (ImgURL cand) data mimeType) of
             Panics \<Rightarrow> False | Returns r \<Rightarrow> acceptable_class r))"

text \<open>With no cache the whole decision is a function of the candidate, the dedup test apart.\<close>

definition accepts :: "runtime \<Rightarrow> 'c Config \<Rightarrow> ImageCandidate \<Rightarrow> bool" where
  "accepts rt cfg cand \<longleftrightarrow>
     passes_checks rt cfg cand
     \<and> (verdict_on rt cfg cand (fst (downloaded rt cfg cand)) = LicenseSafe \<or> model_accepts rt cfg cand)"

text \<open>
  With a cache the class may come from it instead of the model: at some moment the cache held an
  acceptable one for the image.
\<close>

definition vouched :: "'c Config \<Rightarrow> ImageCandidate \<Rightarrow> bool" where
  "vouched cfg cand \<longleftrightarrow>
     (\<exists>cache st r. cfg_Cache cfg = Some cache \<and> acceptable_class r \<and>
        fst (cache_Get cache st (cache_Key cache ''vision_cls_v2'' (ImgURL cand))) = Some r)"

definition endorsed :: "runtime \<Rightarrow> 'c Config \<Rightarrow> ImageCandidate \<Rightarrow> bool" where
  "endorsed rt cfg cand \<longleftrightarrow>
     passes_checks rt cfg cand
     \<and> (verdict_on rt cfg cand (fst (downloaded rt cfg cand)) = LicenseSafe \<or> model_accepts rt cfg cand \<or> vouched cfg cand)"

lemma vouchedI:
  "cfg_Cache cfg = Some cache \<Longrightarrow> cache_Get cache st (cache_Key cache ''vision_cls_v2'' (ImgURL c)) = (Some r, st') \<Longrightarrow>
     acceptable_class r \<Longrightarrow> vouched cfg c"
  unfolding vouched_def by (metis fst_conv)

lemma endorsed_accepts: "endorsed rt cfg c \<Longrightarrow> cfg_Cache cfg = None \<Longrightarrow> accepts rt cfg c"
  by (auto simp: endorsed_def accepts_def vouched_def)

lemma endorsed_passes: "endorsed rt cfg c \<Longrightarrow> passes_checks rt cfg c"
  by (simp add: endorsed_def)

definition probed :: "runtime \<Rightarrow> 'c Config \<Rightarrow> ImageCandidate \<Rightarrow> bytes \<Rightarrow> string \<Rightarrow> bool" where
  "probed rt cfg c data mimeType \<longleftrightarrow>
     ValidateImageURL rt cfg (ImgURL c) \<and> \<not> fst (isBlockedByExtraDomains rt cfg c)
     \<and> (\<exists>img. downloadForValidation rt cfg (ImgURL c) = Returns (data, mimeType, img))"

definition undecided :: "runtime \<Rightarrow> 'c Config \<Rightarrow> ImageCandidate \<Rightarrow> bytes \<Rightarrow> string \<Rightarrow> bool" where
  "undecided rt cfg c data mimeType \<longleftrightarrow>
     probed rt cfg c data mimeType \<and> verdict_on rt cfg c data = LicenseUnknown"

definition unlaundered :: "runtime \<Rightarrow> 'c Config \<Rightarrow> ImageCandidate \<Rightarrow> bytes \<Rightarrow> string \<Rightarrow> bool" where
  "unlaundered rt cfg c data mimeType \<longleftrightarrow>
     undecided rt cfg c data mimeType \<and> \<not> IsStock (ReverseCheck rt cfg (ImgURL c))"

text \<open>What is known of a candidate at each point of its goroutine.\<close>

fun phase_ok :: "runtime \<Rightarrow> 'c Config \<Rightarrow> ImageCandidate \<Rightarrow> phase \<Rightarrow> bool" where
  "phase_ok rt cfg c AtDownload =
     (ValidateImageURL rt cfg (ImgURL c) \<and> \<not> fst (isBlockedByExtraDomains rt cfg c))"
| "phase_ok rt cfg c (AtDedup data mimeType img) = probed rt cfg c data mimeType"
| "phase_ok rt cfg c (AtAssess data mimeType) = probed rt cfg c data mimeType"
| "phase_ok rt cfg c (AtReverse data mimeType) = undecided rt cfg c data mimeType"
| "phase_ok rt cfg c (AtCache data mimeType) = unlaundered rt cfg c data mimeType"
| "phase_ok rt cfg c (AtCall data mimeType) =
     (unlaundered rt cfg c data mimeType \<and> cfg_Classifier cfg \<noteq> None)"
| "phase_ok rt cfg c (AtStore r) =
     (passes_checks rt cfg c \<and> cfg_Cache cfg \<noteq> None \<and> acceptable_class r = model_accepts rt cfg c)"
| "phase_ok rt cfg c (AtJudge r) =
     (passes_checks rt cfg c \<and> (acceptable_class r = model_accepts rt cfg c \<or> cfg_Cache cfg \<noteq> None \<and> (acceptable_class r \<longrightarrow> vouched cfg c)))"
| "phase_ok rt cfg c AtAppend = endorsed rt cfg c"
| "phase_ok rt cfg c ph = True"

lemma probed_downloaded:
  "probed rt cfg c data mimeType \<Longrightarrow> fst (downloaded rt cfg c) = data \<and> fst (snd (downloaded rt cfg c)) = mimeType"
  by (auto simp: probed_def downloaded_def)

lemma unlaundered_passes: "unlaundered rt cfg c data mimeType \<Longrightarrow> passes_checks rt cfg c"
  by (auto simp: unlaundered_def undecided_def passes_checks_def probed_def downloaded_def)

lemma probed_safe_accepts:
  "probed rt cfg c data mimeType \<Longrightarrow> verdict_on rt cfg c data = LicenseSafe \<Longrightarrow>
     endorsed rt cfg c"
  by (auto simp: passes_checks_def probed_def downloaded_def endorsed_def)

lemma unlaundered_model:
  "unlaundered rt cfg c data mimeType \<Longrightarrow> cfg_Classifier cfg \<noteq> None \<Longrightarrow>
     snd (classifyFromData rt (defaults rt cfg) (ImgURL c) data mimeType) = Returns r \<Longrightarrow>
     model_accepts rt cfg c = acceptable_class r"
  using probed_downloaded [of rt cfg c data mimeType]
  by (auto simp: model_accepts_def unlaundered_def undecided_def split: prod.splits)

lemma no_classifier_accepts: "cfg_Classifier cfg = None \<Longrightarrow> model_accepts rt cfg c \<and> acceptable_class no_result"
  by (simp add: model_accepts_def acceptable_class_def no_result_def)

lemma work_phase_ok:
  assumes "phase_ok rt cfg c ph" and "working ph" and "work rt cfg maxResults c ph sh = (ph', sh')"
  shows "phase_ok rt cfg c ph'"
proof (cases ph)
  case AtDownload
  with assms show ?thesis by (auto simp: probed_def split: outcome.splits option.splits)
next
  case (AtAssess data mimeType)
  with assms show ?thesis
    using probed_safe_accepts [of rt cfg c data mimeType]
    by (auto simp: undecided_def split: ImageLicense.splits)
next
  case (AtCache data mimeType)
  with assms show ?thesis
    using unlaundered_passes [of rt cfg c data mimeType] no_classifier_accepts [of cfg rt c]
    by (auto split: if_splits option.splits prod.splits dest: vouchedI)
next
  case (AtCall data mimeType)
  with assms show ?thesis
    using unlaundered_passes [of rt cfg c data mimeType] unlaundered_model [of rt cfg c data mimeType]
    by (auto split: prod.splits outcome.splits)
qed (use assms in \<open>auto simp: unlaundered_def endorsed_def working_def
      split: prod.splits bool.splits if_splits option.splits\<close>)

interpretation sound: thread_invariant rt cfg maxResults
    "\<lambda>sh. \<forall>c \<in> set (validated sh). A c \<and> endorsed rt cfg c"
    "\<lambda>sh c ph. A c \<and> phase_ok rt cfg c ph" "A"
  for rt cfg maxResults A
proof (unfold_locales, goal_cases)
  case (4 sh c ph ph' sh')
  then show ?case using work_phase_ok work_validated [OF 4(4)] by fastforce
qed auto

section \<open>The semaphore\<close>

definition holders :: "'c machine \<Rightarrow> nat" where
  "holders m = length (filter (\<lambda>t. holding (snd t)) (threads m))"

lemma work_keeps_slot: "working ph \<Longrightarrow> work rt cfg maxResults c ph sh = (ph', sh') \<Longrightarrow> holding ph \<and> holding ph'"
  by (cases ph) (auto simp: working_def holding_def split: if_splits prod.splits outcome.splits
      option.splits ImageLicense.splits bool.splits)

lemma step_slots:
  "machine_step rt cfg maxResults m m' \<Longrightarrow> slots m = holders m \<and> slots m \<le> validationSemaphore \<Longrightarrow>
     slots m' = holders m' \<and> slots m' \<le> validationSemaphore"
proof (induction rule: machine_step.induct)
  case (acquire i m c)
  with count_update [OF acquire(1), of "\<lambda>t. holding (snd t)" "(c, AtProbe)"]
  show ?case by (simp add: holders_def holding_def)
next
  case (run i m c ph ph' sh')
  have "holding ph" "holding ph'" using work_keeps_slot [OF run(3,4)] by simp_all
  with run count_update [OF run(1), of "\<lambda>t. holding (snd t)" "(c, ph')"]
  show ?case by (simp add: holders_def)
next
  case (release i m c)
  have "Suc (holders (m\<lparr>threads := (threads m)[i := (c, Exited)]\<rparr>)) = holders m"
    using count_update [OF release(1), of "\<lambda>t. holding (snd t)" "(c, Exited)"] release(2)
    by (simp add: holders_def holding_def)
  moreover have "holders (m\<lparr>threads := (threads m)[i := (c, Exited)], slots := slots m - 1\<rparr>) =
      holders (m\<lparr>threads := (threads m)[i := (c, Exited)]\<rparr>)"
    by (simp add: holders_def)
  ultimately show ?case using release(3) by (auto simp: Suc_diff_le dest: sym)
qed (auto simp: holders_def holding_def)

lemma runs_slots:
  assumes "runs rt cfg maxResults (start cs st evs) m"
  shows "slots m = holders m \<and> slots m \<le> validationSemaphore"
  using assms unfolding runs_def
  by (induction rule: rtranclp_induct) (auto simp: start_def holders_def dest!: step_slots)

section \<open>No deadlock, no divergence\<close>

lemma progress_at:
  assumes "slots m = holders m" and "main m \<noteq> Finished"
  shows "\<exists>m'. machine_step rt cfg maxResults m m'"
proof (cases "main m = Spawning")
  case True
  then show ?thesis
    by (cases "todo m"; cases "int (length (validated (mem m))) < maxResults")
       (force intro: machine_step.drained machine_step.spawn machine_step.enough)+
next
  case False
  with assms(2) have w: "main m = Waiting" by (cases "main m") auto
  show ?thesis
  proof (cases "list_all (\<lambda>t. snd t = Exited) (threads m)")
    case True
    with w show ?thesis by (blast intro: machine_step.join)
  next
    case False
    then obtain i where i: "i < length (threads m)" "snd (threads m ! i) \<noteq> Exited"
      by (auto simp: list_all_length)
    show ?thesis
    proof (cases "\<exists>j < length (threads m). holding (snd (threads m ! j))")
      case True
      then obtain j c ph where j: "j < length (threads m)" "threads m ! j = (c, ph)" "holding ph"
        by (metis prod.collapse)
      obtain ph' sh' where "work rt cfg maxResults c ph (mem m) = (ph', sh')" by fastforce
      then have "working ph \<Longrightarrow> \<exists>m'. machine_step rt cfg maxResults m m'"
        using machine_step.run [OF j(1,2)] by blast
      with j machine_step.release [OF j(1), of c] show ?thesis
        by (cases "ph = AtRelease") (auto simp: working_def holding_def)
    next
      case False
      then have "holders m = 0"
        unfolding holders_def length_0_conv filter_empty_conv by (metis in_set_conv_nth)
      with assms(1) have "slots m < validationSemaphore" by (simp add: validationSemaphore_def)
      moreover have "snd (threads m ! i) = AtSemaphore" using False i by (auto simp: holding_def)
      ultimately show ?thesis using i(1) by (metis machine_step.acquire prod.collapse)
    qed
  qed
qed

lemma progress:
  "runs rt cfg maxResults (start cs st evs) m \<Longrightarrow> main m \<noteq> Finished \<Longrightarrow> \<exists>m'. machine_step rt cfg maxResults m m'"
  by (rule progress_at) (simp_all add: runs_slots)

fun phase_rank :: "phase \<Rightarrow> nat" where
  "phase_rank AtSemaphore = 12"
| "phase_rank AtProbe = 11"
| "phase_rank AtDownload = 10"
| "phase_rank (AtDedup _ _ _) = 9"
| "phase_rank (AtAssess _ _) = 8"
| "phase_rank (AtReverse _ _) = 7"
| "phase_rank (AtCache _ _) = 6"
| "phase_rank (AtCall _ _) = 5"
| "phase_rank (AtStore _) = 4"
| "phase_rank (AtJudge _) = 3"
| "phase_rank AtAppend = 2"
| "phase_rank AtRelease = 1"
| "phase_rank Exited = 0"

fun main_rank :: "main_phase \<Rightarrow> nat" where
  "main_rank Spawning = 2"
| "main_rank Waiting = 1"
| "main_rank Finished = 0"

text \<open>An upper bound on the number of steps still possible.\<close>

definition fuel_left :: "'c machine \<Rightarrow> nat" where
  "fuel_left m = main_rank (main m) + 13 * length (todo m) + sum_list (map (\<lambda>t. phase_rank (snd t)) (threads m))"

lemma work_rank:
  "working ph \<Longrightarrow> work rt cfg maxResults c ph sh = (ph', sh') \<Longrightarrow> phase_rank ph' < phase_rank ph"
  by (cases ph) (auto simp: working_def split: if_splits prod.splits outcome.splits
      option.splits ImageLicense.splits bool.splits)

lemma step_fuel: "machine_step rt cfg maxResults m m' \<Longrightarrow> fuel_left m' < fuel_left m"
proof (induction rule: machine_step.induct)
  case (acquire i m c)
  then show ?case
    using sum_update_less [OF acquire(1), of "\<lambda>t. phase_rank (snd t)" "(c, AtProbe)"] by (simp add: fuel_left_def)
next
  case (run i m c ph ph' sh')
  then show ?case
    using sum_update_less [OF run(1), of "\<lambda>t. phase_rank (snd t)" "(c, ph')"] work_rank [OF run(3,4)]
    by (simp add: fuel_left_def)
next
  case (release i m c)
  then show ?case
    using sum_update_less [OF release(1), of "\<lambda>t. phase_rank (snd t)" "(c, Exited)"] by (simp add: fuel_left_def)
qed (auto simp: fuel_left_def)

lemma relpow_fuel: "(machine_step rt cfg maxResults ^^ n) m m' \<Longrightarrow> n + fuel_left m' \<le> fuel_left m"
proof (induction n arbitrary: m')
  case (Suc n)
  then obtain m1 where "(machine_step rt cfg maxResults ^^ n) m m1" "machine_step rt cfg maxResults m1 m'" by auto
  with Suc.IH [of m1] step_fuel [of rt cfg maxResults m1 m'] show ?case by simp
qed simp

lemma finishes:
  "runs rt cfg maxResults (start cs st evs) m \<Longrightarrow> \<exists>m'. runs rt cfg maxResults m m' \<and> main m' = Finished"
proof (induction m rule: measure_induct_rule [of fuel_left])
  case (less m)
  show ?case
  proof (cases "main m = Finished")
    case True
    then show ?thesis by (auto simp: runs_def)
  next
    case False
    then obtain m1 where m1: "machine_step rt cfg maxResults m m1" using progress [OF less.prems] by auto
    then have "runs rt cfg maxResults (start cs st evs) m1"
      using less.prems unfolding runs_def by (rule rtranclp.rtrancl_into_rtrancl [rotated])
    with less.IH [OF step_fuel [OF m1]] obtain m' where "runs rt cfg maxResults m1 m'" "main m' = Finished" by blast
    with m1 show ?thesis unfolding runs_def by (meson converse_rtranclp_into_rtranclp)
  qed
qed

end
