(* ===== verification/Pipeline_Runs.thy ===== *)
theory Pipeline_Runs
  imports Pipeline_Machine
begin

text \<open>
  What the finished runs of the validation machine return: a selection of the candidates, all
  that qualify unless the limit was reached, and among the possible outcomes the one of the
  sequential loop.
\<close>

section \<open>Where the results come from\<close>

definition settled :: "phase \<Rightarrow> bool" where
  "settled ph \<longleftrightarrow> ph = AtRelease \<or> ph = Exited"

definition settled_cands :: "'c machine \<Rightarrow> ImageCandidate multiset" where
  "settled_cands m = mset (map fst (filter (\<lambda>t. settled (snd t)) (threads m)))"

definition started :: "'c machine \<Rightarrow> ImageCandidate multiset" where
  "started m = mset (map fst (threads m))"

lemma map_fst_update: "i < length xs \<Longrightarrow> xs ! i = (c, q) \<Longrightarrow> map fst (xs[i := (c, p)]) = map fst xs"
  by (metis fst_conv list_update_id map_update nth_map)

lemma mset_filter_update:
  "i < length xs \<Longrightarrow> xs ! i = (c, q) \<Longrightarrow>
     mset (map fst (filter P (xs[i := (c, p)]))) + (if P (c, q) then {#c#} else {#})
     = mset (map fst (filter P xs)) + (if P (c, p) then {#c#} else {#})"
proof (induction xs arbitrary: i)
  case (Cons x xs)
  show ?case
  proof (cases i)
    case 0
    with Cons.prems show ?thesis by simp
  next
    case (Suc j)
    with Cons.IH [of j] Cons.prems show ?thesis by (cases "P x") simp_all
  qed
qed simp

lemma step_started:
  "machine_step rt cfg maxResults m m' \<Longrightarrow> started m' + mset (todo m') = started m + mset (todo m)"
  by (induction rule: machine_step.induct) (simp_all add: started_def map_fst_update)

lemma step_settled:
  "machine_step rt cfg maxResults m m' \<Longrightarrow> mset (validated (mem m)) \<subseteq># settled_cands m \<Longrightarrow>
     mset (validated (mem m')) \<subseteq># settled_cands m'"
proof (induction rule: machine_step.induct)
  case (acquire i m c)
  then show ?case
    using mset_filter_update [OF acquire(1,2), of "\<lambda>t. settled (snd t)" AtProbe]
    by (simp add: settled_cands_def settled_def)
next
  case (run i m c ph ph' sh')
  have e: "settled_cands (m\<lparr>threads := (threads m)[i := (c, ph')], mem := sh'\<rparr>)
      = settled_cands m + (if settled ph' then {#c#} else {#})"
    using mset_filter_update [OF run(1,2), of "\<lambda>t. settled (snd t)" ph'] run(3)
    by (simp add: settled_cands_def settled_def working_def)
  from work_validated [OF run(4)] show ?case
  proof (elim disjE conjE)
    assume "validated sh' = validated (mem m)"
    with run(5) e show ?case by (simp add: subset_mset.add_increasing2)
  next
    assume "ph = AtAppend" and v: "validated sh' = validated (mem m) @ [c]"
    then have "ph' = AtRelease" using run(4) by simp
    with run(5) e v show ?case by (simp add: settled_def)
  qed
next
  case (release i m c)
  then show ?case
    using mset_filter_update [OF release(1,2), of "\<lambda>t. settled (snd t)" Exited]
    by (simp add: settled_cands_def settled_def)
qed (simp_all add: settled_cands_def settled_def)

lemma runs_settled:
  assumes "runs rt cfg maxResults (start cs st evs) m"
  shows "mset (validated (mem m)) \<subseteq># settled_cands m" "started m + mset (todo m) = mset cs"
  using assms unfolding runs_def
  by (induction rule: rtranclp_induct)
     (auto simp: start_def fresh_def settled_cands_def started_def dest: step_settled [unfolded settled_cands_def]
       step_started [unfolded started_def])

lemma settled_started: "settled_cands m \<subseteq># started m"
  unfolding settled_cands_def started_def
  by (metis image_mset_subseteq_mono mset_filter mset_map multiset_filter_subset)

lemma runs_selection:
  assumes "runs rt cfg maxResults (start cs st evs) m"
  shows "mset (validated (mem m)) \<subseteq># mset cs"
  using runs_settled [OF assms] settled_started [of m]
  by (metis mset_subset_eq_add_left subset_mset.order_trans)

section \<open>When a run may stop\<close>

definition stopped_well :: "int \<Rightarrow> 'c machine \<Rightarrow> bool" where
  "stopped_well maxResults m \<longleftrightarrow>
     (main m \<noteq> Spawning \<longrightarrow> todo m = [] \<or> int (length (validated (mem m))) \<ge> maxResults)
     \<and> (main m = Finished \<longrightarrow> list_all (\<lambda>t. snd t = Exited) (threads m))"

lemma step_stopped_well:
  "machine_step rt cfg maxResults m m' \<Longrightarrow> stopped_well maxResults m \<Longrightarrow> stopped_well maxResults m'"
proof (induction rule: machine_step.induct)
  case (run i m c ph ph' sh')
  have "length (validated (mem m)) \<le> length (validated sh')" using work_validated [OF run(4)] by auto
  moreover have "\<not> list_all (\<lambda>t. snd t = Exited) (threads m)"
    using run(1-3) by (auto simp: list_all_length working_def)
  ultimately show ?case using run(5) by (auto simp: stopped_well_def)
qed (auto simp: stopped_well_def list_all_length nth_list_update)

lemma runs_stopped_well: "runs rt cfg maxResults (start cs st evs) m \<Longrightarrow> stopped_well maxResults m"
  unfolding runs_def
proof (induction rule: rtranclp_induct)
  case base
  then show ?case by (simp add: start_def stopped_well_def)
qed (rule step_stopped_well)

section \<open>Nothing that qualifies is lost\<close>

definition full :: "int \<Rightarrow> 'c shared \<Rightarrow> bool" where
  "full maxResults sh \<longleftrightarrow> int (length (validated sh)) \<ge> maxResults"

text \<open>The picture of a candidate is a duplicate of one the filter remembers.\<close>

definition resembles :: "runtime \<Rightarrow> ImageHash list \<Rightarrow> image \<Rightarrow> bool" where
  "resembles rt hs img \<longleftrightarrow>
     (case DifferenceHash (rt_gray rt) (Some img) of Inl _ \<Rightarrow> False | Inr h \<Rightarrow> list_ex (close_to h) hs)"

definition shadowed :: "runtime \<Rightarrow> 'c Config \<Rightarrow> 'c shared \<Rightarrow> ImageCandidate \<Rightarrow> bool" where
  "shadowed rt cfg sh c \<longleftrightarrow> (\<exists>img. snd (snd (downloaded rt cfg c)) = Some img \<and> resembles rt (hashes sh) img)"

text \<open>How far a candidate that will be accepted can have got.\<close>

definition served :: "runtime \<Rightarrow> 'c Config \<Rightarrow> int \<Rightarrow> 'c shared \<Rightarrow> ImageCandidate \<Rightarrow> bool" where
  "served rt cfg maxResults sh c \<longleftrightarrow> c \<in> set (validated sh) \<or> full maxResults sh \<or> shadowed rt cfg sh c"

fun on_track :: "runtime \<Rightarrow> 'c Config \<Rightarrow> int \<Rightarrow> 'c shared \<Rightarrow> ImageCandidate \<Rightarrow> phase \<Rightarrow> bool" where
  "on_track rt cfg maxResults sh c (AtDedup data mimeType img) = (snd (snd (downloaded rt cfg c)) = Some img)"
| "on_track rt cfg maxResults sh c (AtReverse data mimeType) = model_accepts rt cfg c"
| "on_track rt cfg maxResults sh c (AtCache data mimeType) = model_accepts rt cfg c"
| "on_track rt cfg maxResults sh c (AtCall data mimeType) = model_accepts rt cfg c"
| "on_track rt cfg maxResults sh c (AtJudge r) = acceptable_class r"
| "on_track rt cfg maxResults sh c AtRelease = served rt cfg maxResults sh c"
| "on_track rt cfg maxResults sh c Exited = served rt cfg maxResults sh c"
| "on_track rt cfg maxResults sh c ph = True"

definition certain :: "runtime \<Rightarrow> 'c Config \<Rightarrow> ImageCandidate \<Rightarrow> bool" where
  "certain rt cfg c \<longleftrightarrow> cfg_Cache cfg = None \<and> accepts rt cfg c"

lemma isDuplicate_grows: "set hs \<subseteq> set (snd (isDuplicate gray hs img))"
  by (auto simp: isDuplicate_def split: sum.splits)

lemma isDuplicate_resembles: "fst (isDuplicate (rt_gray rt) hs (Some img)) = resembles rt hs img"
  by (simp add: isDuplicate_def resembles_def split: sum.split)

lemma resembles_mono: "set hs \<subseteq> set hs' \<Longrightarrow> resembles rt hs img \<Longrightarrow> resembles rt hs' img"
  by (auto simp: resembles_def list_ex_iff split: sum.splits)

lemma served_mono:
  assumes "work rt cfg maxResults c ph sh = (ph', sh')" and "served rt cfg maxResults sh d"
  shows "served rt cfg maxResults sh' d"
proof -
  have "set (hashes sh) \<subseteq> set (hashes sh')" using work_hashes [OF assms(1)] isDuplicate_grows [of "hashes sh" "rt_gray rt"]
    by (elim disjE exE) simp_all
  then show ?thesis
    using assms(2) work_validated [OF assms(1)] resembles_mono [of "hashes sh" "hashes sh'" rt]
    by (auto simp: served_def shadowed_def full_def)
qed

lemma work_mono:
  "work rt cfg maxResults c ph sh = (ph', sh') \<Longrightarrow> on_track rt cfg maxResults sh d q \<Longrightarrow>
     on_track rt cfg maxResults sh' d q"
  by (cases q) (auto intro: served_mono)

lemma certain_probe:
  assumes "certain rt cfg c" and "ph = AtProbe \<or> ph = AtDownload" and "work rt cfg maxResults c ph sh = (ph', sh')"
  shows "on_track rt cfg maxResults sh' c ph'"
  using assms
  by (auto simp: certain_def accepts_def passes_checks_def downloaded_def
      split: if_splits prod.splits bool.splits outcome.splits option.splits)

lemma certain_dedup:
  assumes "snd (snd (downloaded rt cfg c)) = Some img"
    and "work rt cfg maxResults c (AtDedup data mimeType img) sh = (ph', sh')"
  shows "on_track rt cfg maxResults sh' c ph'"
proof -
  obtain b hs where d: "isDuplicate (rt_gray rt) (hashes sh) (Some img) = (b, hs)" by fastforce
  have sub: "set (hashes sh) \<subseteq> set hs" using isDuplicate_grows [of "hashes sh" "rt_gray rt" "Some img"] d by simp
  show ?thesis
  proof (cases b)
    case True
    with d have "resembles rt (hashes sh) img" using isDuplicate_resembles [of rt "hashes sh" img] by simp
    then have "resembles rt hs img" by (rule resembles_mono [OF sub])
    with True d assms show ?thesis by (auto simp: served_def shadowed_def)
  next
    case False
    with d assms(2) show ?thesis by auto
  qed
qed

lemma certain_assess:
  assumes "certain rt cfg c" and "probed rt cfg c data mimeType"
    and "work rt cfg maxResults c (AtAssess data mimeType) sh = (ph', sh')"
  shows "on_track rt cfg maxResults sh' c ph'"
  using assms probed_downloaded [OF assms(2)]
  by (auto simp: certain_def accepts_def passes_checks_def Let_def split: ImageLicense.splits)

lemma certain_call:
  assumes "unlaundered rt cfg c data mimeType" and "cfg_Classifier cfg \<noteq> None" and "model_accepts rt cfg c"
    and "certain rt cfg c" and "work rt cfg maxResults c (AtCall data mimeType) sh = (ph', sh')"
  shows "on_track rt cfg maxResults sh' c ph'"
proof -
  have d: "fst (downloaded rt cfg c) = data" "fst (snd (downloaded rt cfg c)) = mimeType"
    using assms(1) probed_downloaded [of rt cfg c data mimeType] by (simp_all add: unlaundered_def undecided_def)
  with assms(2,3) obtain r where
      "snd (classifyFromData rt (defaults rt cfg) (ImgURL c) data mimeType) = Returns r" "acceptable_class r"
    by (auto simp: model_accepts_def split: prod.splits outcome.splits)
  with assms(4,5) show ?thesis by (auto simp: certain_def split: prod.splits outcome.splits)
qed

lemma work_on_track:
  assumes "phase_ok rt cfg c ph" and "working ph" and "certain rt cfg c"
    and "on_track rt cfg maxResults sh c ph" and "work rt cfg maxResults c ph sh = (ph', sh')"
  shows "on_track rt cfg maxResults sh' c ph'"
proof (cases ph)
  case AtProbe
  then show ?thesis using assms certain_probe by blast
next
  case AtDownload
  then show ?thesis using assms certain_probe by blast
next
  case (AtDedup data mimeType img)
  then show ?thesis using assms by (intro certain_dedup [of rt cfg c img maxResults data mimeType]) simp_all
next
  case (AtAssess data mimeType)
  then show ?thesis using assms by (intro certain_assess [of rt cfg c data mimeType]) simp_all
next
  case (AtReverse data mimeType)
  then have "unlaundered rt cfg c data mimeType"
    using assms(1,3) probed_downloaded [of rt cfg c data mimeType]
    by (auto simp: unlaundered_def undecided_def certain_def accepts_def passes_checks_def Let_def)
  then show ?thesis using AtReverse assms by (auto simp: unlaundered_def)
next
  case (AtCache data mimeType)
  then show ?thesis using assms by (auto simp: certain_def no_classifier_accepts split: if_splits)
next
  case (AtCall data mimeType)
  then show ?thesis using assms by (intro certain_call [of rt cfg c data mimeType]) simp_all
next
  case AtAppend
  then show ?thesis using assms(5) by (auto simp: validated_append full_def served_def)
qed (use assms in \<open>auto simp: working_def certain_def\<close>)

interpretation complete: thread_invariant rt cfg maxResults "\<lambda>sh. True"
    "\<lambda>sh c ph. phase_ok rt cfg c ph \<and> (certain rt cfg c \<longrightarrow> on_track rt cfg maxResults sh c ph)" "\<lambda>c. True"
  for rt cfg maxResults
  by unfold_locales (auto intro: work_phase_ok work_on_track work_mono)

section \<open>One goroutine alone\<close>

text \<open>The steps of a goroutine that is not interrupted, up to the release of its slot.\<close>

definition alone :: "runtime \<Rightarrow> 'c Config \<Rightarrow> int \<Rightarrow> ImageCandidate \<Rightarrow> phase \<times> 'c shared \<Rightarrow> phase \<times> 'c shared \<Rightarrow> bool" where
  "alone rt cfg maxResults c = (\<lambda>p q. working (fst p) \<and> q = work rt cfg maxResults c (fst p) (snd p))\<^sup>*\<^sup>*"

lemma alone_refl [simp]: "alone rt cfg maxResults c p p"
  by (simp add: alone_def)

lemma alone_step:
  "working ph \<Longrightarrow> alone rt cfg maxResults c (work rt cfg maxResults c ph sh) q \<Longrightarrow>
     alone rt cfg maxResults c (ph, sh) q"
  unfolding alone_def by (rule converse_rtranclp_into_rtranclp) simp_all

lemma working_simps [simp]:
  "working AtProbe" "working AtDownload" "working (AtDedup a b i)" "working (AtAssess a b)" "working (AtReverse a b)"
  "working (AtCache a b)" "working (AtCall a b)" "working (AtStore r)" "working (AtJudge r)" "working AtAppend"
  by (simp_all add: working_def)

lemma alone_append: "alone rt cfg maxResults c (AtAppend, sh) (AtRelease, appendValidated c maxResults sh)"
  by (rule alone_step) simp_all

lemma alone_judge:
  "alone rt cfg maxResults c (AtJudge r, sh)
     (AtRelease, if acceptable_class r then appendValidated c maxResults sh else sh)"
  by (rule alone_step) (simp_all add: alone_append)

definition after_classify ::
  "'c Config \<Rightarrow> ImageCandidate \<Rightarrow> int \<Rightarrow> 'c shared \<Rightarrow> 'c classify_run \<Rightarrow> 'c shared" where
  "after_classify cfg c maxResults sh run =
     (case run of
        (st, evs, Panics) \<Rightarrow> recovered cfg (emit evs (sh\<lparr>store := st\<rparr>))
      | (st, evs, Returns r) \<Rightarrow>
          if acceptable_class r then appendValidated c maxResults (emit evs (sh\<lparr>store := st\<rparr>))
          else emit evs (sh\<lparr>store := st\<rparr>))"

lemma emit_store: "emit evs sh\<lparr>store := st\<rparr> = emit evs (sh\<lparr>store := st\<rparr>)"
  by (simp add: emit_def)

lemma recovered_store: "recovered cfg sh\<lparr>store := st\<rparr> = recovered cfg (sh\<lparr>store := st\<rparr>)"
  by (simp add: recovered_def emit_store)

lemma alone_call:
  "alone rt cfg maxResults c (AtCall data mimeType, sh)
     (AtRelease, after_classify cfg c maxResults sh
        (case classifyFromData rt (defaults rt cfg) (ImgURL c) data mimeType of
           (evs, Panics) \<Rightarrow> (store sh, evs, Panics)
         | (evs, Returns r) \<Rightarrow>
             (case cfg_Cache cfg of
                None \<Rightarrow> store sh
              | Some cache \<Rightarrow> cache_Set cache (store sh) (cache_Key cache ''vision_cls_v2'' (ImgURL c)) r,
              evs, Returns r)))"
proof (cases "classifyFromData rt (defaults rt cfg) (ImgURL c) data mimeType")
  case (Pair evs res)
  show ?thesis
  proof (cases res)
    case Panics
    with Pair show ?thesis by (intro alone_step) (simp_all add: after_classify_def)
  next
    case (Returns r)
    show ?thesis
    proof (cases "cfg_Cache cfg")
      case None
      with Pair Returns alone_judge [of rt cfg maxResults c r "emit evs sh"] show ?thesis
        by (intro alone_step) (auto simp: after_classify_def split: if_splits)
    next
      case (Some cache)
      let ?sh = "emit evs sh\<lparr>store := cache_Set cache (store sh) (cache_Key cache ''vision_cls_v2'' (ImgURL c)) r\<rparr>"
      have "alone rt cfg maxResults c (AtStore r, emit evs sh)
          (AtRelease, if acceptable_class r then appendValidated c maxResults ?sh else ?sh)"
        using Some alone_judge [of rt cfg maxResults c r ?sh] by (intro alone_step) simp_all
      with Pair Returns Some show ?thesis
        by (intro alone_step) (auto simp: after_classify_def emit_store split: if_splits)
    qed
  qed
qed

lemma alone_classify:
  "alone rt cfg maxResults c (AtCache data mimeType, sh)
     (AtRelease, after_classify cfg c maxResults sh (classifyPredownloaded rt cfg (ImgURL c) data mimeType (store sh)))"
proof (cases "cfg_Classifier cfg")
  case None
  with alone_judge [of rt cfg maxResults c no_result sh] show ?thesis
    by (intro alone_step) (auto simp: classifyPredownloaded_def after_classify_def split: if_splits)
next
  case (Some cl)
  note cl = Some
  show ?thesis
  proof (cases "cfg_Cache cfg")
    case None
    with cl alone_call [of rt cfg maxResults c data mimeType sh] show ?thesis
      by (intro alone_step) (auto simp: classifyPredownloaded_def split: prod.splits outcome.splits)
  next
    case (Some cache)
    obtain hit st where g: "cache_Get cache (store sh) (cache_Key cache ''vision_cls_v2'' (ImgURL c)) = (hit, st)"
      by fastforce
    show ?thesis
    proof (cases hit)
      case None
      with cl Some g alone_call [of rt cfg maxResults c data mimeType "sh\<lparr>store := st\<rparr>"] show ?thesis
        by (intro alone_step)
           (auto simp: classifyPredownloaded_def after_classify_def
              split: prod.splits outcome.splits)
    next
      case (Some r)
      with cl \<open>cfg_Cache cfg = Some cache\<close> g alone_judge [of rt cfg maxResults c r "sh\<lparr>store := st\<rparr>"] show ?thesis
        by (intro alone_step) (auto simp: classifyPredownloaded_def after_classify_def split: if_splits)
    qed
  qed
qed

lemma alone_data:
  "alone rt cfg maxResults c (AtAssess data mimeType, sh) (AtRelease, validate_data rt cfg c maxResults data mimeType sh)"
proof (cases "verdict_on rt cfg c data")
  case LicenseSafe
  with alone_append show ?thesis by (intro alone_step) (simp_all add: validate_data_def assessAndAccept_def)
next
  case LicenseUnknown
  have e: "(case run of
              (st, evs, Panics) \<Rightarrow> recovered cfg (emit evs (sh\<lparr>store := st\<rparr>))
            | (st, evs, Returns r) \<Rightarrow>
                if \<not> acceptable_class r then emit evs (sh\<lparr>store := st\<rparr>)
                else appendValidated c maxResults (emit evs (sh\<lparr>store := st\<rparr>))) = after_classify cfg c maxResults sh run" for run
    by (auto simp: after_classify_def split: prod.splits outcome.splits)
  have "alone rt cfg maxResults c (AtReverse data mimeType, sh) (AtRelease, validate_data rt cfg c maxResults data mimeType sh)"
    using alone_classify [of rt cfg maxResults c data mimeType sh] LicenseUnknown
    by (intro alone_step) (simp_all add: validate_data_def assessAndAccept_def e)
  with LicenseUnknown show ?thesis by (intro alone_step) simp_all
next
  case LicenseBlocked
  then show ?thesis by (intro alone_step) (simp_all add: validate_data_def assessAndAccept_def)
qed

lemma alone_validateOne:
  "alone rt cfg maxResults c (AtProbe, sh) (AtRelease, validateOne rt cfg c maxResults sh)"
proof (rule alone_step)
  have d: "alone rt cfg maxResults c (AtDedup data mimeType img, sh)
      (AtRelease, case isDuplicate (rt_gray rt) (hashes sh) (Some img) of
                  (True, hs) \<Rightarrow> sh\<lparr>hashes := hs\<rparr>
                | (False, hs) \<Rightarrow> validate_data rt cfg c maxResults data mimeType (sh\<lparr>hashes := hs\<rparr>))"
    for data mimeType img
    by (rule alone_step) (auto simp: alone_data split: prod.splits bool.splits)
  have "alone rt cfg maxResults c (AtDownload, sh)
      (AtRelease, case downloadForValidation rt cfg (ImgURL c) of
              Panics \<Rightarrow> recovered cfg sh
            | Returns (data, mimeType, None) \<Rightarrow> validate_data rt cfg c maxResults data mimeType sh
            | Returns (data, mimeType, Some img) \<Rightarrow>
               (case isDuplicate (rt_gray rt) (hashes sh) (Some img) of
                  (True, hs) \<Rightarrow> sh\<lparr>hashes := hs\<rparr>
                | (False, hs) \<Rightarrow> validate_data rt cfg c maxResults data mimeType (sh\<lparr>hashes := hs\<rparr>)))"
    by (rule alone_step) (simp_all add: d alone_data split: outcome.split prod.split option.split)
  then show "alone rt cfg maxResults c (work rt cfg maxResults c AtProbe sh) (AtRelease, validateOne rt cfg c maxResults sh)"
    by (auto simp: validateOne_def split: prod.splits bool.splits)
qed simp

section \<open>The sequential schedule\<close>

lemma runs_trans: "runs rt cfg maxResults a b \<Longrightarrow> runs rt cfg maxResults b c \<Longrightarrow> runs rt cfg maxResults a c"
  by (simp add: runs_def)

lemma runs_one: "machine_step rt cfg maxResults a b \<Longrightarrow> runs rt cfg maxResults a b"
  by (simp add: runs_def)

lemma alone_runs:
  assumes "alone rt cfg maxResults c (ph, sh) (ph', sh')" and "i < length (threads m)"
    and "threads m ! i = (c, ph)" and "mem m = sh"
  shows "runs rt cfg maxResults m (m\<lparr>threads := (threads m)[i := (c, ph')], mem := sh'\<rparr>)"
  using assms unfolding alone_def
proof (induction "(ph, sh)" arbitrary: ph sh m rule: converse_rtranclp_induct)
  case base
  then have "(threads m)[i := (c, ph')] = threads m" by (metis list_update_id)
  with base have "m\<lparr>threads := (threads m)[i := (c, ph')], mem := sh'\<rparr> = m" by (cases m) simp
  then show ?case by (simp add: runs_def)
next
  case (step z)
  obtain p s where z: "z = (p, s)" by fastforce
  let ?m1 = "m\<lparr>threads := (threads m)[i := (c, p)], mem := s\<rparr>"
  have "machine_step rt cfg maxResults m ?m1"
    using step(1,4,5,6) z by (intro machine_step.run [where ph = ph]) (auto dest: sym)
  moreover have "runs rt cfg maxResults ?m1 (?m1\<lparr>threads := (threads ?m1)[i := (c, ph')], mem := sh'\<rparr>)"
    using step(3) [OF z, of ?m1] step(4) by simp
  ultimately show ?case using runs_one runs_trans by fastforce
qed

lemma spawn_alone:
  assumes "main m = Spawning" and "todo m = c # cs" and "int (length (validated (mem m))) < maxResults"
    and "slots m = 0"
  shows "runs rt cfg maxResults m
     (m\<lparr>todo := cs, threads := threads m @ [(c, Exited)], mem := validateOne rt cfg c maxResults (mem m)\<rparr>)"
proof -
  let ?n = "length (threads m)"
  let ?m1 = "m\<lparr>todo := cs, threads := threads m @ [(c, AtSemaphore)]\<rparr>"
  let ?m2 = "m\<lparr>todo := cs, threads := threads m @ [(c, AtProbe)], slots := 1\<rparr>"
  let ?m3 = "m\<lparr>todo := cs, threads := threads m @ [(c, AtRelease)], slots := 1, mem := validateOne rt cfg c maxResults (mem m)\<rparr>"
  let ?m4 = "m\<lparr>todo := cs, threads := threads m @ [(c, Exited)], mem := validateOne rt cfg c maxResults (mem m)\<rparr>"
  have "machine_step rt cfg maxResults m ?m1" using assms by (intro machine_step.spawn) simp_all
  moreover have "machine_step rt cfg maxResults ?m1 ?m2"
    using machine_step.acquire [of ?n ?m1 c] assms(4) by (simp add: validationSemaphore_def)
  moreover have "runs rt cfg maxResults ?m2 ?m3"
    using alone_runs [OF alone_validateOne [of rt cfg maxResults c "mem m"], where i = ?n and m = ?m2]
    by (cases m) simp
  moreover have "machine_step rt cfg maxResults ?m3 ?m4"
    using machine_step.release [of ?n ?m3 c] assms(4) by (cases m) simp
  ultimately show ?thesis by (meson runs_one runs_trans)
qed

lemma seq_runs:
  "main m = Spawning \<Longrightarrow> slots m = 0 \<Longrightarrow> list_all (\<lambda>t. snd t = Exited) (threads m) \<Longrightarrow> todo m = cs \<Longrightarrow>
     \<exists>m'. runs rt cfg maxResults m m' \<and> main m' = Finished \<and> mem m' = validate_seq rt cfg maxResults cs (mem m)"
proof (induction cs arbitrary: m)
  case Nil
  let ?w = "m\<lparr>main := Waiting\<rparr>"
  have "machine_step rt cfg maxResults m ?w" using Nil by (intro machine_step.drained)
  moreover have "machine_step rt cfg maxResults ?w (?w\<lparr>main := Finished\<rparr>)"
    using Nil by (intro machine_step.join) simp_all
  ultimately have "runs rt cfg maxResults m (?w\<lparr>main := Finished\<rparr>)" by (meson runs_one runs_trans)
  then show ?case by (intro exI [of _ "?w\<lparr>main := Finished\<rparr>"]) simp
next
  case (Cons c cs)
  show ?case
  proof (cases "int (length (validated (mem m))) \<ge> maxResults")
    case True
    let ?w = "m\<lparr>main := Waiting\<rparr>"
    have "machine_step rt cfg maxResults m ?w" using Cons.prems True by (intro machine_step.enough)
    moreover have "machine_step rt cfg maxResults ?w (?w\<lparr>main := Finished\<rparr>)"
      using Cons.prems by (intro machine_step.join) simp_all
    ultimately have "runs rt cfg maxResults m (?w\<lparr>main := Finished\<rparr>)" by (meson runs_one runs_trans)
    with True show ?thesis by (intro exI [of _ "?w\<lparr>main := Finished\<rparr>"]) simp
  next
    case False
    let ?m1 = "m\<lparr>todo := cs, threads := threads m @ [(c, Exited)], mem := validateOne rt cfg c maxResults (mem m)\<rparr>"
    have "runs rt cfg maxResults m ?m1" using spawn_alone [OF Cons.prems(1,4)] False Cons.prems(2) by simp
    moreover obtain m' where "runs rt cfg maxResults ?m1 m'" "main m' = Finished"
        "mem m' = validate_seq rt cfg maxResults cs (validateOne rt cfg c maxResults (mem m))"
      using Cons.IH [of ?m1] Cons.prems by auto
    ultimately show ?thesis using False runs_trans by (intro exI [of _ m']) auto
  qed
qed

lemma start_simps [simp]:
  "main (start cs st evs) = Spawning" "todo (start cs st evs) = cs" "threads (start cs st evs) = []"
  "slots (start cs st evs) = 0" "mem (start cs st evs) = fresh st evs"
  by (simp_all add: start_def)

lemma validate_seq_possible:
  "validateCandidates rt cfg cs maxResults st evs (validate_seq rt cfg maxResults cs (fresh st evs))"
  using seq_runs [of "start cs st evs" cs rt cfg maxResults] unfolding validateCandidates_def by simp

section \<open>Another schedule\<close>

lemma runs_step [trans]: "runs rt cfg maxResults a b \<Longrightarrow> machine_step rt cfg maxResults b c \<Longrightarrow> runs rt cfg maxResults a c"
  by (simp add: runs_def)

declare runs_trans [trans]

text \<open>Two goroutines may overlap: the second candidate can go through all its stages first.\<close>

lemma overtaking_possible:
  assumes "0 < maxResults"
  shows "validateCandidates rt cfg [a, b] maxResults st evs
    (validateOne rt cfg a maxResults (validateOne rt cfg b maxResults (fresh st evs)))"
proof -
  let ?s0 = "fresh st evs"
  let ?s1 = "validateOne rt cfg b maxResults ?s0"
  let ?s2 = "validateOne rt cfg a maxResults ?s1"
  let ?at = "\<lambda>mn td ts k sh. \<lparr>main = mn, todo = td, threads = ts, slots = k, mem = sh\<rparr>"
  have n: "int (length (validated ?s0)) < maxResults" using assms by (simp add: fresh_def)
  have "machine_step rt cfg maxResults (start [a, b] st evs) (?at Spawning [b] [(a, AtSemaphore)] 0 ?s0)"
    using machine_step.spawn [of "start [a, b] st evs" a "[b]" maxResults rt cfg] n by (simp add: start_def)
  then have "runs rt cfg maxResults (start [a, b] st evs) (?at Spawning [b] [(a, AtSemaphore)] 0 ?s0)"
    by (rule runs_one)
  also have "machine_step rt cfg maxResults (?at Spawning [b] [(a, AtSemaphore)] 0 ?s0)
      (?at Spawning [] [(a, AtSemaphore), (b, AtSemaphore)] 0 ?s0)"
    using machine_step.spawn [of "?at Spawning [b] [(a, AtSemaphore)] 0 ?s0" b "[]" maxResults rt cfg] n by simp
  also have "machine_step rt cfg maxResults (?at Spawning [] [(a, AtSemaphore), (b, AtSemaphore)] 0 ?s0)
      (?at Spawning [] [(a, AtProbe), (b, AtSemaphore)] 1 ?s0)"
    using machine_step.acquire [of 0 "?at Spawning [] [(a, AtSemaphore), (b, AtSemaphore)] 0 ?s0" a rt cfg maxResults]
    by (simp add: validationSemaphore_def)
  also have "machine_step rt cfg maxResults (?at Spawning [] [(a, AtProbe), (b, AtSemaphore)] 1 ?s0)
      (?at Spawning [] [(a, AtProbe), (b, AtProbe)] 2 ?s0)"
    using machine_step.acquire [of 1 "?at Spawning [] [(a, AtProbe), (b, AtSemaphore)] 1 ?s0" b rt cfg maxResults]
    by (simp add: validationSemaphore_def numeral_2_eq_2)
  also have "runs rt cfg maxResults (?at Spawning [] [(a, AtProbe), (b, AtProbe)] 2 ?s0)
      (?at Spawning [] [(a, AtProbe), (b, AtRelease)] 2 ?s1)"
    using alone_runs [OF alone_validateOne [of rt cfg maxResults b ?s0], of 1 "?at Spawning [] [(a, AtProbe), (b, AtProbe)] 2 ?s0"]
    by simp
  also have "runs rt cfg maxResults (?at Spawning [] [(a, AtProbe), (b, AtRelease)] 2 ?s1)
      (?at Spawning [] [(a, AtRelease), (b, AtRelease)] 2 ?s2)"
    using alone_runs [OF alone_validateOne [of rt cfg maxResults a ?s1], of 0 "?at Spawning [] [(a, AtProbe), (b, AtRelease)] 2 ?s1"]
    by simp
  also have "machine_step rt cfg maxResults (?at Spawning [] [(a, AtRelease), (b, AtRelease)] 2 ?s2)
      (?at Spawning [] [(a, Exited), (b, AtRelease)] 1 ?s2)"
    using machine_step.release [of 0 "?at Spawning [] [(a, AtRelease), (b, AtRelease)] 2 ?s2" a rt cfg maxResults] by simp
  also have "machine_step rt cfg maxResults (?at Spawning [] [(a, Exited), (b, AtRelease)] 1 ?s2)
      (?at Spawning [] [(a, Exited), (b, Exited)] 0 ?s2)"
    using machine_step.release [of 1 "?at Spawning [] [(a, Exited), (b, AtRelease)] 1 ?s2" b rt cfg maxResults] by simp
  also have "machine_step rt cfg maxResults (?at Spawning [] [(a, Exited), (b, Exited)] 0 ?s2)
      (?at Waiting [] [(a, Exited), (b, Exited)] 0 ?s2)"
    using machine_step.drained [of "?at Spawning [] [(a, Exited), (b, Exited)] 0 ?s2" rt cfg maxResults] by simp
  also have "machine_step rt cfg maxResults (?at Waiting [] [(a, Exited), (b, Exited)] 0 ?s2)
      (?at Finished [] [(a, Exited), (b, Exited)] 0 ?s2)"
    using machine_step.join [of "?at Waiting [] [(a, Exited), (b, Exited)] 0 ?s2" rt cfg maxResults] by simp
  finally show ?thesis unfolding validateCandidates_def by force
qed

end
