(* ===== verification/Search.thy ===== *)
theory Search
  imports Content Pipeline_Runs
begin

text \<open>
  search.go and find.go: the entry points. Providers are queried in parallel, what they found is
  merged, sorted by licence and handed to the validation pipeline. Because goroutines finish in
  any order and the pipeline interleaves, an entry point is the relation between its arguments
  and the states it may end in; \<open>search_seq\<close> and \<open>find_seq\<close> compute one of them.
\<close>

section \<open>Gathering\<close>

definition resolveProviders :: "runtime \<Rightarrow> 'c Config \<Rightarrow> SearchProvider list" where
  "resolveProviders rt cfg =
     (if cfg_Providers cfg \<noteq> [] then cfg_Providers cfg
      else if cfg_SearxngURL cfg \<noteq> '''' then
        [searxng_provider rt \<lparr>sx_URL = cfg_SearxngURL cfg, sx_HTTPClient = cfg_HTTPClient cfg,
                              sx_UserAgent = cfg_UserAgent cfg\<rparr>]
      else [])"

text \<open>\<open>arrived\<close> lists the providers in the order their goroutines take the mutex.\<close>

definition gatherCandidates :: "SearchProvider list \<Rightarrow> string \<Rightarrow> SearchOpts \<Rightarrow> ImageCandidate list" where
  "gatherCandidates arrived query opts =
     concat (filter_map (\<lambda>p. case prov_Search p query opts of Inl _ \<Rightarrow> None | Inr rs \<Rightarrow> Some rs) arrived)"

text \<open>\<^verbatim>\<open>sort.SliceStable\<close> by \<^verbatim>\<open>License\<close>.\<close>

definition safe_first :: "ImageCandidate list \<Rightarrow> ImageCandidate list" where
  "safe_first candidates = sort_key License candidates"

section \<open>Searching\<close>

definition search_events :: "'c Config \<Rightarrow> event list" where
  "search_events cfg = (if cfg_OnImageSearch cfg then [SearchStarted] else [])"

definition SearchImagesWithOpts ::
  "runtime \<Rightarrow> 'c Config \<Rightarrow> string \<Rightarrow> int \<Rightarrow> SearchOpts \<Rightarrow> 'c \<Rightarrow> 'c shared \<Rightarrow> bool" where
  "SearchImagesWithOpts rt cfg0 query maxResults opts st sh \<longleftrightarrow>
     (if query = '''' then sh = fresh st []
      else let cfg = defaults rt cfg0; evs = search_events cfg in
        (\<exists>arrived. mset arrived = mset (resolveProviders rt cfg) \<and>
          (let candidates = gatherCandidates arrived query opts in
           if candidates = [] then sh = fresh st evs
           else validateCandidates rt cfg (safe_first candidates) maxResults st evs sh)))"

definition SearchImages :: "runtime \<Rightarrow> 'c Config \<Rightarrow> string \<Rightarrow> int \<Rightarrow> 'c \<Rightarrow> 'c shared \<Rightarrow> bool" where
  "SearchImages rt cfg query maxResults st sh = SearchImagesWithOpts rt cfg query maxResults zero_SearchOpts st sh"

definition ValidateCandidates ::
  "runtime \<Rightarrow> 'c Config \<Rightarrow> ImageCandidate list \<Rightarrow> int \<Rightarrow> 'c \<Rightarrow> 'c shared \<Rightarrow> bool" where
  "ValidateCandidates rt cfg candidates maxResults st sh \<longleftrightarrow>
     (if candidates = [] then sh = fresh st []
      else validateCandidates rt (defaults rt cfg) candidates maxResults st [] sh)"

section \<open>Finding\<close>

record FindOpts =
  fo_Query :: string
  fo_PageURL :: string
  fo_External :: "ImageCandidate list"
  fo_MaxResults :: int
  fo_SearchOpts :: SearchOpts

definition findDefaultMaxResults :: int where
  "findDefaultMaxResults = 3"

definition hasContentProvider :: "'c Config \<Rightarrow> bool" where
  "hasContentProvider cfg \<longleftrightarrow> list_ex (\<lambda>p. prov_Name p = ''content'') (cfg_Providers cfg)"

definition hasOGProvider :: "'c Config \<Rightarrow> bool" where
  "hasOGProvider cfg \<longleftrightarrow> list_ex (\<lambda>p. prov_Name p = ''og'') (cfg_Providers cfg)"

definition find_maxResults :: "FindOpts \<Rightarrow> int" where
  "find_maxResults opts = (if fo_MaxResults opts \<le> 0 then findDefaultMaxResults else fo_MaxResults opts)"

text \<open>The three sources, in the order they are merged.\<close>

definition find_candidates :: "runtime \<Rightarrow> 'c Config \<Rightarrow> SearchProvider list \<Rightarrow> FindOpts \<Rightarrow> ImageCandidate list" where
  "find_candidates rt cfg arrived opts =
     (let searchOpts = fo_SearchOpts opts;
          searchOpts1 = searchOpts\<lparr>PageURL := or_default (PageURL searchOpts) (fo_PageURL opts)\<rparr>;
          from_search = (if fo_Query opts \<noteq> '''' then gatherCandidates arrived (fo_Query opts) searchOpts1 else []);
          from_page =
            (if fo_PageURL opts \<noteq> '''' \<and> \<not> hasContentProvider cfg \<and> \<not> hasOGProvider cfg then
               (case content_Search rt \<lparr>ct_HTTPClient = cfg_HTTPClient cfg\<rparr> (fo_Query opts)
                       (zero_SearchOpts\<lparr>PageURL := fo_PageURL opts\<rparr>) of
                  Inl _ \<Rightarrow> [] | Inr cs \<Rightarrow> cs)
             else [])
      in from_search @ from_page @ fo_External opts)"

definition FindImages :: "runtime \<Rightarrow> 'c Config \<Rightarrow> FindOpts \<Rightarrow> 'c \<Rightarrow> 'c shared \<Rightarrow> bool" where
  "FindImages rt cfg0 opts st sh \<longleftrightarrow>
     (let cfg = defaults rt cfg0 in
      \<exists>arrived. mset arrived = mset (resolveProviders rt cfg) \<and>
        (let candidates = find_candidates rt cfg arrived opts in
         if candidates = [] then sh = fresh st []
         else validateCandidates rt cfg (safe_first candidates) (find_maxResults opts) st [] sh))"

section \<open>A schedule that can be computed\<close>

definition search_seq :: "runtime \<Rightarrow> 'c Config \<Rightarrow> string \<Rightarrow> int \<Rightarrow> SearchOpts \<Rightarrow> 'c \<Rightarrow> 'c shared" where
  "search_seq rt cfg0 query maxResults opts st =
     (if query = '''' then fresh st []
      else let cfg = defaults rt cfg0; evs = search_events cfg;
               candidates = gatherCandidates (resolveProviders rt cfg) query opts
           in if candidates = [] then fresh st evs
              else validate_seq rt cfg maxResults (safe_first candidates) (fresh st evs))"

definition find_seq :: "runtime \<Rightarrow> 'c Config \<Rightarrow> FindOpts \<Rightarrow> 'c \<Rightarrow> 'c shared" where
  "find_seq rt cfg0 opts st =
     (let cfg = defaults rt cfg0; candidates = find_candidates rt cfg (resolveProviders rt cfg) opts
      in if candidates = [] then fresh st []
         else validate_seq rt cfg (find_maxResults opts) (safe_first candidates) (fresh st []))"

lemma search_seq_possible: "SearchImagesWithOpts rt cfg query maxResults opts st (search_seq rt cfg query maxResults opts st)"
  unfolding SearchImagesWithOpts_def search_seq_def Let_def
  by (auto intro!: exI [of _ "resolveProviders rt (defaults rt cfg)"] validate_seq_possible)

lemma find_seq_possible: "FindImages rt cfg opts st (find_seq rt cfg opts st)"
  unfolding FindImages_def find_seq_def Let_def
  by (auto intro!: exI [of _ "resolveProviders rt (defaults rt cfg)"] validate_seq_possible)

section \<open>Facts\<close>

lemma gather_mset:
  assumes "mset arrived = mset providers"
  shows "mset (gatherCandidates arrived query opts) = mset (gatherCandidates providers query opts)"
  unfolding gatherCandidates_def by (simp add: mset_concat_filter_map assms)

lemma gather_set:
  "set (gatherCandidates ps query opts) = (\<Union>p \<in> set ps. case prov_Search p query opts of Inl _ \<Rightarrow> {} | Inr cs \<Rightarrow> set cs)"
  by (induction ps) (auto simp: gatherCandidates_def split: sum.splits)

lemma gatherCandidates_flat:
  "gatherCandidates ps query opts = concat (map (\<lambda>p. case prov_Search p query opts of Inl _ \<Rightarrow> [] | Inr rs \<Rightarrow> rs) ps)"
  by (induction ps) (auto simp: gatherCandidates_def split: sum.split)

lemma validated_returned:
  assumes "validateCandidates rt cfg cs maxResults st evs sh"
  shows "int (length (validated sh)) \<le> max 0 maxResults" "mset (validated sh) \<subseteq># mset cs"
    "\<forall>c \<in> set (validated sh). endorsed rt cfg c"
    "sorted_wrt (\<lambda>a b. \<not> close_to a b) (hashes sh)"
proof -
  from assms obtain m where m: "runs rt cfg maxResults (start cs st evs) m" "mem m = sh"
    by (auto simp: validateCandidates_def)
  show "int (length (validated sh)) \<le> max 0 maxResults"
    using bounded.reached [OF _ _ m(1)] m(2) by (simp add: fresh_def list_all_iff)
  show "mset (validated sh) \<subseteq># mset cs" using runs_selection [OF m(1)] m(2) by simp
  show "\<forall>c \<in> set (validated sh). endorsed rt cfg c"
    using sound.reached [OF _ _ m(1), of "\<lambda>_. True"] m(2) by (simp add: fresh_def list_all_iff)
  show "sorted_wrt (\<lambda>a b. \<not> close_to a b) (hashes sh)"
    using separated.reached [OF _ _ m(1)] m(2) by (simp add: fresh_def list_all_iff)
qed

lemma passes_not_blocked:
  assumes "passes_checks rt cfg c"
  shows "ImgURL c \<noteq> '''' \<Longrightarrow> License c \<noteq> LicenseBlocked"
    and "ext_license (rt_unicode rt) cfg c \<noteq> LicenseBlocked"
    and "\<not> IsStockByMetadata (rt_unicode rt) (ExtractImageMetadata (rt_imagemeta rt) (fst (downloaded rt cfg c)))"
proof -
  have v: "as_License (AssessLicense (rt_unicode rt) cfg c
      (ExtractImageMetadata (rt_imagemeta rt) (fst (downloaded rt cfg c)))) \<noteq> LicenseBlocked"
    using assms by (auto simp: passes_checks_def Let_def verdict_on_def)
  show "ImgURL c \<noteq> '''' \<Longrightarrow> License c \<noteq> LicenseBlocked"
    and "ext_license (rt_unicode rt) cfg c \<noteq> LicenseBlocked"
    and "\<not> IsStockByMetadata (rt_unicode rt) (ExtractImageMetadata (rt_imagemeta rt) (fst (downloaded rt cfg c)))"
    using v unfolding AssessLicense_Blocked_iff by blast+
qed

text \<open>The sequential schedule keeps the order of the candidates.\<close>

lemma validate_data_validated:
  "validated (validate_data rt cfg c maxResults data mimeType sh) = validated sh
   \<or> validated (validate_data rt cfg c maxResults data mimeType sh) = validated sh @ [c]"
proof (cases "verdict_on rt cfg c data")
  case LicenseUnknown
  then show ?thesis
    by (simp add: validate_data_def assessAndAccept_def validated_append split: prod.split outcome.split)
qed (simp_all add: validate_data_def assessAndAccept_def validated_append)

lemma validateOne_validated:
  "validated (validateOne rt cfg c maxResults sh) = validated sh
   \<or> validated (validateOne rt cfg c maxResults sh) = validated sh @ [c]"
  using validate_data_validated [of rt cfg c maxResults _ _ "sh\<lparr>hashes := _\<rparr>"]
    validate_data_validated [of rt cfg c maxResults _ _ sh]
  by (simp add: validateOne_def split: prod.split bool.split outcome.split option.split)

lemma validate_seq_subseq:
  "\<exists>ys. validated (validate_seq rt cfg maxResults cs sh) = validated sh @ ys \<and> subseq ys cs"
proof (induction cs arbitrary: sh)
  case (Cons c cs)
  show ?case
  proof (cases "int (length (validated sh)) \<ge> maxResults")
    case False
    obtain ys where ys: "validated (validate_seq rt cfg maxResults cs (validateOne rt cfg c maxResults sh)) =
        validated (validateOne rt cfg c maxResults sh) @ ys" "subseq ys cs"
      using Cons.IH by blast
    from validateOne_validated [of rt cfg c maxResults sh] show ?thesis
    proof
      assume "validated (validateOne rt cfg c maxResults sh) = validated sh"
      with ys False show ?thesis by (intro exI [of _ ys]) auto
    next
      assume "validated (validateOne rt cfg c maxResults sh) = validated sh @ [c]"
      with ys False show ?thesis by (intro exI [of _ "c # ys"]) auto
    qed
  qed simp
qed simp

end
