(* ===== verification/Examples.thy ===== *)
theory Examples
  imports Search Query
begin

text \<open>
  A small closed instance of the model's parameters, on which the hypotheses of the properties
  are discharged: a network of three kinds of images, a decoder, a vision model that knows one
  picture, and candidates for the pipeline.
\<close>

definition ex_unicode :: unicode where
  "ex_unicode = \<lparr>uc_lower = (\<lambda>r. r), uc_upper = (\<lambda>r. r), uc_space = (\<lambda>r. False)\<rparr>"

text \<open>Every path that ends in an image extension is an image whose bytes are its URL.\<close>

definition ex_transport :: transport where
  "ex_transport req =
     (if path_Ext (req_URL req) \<in> set [''.jpg'', ''.png'', ''.gif'']
      then Inr \<lparr>StatusCode = 200, ContentType = ''image/jpeg; q=1'', Location = None, Body = req_URL req, BodyFails = False\<rparr>
      else Inr \<lparr>StatusCode = 404, ContentType = ''text/html'', Location = None, Body = [], BodyFails = False\<rparr>)"

definition ex_client :: client where
  "ex_client = \<lparr>Transport = ex_transport, RedirectLimit = 10\<rparr>"

text \<open>PNG files decode, all to the same picture; GIF files make the decoder panic.\<close>

definition ex_runtime :: runtime where
  "ex_runtime =
     \<lparr>rt_unicode = ex_unicode, rt_entities = (\<lambda>_. None),
      rt_DefaultClient = ex_client, rt_DecodeConfig = (\<lambda>_. Some 1000),
      rt_Decode = (\<lambda>data. if path_Ext data = ''.gif'' then Panics
                         else Returns (if path_Ext data = ''.png'' then Some (Image []) else None)),
      rt_gray = (\<lambda>_. [[0, 1]]), rt_imagemeta = (\<lambda>_. ([], False))\<rparr>"

definition ex_classifier :: Classifier where
  "ex_classifier prompt inputs = Returns (Inr ''REJECT 0.9'')"

definition ex_config :: "unit Config" where
  "ex_config =
     \<lparr>cfg_Cache = None, cfg_Classifier = Some ex_classifier, cfg_StealthClient = None, cfg_HTTPClient = None,
      cfg_SearxngURL = '''', cfg_MinImageWidth = 0, cfg_UserAgent = '''', cfg_Providers = [],
      cfg_VisionPrompt = '''', cfg_ExtraBlockedDomains = [], cfg_ExtraSafeDomains = [],
      cfg_OxBrowserURL = '''', cfg_OnImageSearch = True, cfg_OnPanic = True, cfg_OnClassification = True\<rparr>"

definition ex_cand :: "string \<Rightarrow> ImageLicense \<Rightarrow> ImageCandidate" where
  "ex_cand url lic = \<lparr>ImgURL = url, Thumbnail = '''', Source = '''', Title = '''', License = lic,
     Width = 0, Height = 0, Engine = ''''\<rparr>"

definition ex_cands :: "ImageCandidate list" where
  "ex_cands = [ex_cand ''http://a/1.png'' LicenseSafe, ex_cand ''http://a/2.png'' LicenseSafe,
     ex_cand ''http://a/3.jpg'' LicenseSafe, ex_cand ''http://a/4.gif'' LicenseSafe,
     ex_cand ''http://a/5.jpg'' LicenseUnknown, ex_cand ''http://a/6.html'' LicenseSafe]"

lemma ex_seq: "validated (validate_seq ex_runtime ex_config 5 ex_cands (fresh () [])) =
    [ex_cand ''http://a/1.png'' LicenseSafe, ex_cand ''http://a/3.jpg'' LicenseSafe]"
  by code_simp

definition ex_provider :: SearchProvider where
  "ex_provider = \<lparr>prov_Search = (\<lambda>query opts. Inr ex_cands), prov_Name = ''ex''\<rparr>"

definition ex_search_config :: "unit Config" where
  "ex_search_config = ex_config\<lparr>cfg_Providers := [ex_provider]\<rparr>"

lemma ex_search: "validated (search_seq ex_runtime ex_search_config ''cat'' 5 zero_SearchOpts ()) =
    [ex_cand ''http://a/1.png'' LicenseSafe, ex_cand ''http://a/3.jpg'' LicenseSafe]"
  by code_simp

definition ex_find :: FindOpts where
  "ex_find = \<lparr>fo_Query = '''', fo_PageURL = '''', fo_External = [ex_cand ''http://a/5.jpg'' LicenseUnknown,
     ex_cand ''http://a/3.jpg'' LicenseSafe], fo_MaxResults = 0, fo_SearchOpts = zero_SearchOpts\<rparr>"

lemma ex_find_images: "validated (find_seq ex_runtime (ex_config\<lparr>cfg_Classifier := None\<rparr>) ex_find ()) =
    [ex_cand ''http://a/3.jpg'' LicenseSafe, ex_cand ''http://a/5.jpg'' LicenseUnknown]"
  by code_simp

text \<open>Two candidates whose goroutines overlap, and a configuration without a vision model.\<close>

definition ex_safe :: ImageCandidate where
  "ex_safe = ex_cand ''http://a/3.jpg'' LicenseSafe"

definition ex_unknown :: ImageCandidate where
  "ex_unknown = ex_cand ''http://a/5.jpg'' LicenseUnknown"

definition ex_two_config :: "unit Config" where
  "ex_two_config = ex_config\<lparr>cfg_Classifier := None, cfg_OnImageSearch := False,
     cfg_Providers := [\<lparr>prov_Search = (\<lambda>query opts. Inr [ex_unknown, ex_safe]), prov_Name = ''ex''\<rparr>]\<rparr>"

lemma ex_swapped:
  "validated (validateOne ex_runtime (defaults ex_runtime ex_two_config) ex_safe 5
     (validateOne ex_runtime (defaults ex_runtime ex_two_config) ex_unknown 5 (fresh () []))) = [ex_unknown, ex_safe]"
  by code_simp

lemma ex_two_gathered:
  "safe_first (gatherCandidates (resolveProviders ex_runtime (defaults ex_runtime ex_two_config)) ''cat'' zero_SearchOpts) =
     [ex_safe, ex_unknown]"
  by code_simp

lemma ex_safe_accepted:
  "accepts ex_runtime ex_config ex_safe" "snd (snd (downloaded ex_runtime ex_config ex_safe)) = None"
  by code_simp+

lemma ex_safe_verdict: "verdict_on ex_runtime ex_config ex_safe (fst (downloaded ex_runtime ex_config ex_safe)) = LicenseSafe"
  by code_simp

section \<open>Two surprises\<close>

text \<open>A stock photo the caller supplies without a licence class, which is then Safe.\<close>

definition ex_stock :: ImageCandidate where
  "ex_stock = ex_cand ''http://www.shutterstock.com/1.jpg'' LicenseSafe"

lemma ex_stock_accepted:
  "CheckLicense ex_unicode (ImgURL ex_stock) (Source ex_stock) = LicenseBlocked"
  "validated (validate_seq ex_runtime (defaults ex_runtime ex_config) 5 [ex_stock] (fresh () [])) = [ex_stock]"
  by code_simp+

text \<open>A picture is remembered by the dedup filter even when its candidate is rejected later.\<close>

definition ex_rejected :: ImageCandidate where
  "ex_rejected = ex_cand ''http://a/1.png'' LicenseUnknown"

definition ex_twin :: ImageCandidate where
  "ex_twin = ex_cand ''http://a/2.png'' LicenseSafe"

lemma ex_twin_lost:
  "validated (validate_seq ex_runtime (defaults ex_runtime ex_config) 5 [ex_twin] (fresh () [])) = [ex_twin]"
  "validated (validate_seq ex_runtime (defaults ex_runtime ex_config) 5 [ex_rejected, ex_twin] (fresh () [])) = []"
  by code_simp+

end
