(* ===== verification/Licensing_Properties.thy ===== *)
theory Licensing_Properties
  imports Assessment Query Examples "HOL-Library.Code_Target_Nat"
begin

text \<open>
  The properties of the licence components (license.go, cclicense.go, metadata.go,
  assessment.go) and of the query builder (query.go).
\<close>

section \<open>Domains\<close>

text \<open>
  C25: a block is never lifted. Whatever is Blocked under some extra blocked domains stays Blocked
  when domains are added, whatever the extra safe domains are, and no matter which of the two
  URLs is the image and which the page.
\<close>

theorem block_never_lifted:
  assumes "CheckLicenseWith u img src blocked safe = LicenseBlocked" and "set blocked \<subseteq> set blocked'"
  shows "CheckLicenseWith u img src blocked' safe' = LicenseBlocked \<and>
         CheckLicenseWith u src img blocked' safe' = LicenseBlocked"
  using assms by (auto dest: isBlockedWith_mono)

theorem block_never_lifted_witness:
  "CheckLicenseWith ex_unicode ''https://x.org/a'' ''https://shop.acme.com/p'' [''acme''] [] = LicenseBlocked \<and>
   CheckLicenseWith ex_unicode ''https://x.org/a'' ''https://shop.acme.com/p'' [''foo'', ''acme''] [''x.org''] = LicenseBlocked"
proof -
  have b: "CheckLicenseWith ex_unicode ''https://x.org/a'' ''https://shop.acme.com/p'' [''acme''] [] = LicenseBlocked"
    by code_simp
  have s: "set [''acme''] \<subseteq> set [''foo'', ''acme'']" by simp
  from block_never_lifted [OF b s, of "[''x.org'']"] b show ?thesis by blast
qed

lemma BlockedDomains_lower: "list_all (\<lambda>d. map lower_byte d = d \<and> d \<noteq> '''') BlockedDomains"
  by code_simp

text \<open>
  C26: an https URL with a host of letters, digits, dots, hyphens and underscores that contains a
  stock agency's domain, in any mixture of cases, and with nothing after it but a path of these
  characters and slashes, is Blocked, as the image URL and as the page URL, whatever the other URL is.
\<close>

theorem stock_site_blocked:
  assumes "d \<in> set BlockedDomains" and "map lower_byte e = d"
    and "plain_host (a @ e @ b)" and "plain_path p"
  shows "CheckLicense u (''https://'' @ (a @ e @ b) @ p) other = LicenseBlocked \<and>
         CheckLicense u other (''https://'' @ (a @ e @ b) @ p) = LicenseBlocked"
proof -
  have "contains_any (map lower_byte (a @ e @ b)) BlockedDomains"
    using blocked_host.matches_pattern [OF assms(1), of "map lower_byte a" "map lower_byte b"] assms(2) by simp
  moreover have "a @ e @ b \<noteq> ''''"
    using assms(1,2) BlockedDomains_lower by (auto simp: list_all_iff)
  ultimately have "isBlockedWith u (''https://'' @ (a @ e @ b) @ p) []"
    unfolding isBlockedWith_plain [OF assms(3,4)] by blast
  then show ?thesis by (simp add: CheckLicense_def)
qed

theorem stock_site_blocked_witness:
  "CheckLicense ex_unicode ''https://media.GettyImages.com/photos/1.jpg'' ''https://blog.example.org/'' = LicenseBlocked"
proof -
  have 1: "''gettyimages'' \<in> set BlockedDomains" by code_simp
  have 2: "map lower_byte ''GettyImages'' = ''gettyimages''" by code_simp
  have 3: "plain_host (''media.'' @ ''GettyImages'' @ ''.com'')" by code_simp
  have 4: "plain_path ''/photos/1.jpg''" by code_simp
  from stock_site_blocked [OF 1 2 3 4] show ?thesis by simp
qed

section \<open>Creative Commons\<close>

text \<open>
  C29: what \<^verbatim>\<open>ExtractCCLicense\<close> returns for an ASCII page is a Creative Commons licence URL: all four
  patterns are sound.
\<close>

theorem ExtractCCLicense_sound:
  assumes "is_ascii page" and "ExtractCCLicense u E page \<noteq> ''''"
  shows "IsCCLicenseURL u (ExtractCCLicense u E page)"
  using assms matchCCFromRel_IsCC [of u E] cc_capture [of page _ u E]
  by (auto simp: ExtractCCLicense_def split: if_splits option.splits)

definition ex_cc_page :: string where
  "ex_cc_page = ''<a rel='' @ [CHR 0x22] @ ''license'' @ [CHR 0x22] @ '' href='' @ [CHR 0x22]
     @ ''https://creativecommons.org/licenses/by/4.0/'' @ [CHR 0x22] @ ''>''"

theorem ExtractCCLicense_sound_witness:
  "IsCCLicenseURL ex_unicode (ExtractCCLicense ex_unicode (\<lambda>_. None) ex_cc_page)"
proof -
  have 1: "is_ascii ex_cc_page" by code_simp
  have 2: "ExtractCCLicense ex_unicode (\<lambda>_. None) ex_cc_page \<noteq> ''''" by code_simp
  show ?thesis by (rule ExtractCCLicense_sound [OF 1 2])
qed

section \<open>Metadata\<close>

text \<open>
  C27: the optimised word search is the word-boundary test: for every stock keyword it answers
  whether the keyword occurs with no letter or digit next to it, although it restarts one byte
  after a rejected occurrence and looks at the rest of the text only.
\<close>

theorem containsWord_is_word_test:
  assumes "word \<in> set stockMetadataKeywords"
  shows "containsWord tx word \<longleftrightarrow> (\<exists>i. word_at tx word i)"
  using assms stock_keywords_nonuniform by (intro containsWord_iff) (auto simp: list_all_iff)

theorem containsWord_is_word_test_witness:
  "containsWord ''xalamy (c) alamy'' ''alamy'' \<and> (\<exists>i. word_at ''xalamy (c) alamy'' ''alamy'' i)"
proof -
  have 1: "''alamy'' \<in> set stockMetadataKeywords" by code_simp
  have 2: "containsWord ''xalamy (c) alamy'' ''alamy''" by code_simp
  with containsWord_is_word_test [OF 1, of "''xalamy (c) alamy''"] show ?thesis by blast
qed

text \<open>The values of the rights fields.\<close>

definition rights :: "ImageMetadata \<Rightarrow> string set" where
  "rights m = set (stock_fields m) \<union> set (cc_fields m)"

lemma rights_update:
  "rights (m\<lparr>IPTCCopyright := v\<rparr>) \<subseteq> insert v (rights m)" "rights (m\<lparr>IPTCCredit := v\<rparr>) \<subseteq> insert v (rights m)"
  "rights (m\<lparr>IPTCByline := v\<rparr>) \<subseteq> insert v (rights m)" "rights (m\<lparr>IPTCSource := v\<rparr>) \<subseteq> insert v (rights m)"
  "rights (m\<lparr>EXIFCopyright := v\<rparr>) \<subseteq> insert v (rights m)" "rights (m\<lparr>EXIFArtist := v\<rparr>) \<subseteq> insert v (rights m)"
  "rights (m\<lparr>XMPMarked := b\<rparr>) \<subseteq> insert v (rights m)" "rights (m\<lparr>XMPWebStatement := v\<rparr>) \<subseteq> insert v (rights m)"
  "rights (m\<lparr>XMPUsageTerms := v\<rparr>) \<subseteq> insert v (rights m)" "rights (m\<lparr>XMPLicense := v\<rparr>) \<subseteq> insert v (rights m)"
  "rights (m\<lparr>DCRights := v\<rparr>) \<subseteq> insert v (rights m)" "rights (m\<lparr>DCCreator := v\<rparr>) \<subseteq> insert v (rights m)"
  by (auto simp: rights_def stock_fields_def cc_fields_def)

lemma pick_cases: "(c \<Longrightarrow> P x) \<Longrightarrow> (\<not> c \<Longrightarrow> P y) \<Longrightarrow> P (if c then x else y)"
  by simp

lemma handleTag_rights: "rights (fst (handleTag (m, found) ti)) \<subseteq> insert (tagValueString (ti_Value ti)) (rights m)"
proof (cases "ti_Source ti")
  case SrcEXIF
  then show ?thesis
    unfolding handleTag_def handleEXIFTag_def Let_def prod.case
    by (simp only: tag_source.case) (intro pick_cases [where P = "\<lambda>x. rights (fst x) \<subseteq> _"]; simp add: rights_update subset_insertI)
next
  case SrcIPTC
  then show ?thesis
    unfolding handleTag_def handleIPTCTag_def Let_def prod.case
    by (simp only: tag_source.case) (intro pick_cases [where P = "\<lambda>x. rights (fst x) \<subseteq> _"]; simp add: rights_update subset_insertI)
next
  case SrcXMP
  then show ?thesis
    unfolding handleTag_def handleXMPTag_def Let_def prod.case
    by (simp only: tag_source.case) (intro pick_cases [where P = "\<lambda>x. rights (fst x) \<subseteq> _"];
        simp add: rights_update subset_insertI split: tag_value.split)
qed (simp add: handleTag_def subset_insertI)

lemma handleTags_rights:
  "rights (fst (foldl handleTag (m, found) tags)) \<subseteq> rights m \<union> (\<lambda>ti. tagValueString (ti_Value ti)) ` set tags"
proof (induction tags arbitrary: m found)
  case (Cons ti tags)
  obtain m' found' where h: "handleTag (m, found) ti = (m', found')" by fastforce
  show ?case using Cons.IH [of m' found'] handleTag_rights [of m found ti] h by fastforce
qed simp

text \<open>
  C28: the extracted metadata is nothing but what the decoder reported: a failed decode yields nil,
  and every non-empty rights field of a result is the value of a wanted tag.
\<close>

theorem metadata_provenance:
  "(snd (dec data) \<longrightarrow> ExtractImageMetadata dec data = None) \<and>
   (\<forall>m f. ExtractImageMetadata dec data = Some m \<longrightarrow> f \<in> set (stock_fields m @ cc_fields m) \<longrightarrow> f \<noteq> '''' \<longrightarrow>
     (\<exists>ti. ti \<in> set (fst (dec data)) \<and> ti_Tag ti \<in> set (wantedTags (ti_Source ti)) \<and> tagValueString (ti_Value ti) = f))"
proof (intro conjI allI impI)
  show "snd (dec data) \<Longrightarrow> ExtractImageMetadata dec data = None"
    by (auto simp: ExtractImageMetadata_def Let_def split: if_splits prod.splits)
  fix m f
  assume some: "ExtractImageMetadata dec data = Some m" and f: "f \<in> set (stock_fields m @ cc_fields m)" "f \<noteq> ''''"
  let ?tags = "filter (\<lambda>ti. ti_Tag ti \<in> set (wantedTags (ti_Source ti))) (fst (dec data))"
  have m: "m = fst (foldl handleTag (zero_metadata, False) ?tags)"
    using some by (auto simp: ExtractImageMetadata_def Let_def split: if_splits prod.splits)
  have "rights zero_metadata = {''''}" by (simp add: rights_def zero_metadata_def stock_fields_def cc_fields_def)
  moreover have "f \<in> rights m" using f(1) by (simp add: rights_def)
  ultimately show "\<exists>ti. ti \<in> set (fst (dec data)) \<and> ti_Tag ti \<in> set (wantedTags (ti_Source ti)) \<and> tagValueString (ti_Value ti) = f"
    using handleTags_rights [of zero_metadata False ?tags] m f(2) by auto
qed

definition ex_tag :: TagInfo where
  "ex_tag = \<lparr>ti_Source = SrcEXIF, ti_Tag = ''Copyright'', ti_Value = TVString ''(c) Alamy''\<rparr>"

theorem metadata_provenance_witness:
  "\<exists>ti. ti \<in> set [ex_tag] \<and> ti_Tag ti \<in> set (wantedTags (ti_Source ti)) \<and> tagValueString (ti_Value ti) = ''(c) Alamy''"
proof -
  let ?m = "zero_metadata\<lparr>EXIFCopyright := ''(c) Alamy''\<rparr>"
  have 1: "ExtractImageMetadata (\<lambda>_. ([ex_tag], False)) ''x'' = Some ?m" by code_simp
  have 2: "''(c) Alamy'' \<in> set (stock_fields ?m @ cc_fields ?m)" by code_simp
  from metadata_provenance [of "\<lambda>_. ([ex_tag], False)" "''x''", THEN conjunct2, rule_format, OF 1 2] show ?thesis by simp
qed

section \<open>Assessment\<close>

text \<open>
  C23: the verdict is Blocked exactly when the search-time class of a named candidate is Blocked,
  when the extended lists block it, or when the metadata names a stock agency; no other
  evidence, safe signals included, changes that.
\<close>

theorem assessment_blocked_iff:
  "as_License (AssessLicense u cfg cand meta) = LicenseBlocked \<longleftrightarrow>
     License cand = LicenseBlocked \<and> \<not> (ImgURL cand = '''' \<and> Source cand = '''')
     \<or> ext_license u cfg cand = LicenseBlocked \<or> IsStockByMetadata u meta"
  unfolding AssessLicense_Blocked_iff by blast

text \<open>
  C24: the verdict is Safe exactly when it is not Blocked and there is positive evidence: a
  search-time class Safe, an extended safe domain or a Creative Commons metadata field.
\<close>

theorem assessment_safe_iff:
  "as_License (AssessLicense u cfg cand meta) = LicenseSafe \<longleftrightarrow>
     as_License (AssessLicense u cfg cand meta) \<noteq> LicenseBlocked
     \<and> (License cand = LicenseSafe \<and> \<not> (ImgURL cand = '''' \<and> Source cand = '''')
        \<or> ext_license u cfg cand = LicenseSafe \<or> IsCCByMetadata u meta)"
  using AssessLicense_Safe_iff [of u cfg cand meta] by blast

text \<open>
  The two scans agree: metadata counts as stock exactly when the detail scan finds a field,
  and that field is one of the scanned ones and contains a keyword as a word.
\<close>

theorem stock_detail_explains:
  "IsStockByMetadata u (Some m) \<longleftrightarrow>
     metadataStockDetail u (Some m) \<in> set (stock_fields m) \<and> metadataStockDetail u (Some m) \<noteq> '''' \<and>
     (\<exists>w i. w \<in> set stockMetadataKeywords \<and> word_at (ToLower u (metadataStockDetail u (Some m))) w i)"
proof
  assume s: "IsStockByMetadata u (Some m)"
  then obtain f where f: "List.find (stock_field_hit u) (stock_fields m) = Some f"
    using stock_detail_iff [of u "Some m"] by (auto simp: metadataStockDetail_def split: option.splits)
  then have "f \<in> set (stock_fields m)" "stock_field_hit u f" using find_Some_set [OF f] by simp_all
  moreover have "metadataStockDetail u (Some m) = f" using f by (simp add: metadataStockDetail_def)
  moreover have "containsWord (ToLower u f) w \<longleftrightarrow> (\<exists>i. word_at (ToLower u f) w i)" if "w \<in> set stockMetadataKeywords" for w
    using that stock_keywords_nonuniform by (intro containsWord_iff) (auto simp: list_all_iff)
  ultimately show "metadataStockDetail u (Some m) \<in> set (stock_fields m) \<and> metadataStockDetail u (Some m) \<noteq> '''' \<and>
      (\<exists>w i. w \<in> set stockMetadataKeywords \<and> word_at (ToLower u (metadataStockDetail u (Some m))) w i)"
    by (auto simp: stock_field_hit_def list_ex_iff)
next
  assume "metadataStockDetail u (Some m) \<in> set (stock_fields m) \<and> metadataStockDetail u (Some m) \<noteq> '''' \<and>
      (\<exists>w i. w \<in> set stockMetadataKeywords \<and> word_at (ToLower u (metadataStockDetail u (Some m))) w i)"
  then show "IsStockByMetadata u (Some m)" using stock_detail_iff [of u "Some m"] by blast
qed

section \<open>Queries\<close>

text \<open>
  C30: a query built without a city consists of at most five words; each is part of a word of the
  title, has at least three characters and is no stop word of the language.
\<close>

theorem query_words_meaningful:
  assumes "BuildImageQueryLang u title '''' lang \<noteq> ''''"
    and "w \<in> set (SplitByte (BuildImageQueryLang u title '''' lang) (CHR '' ''))"
  shows "length (SplitByte (BuildImageQueryLang u title '''' lang) (CHR '' '')) \<le> 5 \<and> 3 \<le> RuneCount w \<and>
    ToLower u w \<notin> set (stop_words_for u lang) \<and> (\<exists>f. f \<in> set (Fields u title) \<and> sublist w f)"
proof -
  have "query_words u title lang \<noteq> []"
    using assms(1) by (auto simp: BuildImageQueryLang_no_city)
  then have split: "SplitByte (BuildImageQueryLang u title '''' lang) (CHR '' '') = query_words u title lang"
    by (rule Split_query)
  then show ?thesis
    using query_wordsD [of w u title lang] assms(2)
    by (auto simp: query_words_def maxQueryWords_def minWordRunes_def)
qed

theorem query_words_meaningful_witness:
  "BuildImageQueryLang ex_unicode ''The best cafes, bars (and) museums'' '''' ''en-US'' = ''cafes bars museums'' \<and>
   3 \<le> RuneCount ''bars'' \<and> ToLower ex_unicode ''bars'' \<notin> set (stop_words_for ex_unicode ''en-US'')"
proof -
  let ?t = "''The best cafes, bars (and) museums''"
  have q: "BuildImageQueryLang ex_unicode ?t '''' ''en-US'' = ''cafes bars museums''" by code_simp
  then have 1: "BuildImageQueryLang ex_unicode ?t '''' ''en-US'' \<noteq> ''''" by simp
  have 2: "''bars'' \<in> set (SplitByte (BuildImageQueryLang ex_unicode ?t '''' ''en-US'') (CHR '' ''))"
    unfolding q by code_simp
  from query_words_meaningful [OF 1 2] q show ?thesis by blast
qed

lemma is_ascii_Join: "\<forall>w \<in> set ws. is_ascii w \<Longrightarrow> is_ascii s \<Longrightarrow> is_ascii (Join ws s)"
  by (induction ws s rule: Join.induct) auto

lemma sublist_ascii: "sublist a b \<Longrightarrow> is_ascii b \<Longrightarrow> is_ascii a"
  by (auto simp: sublist_def)

lemma Fields_ascii: "is_ascii s \<Longrightarrow> w \<in> set (Fields u s) \<Longrightarrow> is_ascii w"
proof -
  have "is_ascii acc \<Longrightarrow> (\<And>r bs. (r, bs) \<in> set cs \<Longrightarrow> is_ascii bs) \<Longrightarrow> w \<in> set (fields_chunks u cs acc) \<Longrightarrow> is_ascii w" for cs acc
    by (induction u cs acc rule: fields_chunks.induct) (auto split: if_splits)
  moreover assume "is_ascii s" "w \<in> set (Fields u s)"
  moreover have "is_ascii bs" if "(r, bs) \<in> set (chunks s)" for r bs
    using that \<open>is_ascii s\<close> by (auto simp: chunks_ascii is_ascii_def list_all_iff)
  ultimately show ?thesis unfolding Fields_def by (metis is_ascii_simps(1))
qed

text \<open>
  On ASCII input the query always names the city, if one is given: either the words already
  contain it, in any case, or it is appended.
\<close>

theorem query_names_city:
  assumes "is_ascii title" and "is_ascii city"
  shows "Contains (ToLower u (BuildImageQueryLang u title city lang)) (ToLower u city)"
proof (cases "city \<noteq> '''' \<and> \<not> Contains (ToLower u (Join (query_words u title lang) '' '')) (ToLower u city)")
  case True
  let ?q = "Join (query_words u title lang) '' ''"
  have "is_ascii ?q"
    using query_wordsD sublist_ascii Fields_ascii [OF assms(1)] by (intro is_ascii_Join) (auto, blast)
  moreover have "BuildImageQueryLang u title city lang = ?q @ '' '' @ city"
    using True by (simp add: BuildImageQueryLang_def query_words_def Let_def)
  ultimately show ?thesis
    using assms(2) by (simp add: ToLower_ascii Contains_iff) (metis append.assoc append_Cons append_Nil append_Nil2)
next
  case False
  then show ?thesis by (auto simp: BuildImageQueryLang_def query_words_def Let_def)
qed

theorem query_names_city_witness:
  "Contains (ToLower ex_unicode (BuildImageQueryLang ex_unicode ''Hidden courtyards'' ''Tula'' ''en'')) ''tula''"
proof -
  have 1: "is_ascii ''Hidden courtyards''" by code_simp
  have 2: "is_ascii ''Tula''" by code_simp
  have 3: "ToLower ex_unicode ''Tula'' = ''tula''" by code_simp
  from query_names_city [OF 1 2, of ex_unicode "''en''"] show ?thesis unfolding 3 .
qed

end
