(* ===== verification/Fetching_Properties.thy ===== *)
theory Fetching_Properties
  imports Classify Reverse Examples "HOL-Library.Code_Target_Nat"
begin

text \<open>
  The properties of the helpers, the configuration, the classification parser and cache, the
  downloads and probes, the perceptual hash and the reverse search.
\<close>

section \<open>Encodings\<close>

text \<open>
  C40: a data URL carries the image: after its header stands base64 text of the expected length
  that decodes to exactly the bytes that were encoded.
\<close>

theorem data_url_roundtrip:
  "\<exists>b. EncodeDataURL data mime = ''data:'' @ mime @ '';base64,'' @ b \<and> b64_decode b = Some data
     \<and> length b = (length data + 2) div 3 * 4"
  by (auto simp: EncodeDataURL_def b64_decode_encode length_EncodeBase64)

text \<open>
  An og:image URL comes from the page: it is the unescaped form of a non-empty piece of the
  page without quotes.
\<close>

theorem og_image_from_page:
  assumes "ExtractOGImageURL E page \<noteq> ''''"
  shows "\<exists>v. Contains page v \<and> v \<noteq> '''' \<and> CHR 0x22 \<notin> set v \<and> CHR 0x27 \<notin> set v
     \<and> ExtractOGImageURL E page = UnescapeString E v"
proof -
  obtain m where m: "FindStringSubmatch ogImageRe page = Some m"
    using assms by (auto simp: ExtractOGImageURL_def split: option.splits)
  obtain w where w: "Contains page w" "rx_rel ogImageRe w m" using FindStringSubmatch_rel [OF m] by blast
  from ogImage_groups [OF w(2)] obtain n v where n: "n \<in> {1, 2}" "m = [(n, v)]"
    and v: "v \<noteq> ''''" "CHR 0x22 \<notin> set v" "CHR 0x27 \<notin> set v" "Contains w v" by blast
  have "ExtractOGImageURL E page = UnescapeString E v"
    using m n v(1) by (auto simp: ExtractOGImageURL_def Let_def)
  then show ?thesis using v w(1) Contains_trans by blast
qed

definition ex_og_page :: string where
  "ex_og_page = ''<meta property='' @ [CHR 0x22] @ ''og:image'' @ [CHR 0x22] @ '' content='' @ [CHR 0x22]
     @ ''http://a/1.jpg'' @ [CHR 0x22] @ ''>''"

theorem og_image_from_page_witness:
  "ExtractOGImageURL (\<lambda>_. None) ex_og_page = ''http://a/1.jpg'' \<and>
   (\<exists>v. Contains ex_og_page v \<and> UnescapeString (\<lambda>_. None) v = ''http://a/1.jpg'')"
proof -
  have 1: "ExtractOGImageURL (\<lambda>_. None) ex_og_page = ''http://a/1.jpg''" by code_simp
  then have 2: "ExtractOGImageURL (\<lambda>_. None) ex_og_page \<noteq> ''''" by simp
  from og_image_from_page [OF 2] 1 show ?thesis by metis
qed

section \<open>Configuration\<close>

text \<open>
  Filling in defaults twice is filling them in once, and a filled-in configuration has a
  positive minimum width, a user agent and a client: the nil client is never dereferenced.
\<close>

theorem defaults_complete:
  "defaults rt (defaults rt c) = defaults rt c \<and> 0 < cfg_MinImageWidth (defaults rt c)
   \<and> cfg_UserAgent (defaults rt c) \<noteq> '''' \<and> cfg_HTTPClient (defaults rt c) \<noteq> None"
  by (simp add: defaults_MinImageWidth defaults_UserAgent del: or_default_nonempty)

section \<open>The classification parser\<close>

lemma find_class_prefix:
  assumes "c \<in> set classificationClasses" and "HasPrefix s c"
  shows "List.find (\<lambda>cls. HasPrefix s cls) classificationClasses = Some c"
  using find_class [OF assms(1)] assms(2) by (auto simp: HasPrefix_def prefix_def)

text \<open>
  An answer that starts with a label, after trimming and in any case, is classified by it,
  whatever follows: in particular the first field after the label always exists when it is
  looked at.
\<close>

theorem answer_label_recognised:
  assumes "unicode_ok u" and "c \<in> set classificationClasses" and "HasPrefix (ToUpper u (TrimSpace u resp)) c"
  shows "Class (ParseClassificationResult u resp) = c"
proof -
  let ?up = "ToUpper u (TrimSpace u resp)"
  have ne: "?up \<noteq> ''''" using assms(2,3) class_shape [OF assms(2)] by (auto simp: HasPrefix_def)
  have fields: "TrimSpace u s \<noteq> '''' \<Longrightarrow> Fields u (TrimSpace u s) \<noteq> []" for s
    using Fields_TrimSpace_nonempty [OF assms(1)] by blast
  show ?thesis
    using ne fields [of "drop (length c) ?up"] find_class_prefix [OF assms(2,3)]
    by (auto simp: ParseClassificationResult_def Let_def split: list.splits option.splits)
qed

theorem answer_label_recognised_witness:
  "Class (ParseClassificationResult ex_unicode ''  stock, I think'') = ''STOCK''"
proof -
  have 1: "unicode_ok ex_unicode" by code_simp
  have 2: "''STOCK'' \<in> set classificationClasses" by code_simp
  have 3: "HasPrefix (ToUpper ex_unicode (TrimSpace ex_unicode ''  stock, I think'')) ''STOCK''" by code_simp
  show ?thesis by (rule answer_label_recognised [OF 1 2 3])
qed

text \<open>
  C32: an answer that starts with a label keeps the documented range of the confidence: unless its
  first word after the label is a form of NaN, the confidence is a number between 0 and 1, and when
  it is not 0 it is the number that word stands for.
\<close>

theorem answer_confidence:
  assumes "unicode_ok u" and "c \<in> set classificationClasses" and "ToUpper u (TrimSpace u resp) = c @ rest"
    and "\<forall>w ws. Fields u (TrimSpace u rest) = w # ws \<longrightarrow> ParseFloat w \<noteq> Some NaN"
  shows "\<exists>x. ParseClassificationResult u resp = \<lparr>Class = c, Confidence = Fin x\<rparr> \<and> 0 \<le> x \<and> x \<le> 1 \<and>
    (x \<noteq> 0 \<longrightarrow> (\<exists>w ws. Fields u (TrimSpace u rest) = w # ws \<and> ParseFloat w = Some (Fin x)))"
proof (cases "TrimSpace u rest = ''''")
  case True
  have "List.find (\<lambda>cls. HasPrefix (c @ rest) cls) classificationClasses = Some c" by (rule find_class [OF assms(2)])
  with True class_shape [OF assms(2)] show ?thesis
    unfolding ParseClassificationResult_def assms(3) by (intro exI [of _ 0]) (simp add: Let_def)
next
  case False
  then obtain w ws where f: "Fields u (TrimSpace u rest) = w # ws"
    using Fields_TrimSpace_nonempty [OF assms(1)] by (meson list.exhaust)
  define v where "v = (case ParseFloat w of None \<Rightarrow> Fin 0 | Some v \<Rightarrow> if f64_le v 0 \<or> f64_gt v 1 then Fin 0 else v)"
  have "List.find (\<lambda>cls. HasPrefix (c @ rest) cls) classificationClasses = Some c" by (rule find_class [OF assms(2)])
  then have r: "ParseClassificationResult u resp = \<lparr>Class = c, Confidence = v\<rparr>"
    using False f class_shape [OF assms(2)]
    unfolding ParseClassificationResult_def assms(3) v_def by (simp add: Let_def split: option.splits)
  have "v = Fin 0 \<or> (\<exists>x. v = Fin x \<and> 0 < x \<and> x \<le> 1 \<and> ParseFloat w = Some (Fin x))"
  proof (cases "ParseFloat w")
    case (Some y)
    then have "y \<noteq> NaN" using assms(4) f by auto
    with Some show ?thesis by (cases y) (auto simp: v_def)
  qed (simp add: v_def)
  with r f show ?thesis by force
qed

theorem answer_confidence_witness:
  "\<exists>x. ParseClassificationResult ex_unicode '' stock 7, no doubt'' = \<lparr>Class = ''STOCK'', Confidence = Fin x\<rparr> \<and> 0 \<le> x \<and> x \<le> 1"
proof -
  have 1: "unicode_ok ex_unicode" by code_simp
  have 2: "''STOCK'' \<in> set classificationClasses" by code_simp
  have 3: "ToUpper ex_unicode (TrimSpace ex_unicode '' stock 7, no doubt'') = ''STOCK'' @ '' 7, NO DOUBT''" by code_simp
  have f: "Fields ex_unicode (TrimSpace ex_unicode '' 7, NO DOUBT'') = [''7,'', ''NO'', ''DOUBT'']" by code_simp
  have n: "ParseFloat ''7,'' = None" by code_simp
  have 4: "\<forall>w ws. Fields ex_unicode (TrimSpace ex_unicode '' 7, NO DOUBT'') = w # ws \<longrightarrow> ParseFloat w \<noteq> Some NaN"
    unfolding f using n by simp
  from answer_confidence [OF 1 2 3 4] show ?thesis by blast
qed

lemma is_ascii_map_upper: "is_ascii (map upper_byte s) \<longleftrightarrow> is_ascii s"
  by (induction s) (auto simp: of_char_upper_byte lower_ascii_def)

text \<open>
  C31: the answer format of the prompt is read back: a label, a blank and a decimal in (0, 1], in
  any case, give the label and the value of the decimal.
\<close>

theorem answer_roundtrip:
  assumes "c \<in> set classificationClasses" and "is_ascii s" and "map upper_byte s = c @ '' '' @ w"
    and "w \<noteq> ''''" and "list_all (\<lambda>b. \<not> space_byte b) w" and "ParseFloat w = Some (Fin x)" and "0 < x" and "x \<le> 1"
  shows "ParseClassificationResult u s = \<lparr>Class = c, Confidence = Fin x\<rparr>"
proof -
  have sp: "space_byte (upper_byte b) = space_byte b" for b
    by (auto simp: space_byte_def of_char_upper_byte lower_ascii_def)
  have shape: "c \<noteq> []" "\<not> space_byte (hd c)" using class_shape [OF assms(1)] by simp_all
  have ne: "s \<noteq> []" using assms(3) shape by auto
  have "space_byte (hd s) = space_byte (hd (c @ '' '' @ w))" "space_byte (last s) = space_byte (last (c @ '' '' @ w))"
    using ne sp by (metis assms(3) hd_map, metis assms(3) last_map)
  then have "\<not> space_byte (hd s) \<and> \<not> space_byte (last s)"
    using shape assms(4,5) by (auto simp: list_all_iff)
  then have t: "TrimSpace u s = s" using assms(2) by (intro TrimSpace_ascii_id) simp_all
  have up: "ToUpper u s = c @ '' '' @ w" using assms(2,3) by (simp add: ToUpper_ascii)
  have asc: "is_ascii w"
    using assms(2) is_ascii_map_upper [of s] unfolding assms(3) by simp
  have tw: "TrimSpace u ('' '' @ w) = w"
    using assms(4,5) asc by (simp add: TrimSpace_ascii_lead TrimSpace_ascii_id space_byte_def list_all_iff)
  have "Fields u w = [w]" using Fields_ascii_word [OF asc] assms(4,5) by simp
  moreover have "List.find (\<lambda>cls. HasPrefix (c @ '' '' @ w) cls) classificationClasses = Some c"
    by (rule find_class [OF assms(1)])
  ultimately show ?thesis
    unfolding ParseClassificationResult_def t up Let_def using tw assms(4,6,7,8) by simp
qed

theorem answer_roundtrip_witness:
  "ParseClassificationResult ex_unicode ''photo 0.5'' = \<lparr>Class = ''PHOTO'', Confidence = Fin (1/2)\<rparr>"
proof -
  have 1: "''PHOTO'' \<in> set classificationClasses" by code_simp
  have 2: "is_ascii ''photo 0.5''" by code_simp
  have 3: "map upper_byte ''photo 0.5'' = ''PHOTO'' @ '' '' @ ''0.5''" by code_simp
  have 4: "list_all (\<lambda>b. \<not> space_byte b) ''0.5''" by code_simp
  have 5: "ParseFloat ''0.5'' = Some (Fin (1/2))" by code_simp
  show ?thesis using answer_roundtrip [OF 1 2 3 _ 4 5] by simp
qed

text \<open>
  The documented range of the confidence, (0, 1] or 0, is not kept: an answer whose number is
  NaN yields the confidence NaN, because both comparisons of the guard are false.
\<close>

theorem nan_confidence_accepted:
  "ParseClassificationResult ex_unicode ''PHOTO NaN'' = \<lparr>Class = ''PHOTO'', Confidence = NaN\<rparr>"
  by code_simp

text \<open>A label of a custom prompt that is none of the seven is not recognised, and so accepted by the pipeline.\<close>

lemma custom_label_dropped:
  "ParseClassificationResult ex_unicode ''NSFW 0.97'' = no_result \<and> Class no_result = []"
  by code_simp

section \<open>The perceptual hash\<close>

text \<open>
  The bit-by-bit loop that compilers without the intrinsic use counts the same bits as
  \<^verbatim>\<open>bits.OnesCount64\<close>, for every 64-bit word.
\<close>

theorem popcount_loop_equivalent: "popcnt_loop x 0 = popcnt x"
  by (simp add: popcnt_loop_eq)

lemma leftShiftSet_bit:
  "0 \<le> i \<Longrightarrow> i < 64 \<Longrightarrow> bit (hash (leftShiftSet h i)) j \<longleftrightarrow> bit (hash h) j \<or> j = nat i"
  by (auto simp: leftShiftSet_def bit_or_iff bit_exp_iff)

text \<open>One row of \<open>n + 1\<close> grey values from bit index \<open>idx\<close> on.\<close>

lemma dhash_row_bits:
  assumes "length row = Suc n" and "idx + n \<le> 64"
  shows "fst (dhash_row row (idx, h)) = idx + n \<and>
    (\<forall>j < 64. bit (hash (snd (dhash_row row (idx, h)))) j \<longleftrightarrow>
       bit (hash h) j \<or> (\<exists>k < n. j = 63 - (idx + k) \<and> row ! k < row ! Suc k))"
  using assms
proof (induction n arbitrary: row idx h)
  case 0
  then obtain p where "row = [p]" by (auto simp: length_Suc_conv)
  then show ?case by simp
next
  case (Suc n)
  then obtain p q ps where row: "row = p # q # ps" "length ps = n" by (auto simp: length_Suc_conv)
  let ?h = "if p < q then leftShiftSet h (64 - int idx - 1) else h"
  have IH: "fst (dhash_row (q # ps) (Suc idx, ?h)) = Suc idx + n \<and>
      (\<forall>j < 64. bit (hash (snd (dhash_row (q # ps) (Suc idx, ?h)))) j \<longleftrightarrow>
         bit (hash ?h) j \<or> (\<exists>k < n. j = 63 - (Suc idx + k) \<and> (q # ps) ! k < (q # ps) ! Suc k))"
    using Suc.IH [of "q # ps" "Suc idx" ?h] row Suc.prems by simp
  have "bit (hash ?h) j \<longleftrightarrow> bit (hash h) j \<or> p < q \<and> j = 63 - idx" for j
    using leftShiftSet_bit [of "64 - int idx - 1" h j] Suc.prems(2) by (auto simp: nat_diff_distrib)
  moreover have "(\<exists>k < Suc n. j = 63 - (idx + k) \<and> row ! k < row ! Suc k) \<longleftrightarrow>
      p < q \<and> j = 63 - idx \<or> (\<exists>k < n. j = 63 - (Suc idx + k) \<and> (q # ps) ! k < (q # ps) ! Suc k)" for j
    unfolding row(1) by (auto simp: less_Suc_eq_0_disj)
  ultimately show ?case using IH row by auto
qed

lemma dhash_rows_bits:
  assumes "\<forall>row \<in> set rows. length row = 9" and "idx + 8 * length rows \<le> 64"
  shows "fst (fold dhash_row rows (idx, h)) = idx + 8 * length rows \<and>
    (\<forall>j < 64. bit (hash (snd (fold dhash_row rows (idx, h)))) j \<longleftrightarrow>
       bit (hash h) j \<or> (\<exists>r < length rows. \<exists>k < 8. j = 63 - (idx + 8 * r + k) \<and> rows ! r ! k < rows ! r ! Suc k))"
  using assms
proof (induction rows arbitrary: idx h)
  case (Cons row rows)
  obtain i' h' where st: "dhash_row row (idx, h) = (i', h')" by fastforce
  have row: "i' = idx + 8" "\<forall>j < 64. bit (hash h') j \<longleftrightarrow>
      bit (hash h) j \<or> (\<exists>k < 8. j = 63 - (idx + k) \<and> row ! k < row ! Suc k)"
    using dhash_row_bits [of row 8 idx h] Cons.prems st by auto
  have IH: "fst (fold dhash_row rows (idx + 8, h')) = idx + 8 + 8 * length rows \<and>
      (\<forall>j < 64. bit (hash (snd (fold dhash_row rows (idx + 8, h')))) j \<longleftrightarrow>
       bit (hash h') j \<or> (\<exists>r < length rows. \<exists>k < 8. j = 63 - (idx + 8 + 8 * r + k) \<and> rows ! r ! k < rows ! r ! Suc k))"
    using Cons.IH [of "idx + 8" h'] Cons.prems by simp
  have "(\<exists>r < length (row # rows). \<exists>k < 8. j = 63 - (idx + 8 * r + k) \<and> (row # rows) ! r ! k < (row # rows) ! r ! Suc k) \<longleftrightarrow>
      (\<exists>k < 8. j = 63 - (idx + k) \<and> row ! k < row ! Suc k) \<or>
      (\<exists>r < length rows. \<exists>k < 8. j = 63 - (idx + 8 + 8 * r + k) \<and> rows ! r ! k < rows ! r ! Suc k)" for j
    by (simp only: length_Cons Ex_less_Suc2 nth_Cons_0 nth_Cons_Suc mult_0_right add_0_right add_0_left mult_Suc_right add.assoc)
  then show ?case using IH row st by simp
qed simp

text \<open>
  C35: the hash is the picture of the grey gradient: for an 8 by 9 grid of grey values, bit
  \<open>63 - (8 r + k)\<close> says whether the value at row \<open>r\<close>, column \<open>k\<close> is smaller than its right
  neighbour.
\<close>

theorem difference_hash_bits:
  assumes "length (gray im) = 8" and "\<forall>row \<in> set (gray im). length row = 9" and "r < 8" and "k < 8"
  shows "\<exists>h. DifferenceHash gray (Some im) = Inr h \<and> kind h = DHash \<and>
    (bit (hash h) (63 - (8 * r + k)) \<longleftrightarrow> gray im ! r ! k < gray im ! r ! Suc k)"
proof -
  let ?z = "\<lparr>hash = 0, kind = DHash\<rparr>"
  let ?h = "snd (fold dhash_row (gray im) (0, ?z))"
  have kind_row: "kind (snd (dhash_row row p)) = kind (snd p)" for row p
    by (induction row p rule: dhash_row.induct) (auto simp: leftShiftSet_def)
  have "kind (snd (fold dhash_row rows p)) = kind (snd p)" for rows p
    by (induction rows arbitrary: p) (auto simp: kind_row)
  then have kd: "kind ?h = DHash" by simp
  have "bit (hash ?h) (63 - (8 * r + k)) \<longleftrightarrow>
      (\<exists>r' < 8. \<exists>k' < 8. 63 - (8 * r + k) = 63 - (8 * r' + k') \<and> gray im ! r' ! k' < gray im ! r' ! Suc k')"
    using dhash_rows_bits [of "gray im" 0 ?z] assms by simp
  also have "\<dots> \<longleftrightarrow> gray im ! r ! k < gray im ! r ! Suc k"
  proof -
    have "r' = r \<and> k' = k" if "63 - (8 * r + k) = 63 - (8 * r' + k')" "r' < 8" "k' < 8" for r' k'
    proof -
      have "8 * r + k \<le> 63" "8 * r' + k' \<le> 63" using that(2,3) assms(3,4) by simp_all
      then have e: "8 * r + k = 8 * r' + k'" using that(1) by linarith
      then have "(8 * r + k) div 8 = (8 * r' + k') div 8" "(8 * r + k) mod 8 = (8 * r' + k') mod 8" by simp_all
      then show ?thesis using that(3) assms(4) by simp
    qed
    then show ?thesis using assms(3,4) by blast
  qed
  finally show ?thesis using kd by (auto simp: DifferenceHash_def)
qed

definition ex_rows :: "rat list list" where
  "ex_rows = [[0, 1, 1, 1, 1, 1, 1, 1, 1], [0, 1, 1, 1, 1, 1, 1, 1, 1], [0, 1, 1, 1, 1, 1, 1, 1, 1], [0, 1, 1, 1, 1, 1, 1, 1, 1],
     [0, 1, 1, 1, 1, 1, 1, 1, 1], [0, 1, 1, 1, 1, 1, 1, 1, 1], [0, 1, 1, 1, 1, 1, 1, 1, 1], [3, 1, 1, 1, 1, 1, 1, 1, 2]]"

theorem difference_hash_bits_witness:
  "\<exists>h. DifferenceHash (\<lambda>_. ex_rows) (Some (Image [])) = Inr h \<and> kind h = DHash \<and> bit (hash h) 0"
proof -
  have 1: "length ex_rows = 8" by (simp add: ex_rows_def)
  have 2: "\<forall>row \<in> set ex_rows. length row = 9" by (simp add: ex_rows_def)
  have 3: "ex_rows ! 7 ! 7 < ex_rows ! 7 ! Suc 7" by (simp add: ex_rows_def)
  from difference_hash_bits [of "\<lambda>_. ex_rows" "Image []" 7 7, OF 1 2] 3 show ?thesis by simp
qed

text \<open>The hashes a filter has kept after a sequence of calls.\<close>

definition kept :: "grayscale \<Rightarrow> image option list \<Rightarrow> ImageHash list" where
  "kept gray imgs = foldl (\<lambda>hs img. snd (isDuplicate gray hs img)) [] imgs"

lemma kept_DHash: "\<forall>h \<in> set hs. kind h = DHash \<Longrightarrow> \<forall>h \<in> set (snd (isDuplicate gray hs img)). kind h = DHash"
proof -
  have kind_row: "kind (snd (dhash_row row p)) = kind (snd p)" for row p
    by (induction row p rule: dhash_row.induct) (auto simp: leftShiftSet_def)
  have "kind (snd (fold dhash_row rows p)) = kind (snd p)" for rows p
    by (induction rows arbitrary: p) (auto simp: kind_row)
  then show "\<forall>h \<in> set hs. kind h = DHash \<Longrightarrow> ?thesis"
    by (auto simp: isDuplicate_def DifferenceHash_def split: option.splits)
qed

lemma kept_invariant:
  "sorted_wrt (\<lambda>a b. \<not> close_to a b) hs \<Longrightarrow> \<forall>h \<in> set hs. kind h = DHash \<Longrightarrow>
     (let ks = foldl (\<lambda>hs img. snd (isDuplicate gray hs img)) hs imgs in
      sorted_wrt (\<lambda>a b. \<not> close_to a b) ks \<and> (\<forall>h \<in> set ks. kind h = DHash))"
proof (induction imgs arbitrary: hs)
  case (Cons img imgs)
  show ?case
    using Cons.IH [of "snd (isDuplicate gray hs img)"] kept_DHash [OF Cons.prems(2), of gray img]
      dedup.offer_apart [unfolded dedup.apart_def, OF Cons.prems(1), of gray img] by simp
qed simp

text \<open>
  Whatever images are offered, the hashes the filter keeps differ pairwise in at least ten
  bits.
\<close>

theorem dedup_keeps_distinct:
  "sorted_wrt (\<lambda>a b. 10 \<le> popcnt (hash a XOR hash b)) (kept gray imgs)"
proof -
  have k: "sorted_wrt (\<lambda>a b. \<not> close_to a b) (kept gray imgs)" "\<forall>h \<in> set (kept gray imgs). kind h = DHash"
    using kept_invariant [of "[]" gray imgs] by (simp_all add: kept_def Let_def)
  show ?thesis
    by (rule sorted_wrt_mono_rel [OF _ k(1)]) (use k(2) in \<open>auto simp: close_to_def Distance_def dedupThreshold_def\<close>)
qed

section \<open>Downloads\<close>

text \<open>
  C36: a download hands on an image: an image content type without parameters that break the
  prefix, at least \<^verbatim>\<open>MinBytes\<close> and at most \<^verbatim>\<open>MaxBytes\<close> bytes (200 KB when no limit is set), through
  whichever client it came.
\<close>

theorem download_bounded:
  assumes "Download rt cfg url opts = Some r"
  shows "HasPrefix (dr_MIMEType r) ''image/'' \<and> dl_MinBytes opts \<le> int (length (dr_Data r)) \<and>
    int (length (dr_Data r)) \<le> (if dl_MaxBytes opts \<le> 0 then 204800 else dl_MaxBytes opts)"
  using Download_fetched [OF assms] by (simp add: download_defaults_def defaultMaxBytes_def split: if_splits)

theorem download_bounded_witness:
  "Download ex_runtime ex_config ''http://a/1.jpg'' (zero_DownloadOpts\<lparr>dl_MaxBytes := 5\<rparr>) =
     Some \<lparr>dr_Data = ''http:'', dr_MIMEType = ''image/jpeg''\<rparr> \<and> int (length ''http:'') \<le> 5"
proof -
  have 1: "Download ex_runtime ex_config ''http://a/1.jpg'' (zero_DownloadOpts\<lparr>dl_MaxBytes := 5\<rparr>) =
     Some \<lparr>dr_Data = ''http:'', dr_MIMEType = ''image/jpeg''\<rparr>" by code_simp
  from download_bounded [OF 1] 1 show ?thesis by simp
qed

lemma validation_Do:
  "Do (validationClient rt (defaults rt cfg)) = follow (Transport (client_or_default rt (cfg_HTTPClient cfg))) 2"
proof -
  have "client_or_default rt (Some c) = c" for c by (simp add: client_or_default_def)
  then show ?thesis by (simp add: fun_eq_iff Do_def validationClient_def maxRedirects_def)
qed

text \<open>
  C37: an accepted probe sent one, two or three requests: the GET of the URL, and from every redirect
  answer the request that follows it. The URL is no logo, and the answer to the last request, no
  redirect itself, had status 200, an image content type and, where its width could be read, at
  least the configured minimum width.
\<close>

theorem probe_accepts_images:
  assumes "ValidateImageURL rt cfg url"
  shows "\<not> IsLogoOrBanner (ToLower (rt_unicode rt) url) \<and>
    (\<exists>reqs resp. 1 \<le> length reqs \<and> length reqs \<le> 3 \<and> req_Method (hd reqs) = ''GET'' \<and> req_URL (hd reqs) = url
       \<and> (\<forall>i. Suc i < length reqs \<longrightarrow> (\<exists>r. Transport (client_or_default rt (cfg_HTTPClient cfg)) (reqs ! i) = Inr r
            \<and> next_hop r (reqs ! i) = Some (reqs ! Suc i)))
       \<and> Transport (client_or_default rt (cfg_HTTPClient cfg)) (last reqs) = Inr resp \<and> next_hop resp (last reqs) = None
       \<and> StatusCode resp = 200 \<and> HasPrefix (ContentType resp) ''image/''
       \<and> (case rt_DecodeConfig rt (limit_bytes decodeLimit (Body resp)) of
            None \<Rightarrow> True | Some w \<Rightarrow> cfg_MinImageWidth (defaults rt cfg) \<le> w))"
proof -
  let ?tr = "Transport (client_or_default rt (cfg_HTTPClient cfg))"
  obtain req resp where req: "NewRequest ''GET'' url [] defaultTimeout = Inr req"
    and resp: "follow ?tr 2 (SetHeader ''User-Agent'' (cfg_UserAgent (defaults rt cfg)) req) = Inr resp"
    and ok: "\<not> IsLogoOrBanner (ToLower (rt_unicode rt) url)" "StatusCode resp = 200" "HasPrefix (ContentType resp) ''image/''"
      "case rt_DecodeConfig rt (limit_bytes decodeLimit (Body resp)) of None \<Rightarrow> True | Some w \<Rightarrow> cfg_MinImageWidth (defaults rt cfg) \<le> w"
    using assms unfolding ValidateImageURL_def Let_def validation_Do
    by (fastforce split: if_splits sum.splits option.splits)
  let ?rs = "sent ?tr 2 (SetHeader ''User-Agent'' (cfg_UserAgent (defaults rt cfg)) req)"
  have "1 \<le> length ?rs \<and> length ?rs \<le> 3" using length_sent [of ?tr 2] by (simp add: Suc_le_eq numeral_3_eq_3)
  moreover have "req_Method (hd ?rs) = ''GET'' \<and> req_URL (hd ?rs) = url"
    using req by (auto simp: hd_sent NewRequest_def SetHeader_def split: option.splits)
  ultimately show ?thesis
    using ok follow_last_sent [OF resp] sent_chain [of _ ?tr 2] by (intro conjI exI [of _ ?rs] exI [of _ resp]) simp_all
qed

theorem probe_accepts_images_witness:
  "\<not> IsLogoOrBanner (ToLower (rt_unicode ex_runtime) ''http://a/1.jpg'') \<and>
   (\<exists>reqs :: request list. length reqs \<le> 3 \<and> req_URL (hd reqs) = ''http://a/1.jpg'')"
proof -
  have 1: "ValidateImageURL ex_runtime ex_config ''http://a/1.jpg''" by code_simp
  from probe_accepts_images [OF 1] show ?thesis by blast
qed

section \<open>Classification\<close>

text \<open>
  C34: classifying data that was already downloaded is the same as downloading and classifying:
  same result, same cache key and store, same callbacks.
\<close>

theorem predownloaded_equivalent:
  assumes "Download rt cfg url (zero_DownloadOpts\<lparr>dl_MaxBytes := visionMaxBytes\<rparr>) = Some r"
  shows "classifyPredownloaded rt cfg url (dr_Data r) (dr_MIMEType r) st = ClassifyImageFull rt cfg url st"
proof -
  have d: "doClassifyFull rt (defaults rt cfg) url = classifyFromData rt (defaults rt cfg) url (dr_Data r) (dr_MIMEType r)"
    using doClassifyFull_downloaded [of rt "defaults rt cfg" url r] assms by (simp add: Download_defaults)
  show ?thesis
    by (cases "cfg_Classifier cfg"; cases "cfg_Cache cfg") (simp_all add: classifyPredownloaded_cases ClassifyImageFull_cases d)
qed

theorem predownloaded_equivalent_witness:
  "classifyPredownloaded ex_runtime ex_config ''http://a/1.jpg'' ''http://a/1.jpg'' ''image/jpeg'' () =
   ClassifyImageFull ex_runtime ex_config ''http://a/1.jpg'' ()"
proof -
  have 1: "Download ex_runtime ex_config ''http://a/1.jpg'' (zero_DownloadOpts\<lparr>dl_MaxBytes := visionMaxBytes\<rparr>) =
     Some \<lparr>dr_Data = ''http://a/1.jpg'', dr_MIMEType = ''image/jpeg''\<rparr>" by code_simp
  from predownloaded_equivalent [OF 1] show ?thesis by simp
qed

text \<open>
  C33: what a classification stores is what answers for the image later: after a miss the result is
  stored under the key for prefix \<^verbatim>\<open>vision_cls_v2\<close> and the URL, and whenever the cache returns that
  entry, both entry points return the same result, whatever the network and the model would say by
  then and whatever data was downloaded.
\<close>

theorem classification_cached:
  assumes "cfg_Cache cfg = Some cache" and "cfg_Classifier cfg \<noteq> None"
    and "cache_Get cache st (cache_Key cache ''vision_cls_v2'' url) = (None, st1)"
    and "ClassifyImageFull rt cfg url st = (st2, evs, Returns r)"
    and "cache_Get cache st3 (cache_Key cache ''vision_cls_v2'' url) = (Some r, st4)"
    and "cfg' = cfg\<lparr>cfg_Classifier := Some model, cfg_HTTPClient := client, cfg_StealthClient := stealth\<rparr>"
  shows "st2 = cache_Set cache st1 (cache_Key cache ''vision_cls_v2'' url) r
    \<and> snd (snd (ClassifyImageFull rt' cfg' url st3)) = Returns r
    \<and> snd (snd (classifyPredownloaded rt' cfg' url data mimeType st3)) = Returns r"
proof -
  have c: "cfg_Classifier cfg' \<noteq> None" "cfg_Cache cfg' = Some cache" using assms(1,6) by simp_all
  show ?thesis
    using assms(4) cached_run_miss [OF assms(3), of "doClassifyFull rt (defaults rt cfg) url"] cached_run_hit [OF assms(5)]
    by (simp add: ClassifyImageFull_cases(3) [OF assms(2,1)] ClassifyImageFull_cases(3) [OF c] classifyPredownloaded_cases(3) [OF c])
qed

definition ex_cache :: "(string \<Rightarrow> ClassificationResult option) Cache" where
  "ex_cache = \<lparr>cache_Key = (\<lambda>p s. p @ '':'' @ s), cache_Get = (\<lambda>st k. (st k, st)), cache_Set = (\<lambda>st k r. st(k := Some r))\<rparr>"

definition ex_cached_config :: "(string \<Rightarrow> ClassificationResult option) Config" where
  "ex_cached_config =
     \<lparr>cfg_Cache = Some ex_cache, cfg_Classifier = Some ex_classifier, cfg_StealthClient = None, cfg_HTTPClient = None,
      cfg_SearxngURL = '''', cfg_MinImageWidth = 0, cfg_UserAgent = '''', cfg_Providers = [],
      cfg_VisionPrompt = '''', cfg_ExtraBlockedDomains = [], cfg_ExtraSafeDomains = [],
      cfg_OxBrowserURL = '''', cfg_OnImageSearch = True, cfg_OnPanic = True, cfg_OnClassification = True\<rparr>"

theorem classification_cached_witness:
  "\<exists>r. snd (snd (ClassifyImageFull ex_runtime (ex_cached_config\<lparr>cfg_Classifier := Some (\<lambda>_ _. Panics), cfg_HTTPClient := None,
      cfg_StealthClient := None\<rparr>) ''http://a/1.jpg'' ((\<lambda>_. None)(''vision_cls_v2:http://a/1.jpg'' := Some r)))) = Returns r
     \<and> Class r = ''REJECT''"
proof -
  let ?r = "\<lparr>Class = ''REJECT'', Confidence = Fin (8106479329266893 / 9007199254740992)\<rparr>"
  let ?st = "(\<lambda>_. None)(''vision_cls_v2:http://a/1.jpg'' := Some ?r)"
  have 1: "cfg_Cache ex_cached_config = Some ex_cache" "cfg_Classifier ex_cached_config \<noteq> None" by (simp_all add: ex_cached_config_def)
  have 2: "cache_Get ex_cache (\<lambda>_. None) (cache_Key ex_cache ''vision_cls_v2'' ''http://a/1.jpg'') = (None, \<lambda>_. None)"
    "cache_Get ex_cache ?st (cache_Key ex_cache ''vision_cls_v2'' ''http://a/1.jpg'') = (Some ?r, ?st)"
    by (simp_all add: ex_cache_def)
  have "snd (snd (ClassifyImageFull ex_runtime ex_cached_config ''http://a/1.jpg'' (\<lambda>_. None))) = Returns ?r" by code_simp
  then obtain st1 evs where "ClassifyImageFull ex_runtime ex_cached_config ''http://a/1.jpg'' (\<lambda>_. None) = (st1, evs, Returns ?r)"
    by (metis prod.collapse)
  from classification_cached [OF 1 2(1) this 2(2) refl, THEN conjunct2, THEN conjunct1] show ?thesis
    by (intro exI [of _ ?r]) simp
qed

text \<open>
  A failure is remembered like an answer: when the model cannot be asked, the empty class is
  stored, and a later classification of the same image that finds it returns it, which the
  pipeline accepts, although the model works again.
\<close>

theorem failure_remembered:
  assumes "cfg_Cache cfg = Some cache" and "cfg_Classifier cfg = Some classifier"
    and "\<forall>prompt inputs. classifier prompt inputs = Returns (Inl e)"
    and "cache_Get cache st (cache_Key cache ''vision_cls_v2'' url) = (None, st1)"
  shows "\<exists>evs. ClassifyImageFull rt cfg url st =
    (cache_Set cache st1 (cache_Key cache ''vision_cls_v2'' url) no_result, evs, Returns no_result) \<and> acceptable_class no_result"
proof -
  have "snd (doClassifyFull rt (defaults rt cfg) url) = Returns no_result"
    using assms(2,3) by (auto simp: doClassifyFull_def classifyFromData_def Let_def split: option.split)
  then obtain evs where e: "doClassifyFull rt (defaults rt cfg) url = (evs, Returns no_result)" by (metis prod.collapse)
  have "cfg_Classifier cfg \<noteq> None" using assms(2) by simp
  then show ?thesis
    using ClassifyImageFull_cases(3) [OF _ assms(1), of rt url st] e assms(4)
    by (intro exI [of _ evs]) (simp add: cached_run_def acceptable_class_def no_result_def)
qed

section \<open>Reverse search\<close>

text \<open>
  C39: the request carries the image URL unharmed: reading the payload back as JSON gives an object
  with exactly the URL, its invalid bytes replaced, and the result limit, whatever bytes the URL has.
\<close>

theorem reverse_payload_roundtrip:
  "json_read (marshal_reverseRequest \<lparr>rq_URL = url, rq_MaxResults = reverseMaxResults\<rparr>) =
     Some (JObj [(''url'', JStr (concat (map EncodeRune (runes url)))), (''max_results'', JNum ''10'')])"
  by (simp add: json_read_def payload_tokens json_step_def open_value_def take_key_def close_value_def maxNestingDepth_def)

text \<open>
  C38: the reverse check degrades: it reports a stock match only when the configured service
  answered the JSON request with status 200 and a well-formed body that says so; without an
  endpoint and after any failure it reports none.
\<close>

theorem reverse_check_degrades:
  assumes "IsStock (ReverseCheck rt cfg url)"
  shows "\<exists>req resp body v r. cfg_OxBrowserURL cfg \<noteq> '''' \<and>
     NewRequest ''POST'' (reverse_endpoint (cfg_OxBrowserURL cfg))
       (marshal_reverseRequest \<lparr>rq_URL = url, rq_MaxResults = 10\<rparr>) (10 * second) = Inr req \<and>
     Do (client_or_default rt (cfg_HTTPClient cfg)) (SetHeader ''Content-Type'' ''application/json'' req) = Inr resp \<and>
     StatusCode resp = 200 \<and> ReadAllLimit resp 524288 = Inr body \<and> json_read body = Some v \<and>
     read_reverseResponse v = Some r \<and> rr_IsStock r"
proof -
  have z: "\<not> IsStock zero_ReverseResult" by (simp add: zero_ReverseResult_def)
  from assms z show ?thesis
    unfolding ReverseCheck_def Let_def reverseMaxResults_def reverseTimeout_def reverseBodyLimit_def
    by (auto split: if_splits sum.splits option.splits simp: bind_eq_Some_conv)
qed

text \<open>A service that answers every request with one document.\<close>

definition ex_reverse_runtime :: runtime where
  "ex_reverse_runtime = ex_runtime\<lparr>rt_DefaultClient := \<lparr>Transport = (\<lambda>req. Inr \<lparr>StatusCode = 200,
     ContentType = ''application/json'', Location = None, Body = ''{\"is_stock\": true}'', BodyFails = False\<rparr>), RedirectLimit = 10\<rparr>\<rparr>"

theorem reverse_check_degrades_witness:
  "IsStock (ReverseCheck ex_reverse_runtime (ex_config\<lparr>cfg_OxBrowserURL := ''http://ox''\<rparr>) ''http://a/1.jpg'') \<and>
   (\<exists>resp. StatusCode resp = 200 \<and> (\<exists>body v. ReadAllLimit resp 524288 = Inr body \<and> json_read body = Some v))"
proof -
  have 1: "IsStock (ReverseCheck ex_reverse_runtime (ex_config\<lparr>cfg_OxBrowserURL := ''http://ox''\<rparr>) ''http://a/1.jpg'')"
    by code_simp
  from reverse_check_degrades [OF 1] 1 show ?thesis by blast
qed

end
