(* ===== verification/Provider_Properties.thy ===== *)
theory Provider_Properties
  imports Content Examples "HOL-Library.Code_Target_Nat"
begin

text \<open>
  The properties of the search providers (provider.go, openverse.go, pexels.go,
  provider_ddg.go, provider_og.go, provider_native.go, provider_content.go, orchestrator.go).
\<close>

section \<open>A page\<close>

text \<open>A server that answers every request with one article page, which also holds a search token.\<close>

definition ex_page :: string where
  "ex_page = ''<img src='' @ [CHR 0x22] @ ''http://m.a.org/cat-64x48.jpg'' @ [CHR 0x22] @ ''> vqd=4-f0 <img src='' @ [CHR 0x22]
     @ ''http://m.a.org/dog-640x480.jpg'' @ [CHR 0x22] @ ''>''"

definition ex_page_runtime :: runtime where
  "ex_page_runtime = ex_runtime\<lparr>rt_DefaultClient := \<lparr>Transport = (\<lambda>req. Inr \<lparr>StatusCode = 200, ContentType = ''text/html'',
     Location = None, Body = ex_page, BodyFails = False\<rparr>), RedirectLimit = 10\<rparr>\<rparr>"

definition ex_page_opts :: SearchOpts where
  "ex_page_opts = zero_SearchOpts\<lparr>PageURL := ''http://www.a.org/the-dog''\<rparr>"

definition ex_page_cand :: ImageCandidate where
  "ex_page_cand = \<lparr>ImgURL = ''http://m.a.org/dog.jpg'', Thumbnail = '''', Source = ''http://www.a.org/the-dog'',
     Title = ''content:img'', License = LicenseUnknown, Width = 0, Height = 0, Engine = ''''\<rparr>"

lemma ex_page_search: "content_Search ex_page_runtime \<lparr>ct_HTTPClient = None\<rparr> '''' ex_page_opts = Inr [ex_page_cand]"
  by code_simp

text \<open>A SearXNG instance next to the images: whatever is no image is its answer, one result.\<close>

definition ex_searx_runtime :: runtime where
  "ex_searx_runtime = ex_runtime\<lparr>
     rt_DefaultClient := \<lparr>Transport = (\<lambda>req.
         Inr \<lparr>StatusCode = 200, ContentType = (if path_Ext (req_URL req) = ''.jpg'' then ''image/jpeg'' else ''application/json''),
              Location = None, Body = ''{\"results\": [{\"img_src\": \"http://a/7.jpg\", \"url\": \"http://a/page\"}]}'', BodyFails = False\<rparr>), RedirectLimit = 10\<rparr>\<rparr>"

definition ex_searx_config :: "unit Config" where
  "ex_searx_config = ex_config\<lparr>cfg_Classifier := None, cfg_SearxngURL := ''http://s''\<rparr>"

definition ex_searx_cand :: ImageCandidate where
  "ex_searx_cand = (ex_cand ''http://a/7.jpg'' LicenseUnknown)\<lparr>Source := ''http://a/page''\<rparr>"

lemma ex_searx: "validated (search_seq ex_searx_runtime ex_searx_config ''cat'' 5 zero_SearchOpts ()) = [ex_searx_cand]"
  by code_simp

section \<open>The contract\<close>

definition all_providers ::
  "runtime \<Rightarrow> SearXNGProvider \<Rightarrow> OpenverseProvider \<Rightarrow> PexelsProvider \<Rightarrow> DDGImageProvider \<Rightarrow> OGImageProvider
     \<Rightarrow> ContentImageProvider \<Rightarrow> 'd MultiSearch \<Rightarrow> 'd ImageEngine list \<Rightarrow> SearchProvider list" where
  "all_providers rt a b c d e f ms arrived =
     [searxng_provider rt a, openverse_provider rt b, pexels_provider rt c, ddg_provider rt d, og_provider rt e,
      content_provider rt f, native_provider rt ms arrived]"

interpretation all_chain: provider_chain "rt_unicode rt" "all_providers rt a b c d e f ms arrived"
  for rt a b c d e f and ms :: "'d MultiSearch" and arrived
  by (rule provider_chain.intro)
     (auto simp: all_providers_def provider_values content_provider_def native_provider_def
       intro: searxng.search_provider_axioms openverse.search_provider_axioms pexels.search_provider_axioms
         ddg.search_provider_axioms og.search_provider_axioms content.search_provider_axioms native.search_provider_axioms)

text \<open>
  C17: every provider keeps the contract of the interface: a candidate it returns has an image
  URL, is not Blocked and is no logo or banner; and so does a fallback over all of them.
\<close>

theorem providers_keep_contract:
  assumes "p \<in> set (all_providers rt a b c d e f ms arrived) \<or>
      p = fallback_provider \<lparr>fb_Providers = all_providers rt a b c d e f ms arrived, fb_FallbackName = name\<rparr>"
    and "prov_Search p query opts = Inr cs" and "cand \<in> set cs"
  shows "ImgURL cand \<noteq> '''' \<and> License cand \<noteq> LicenseBlocked \<and>
    \<not> IsLogoOrBanner (ToLower (rt_unicode rt) (ImgURL cand))"
proof -
  have "search_provider (rt_unicode rt) (prov_Search p)"
    using assms(1) all_chain.chain all_chain.fallback.search_provider_axioms
    by (auto simp: fallback_provider_def)
  then show ?thesis
    using assms(2,3) search_provider.candidate_offerable by (fastforce simp: offerable_def)
qed

lemma providers_keep_contract_witness:
  "ImgURL ex_page_cand \<noteq> '''' \<and> License ex_page_cand \<noteq> LicenseBlocked \<and>
    \<not> IsLogoOrBanner (ToLower (rt_unicode ex_page_runtime) (ImgURL ex_page_cand))"
proof (rule providers_keep_contract)
  show "content_provider ex_page_runtime \<lparr>ct_HTTPClient = None\<rparr> \<in>
        set (all_providers ex_page_runtime \<lparr>sx_URL = '''', sx_HTTPClient = None, sx_UserAgent = ''''\<rparr>
          \<lparr>ov_BaseURL = '''', ov_HTTPClient = None, ov_UserAgent = ''''\<rparr>
          \<lparr>px_APIKey = '''', px_SecretKey = '''', px_HTTPClient = None, px_UserAgent = '''', px_officialBase = '''', px_internalBase = ''''\<rparr>
          \<lparr>ddg_HTTPClient = None, ddg_UserAgent = ''''\<rparr> \<lparr>og_HTTPClient = None\<rparr> \<lparr>ct_HTTPClient = None\<rparr>
          \<lparr>ms_Engines = [], ms_Doer = (), ms_FallbackDoer = None\<rparr> []) \<or>
      content_provider ex_page_runtime \<lparr>ct_HTTPClient = None\<rparr> = fallback_provider \<lparr>fb_Providers =
        all_providers ex_page_runtime \<lparr>sx_URL = '''', sx_HTTPClient = None, sx_UserAgent = ''''\<rparr>
          \<lparr>ov_BaseURL = '''', ov_HTTPClient = None, ov_UserAgent = ''''\<rparr>
          \<lparr>px_APIKey = '''', px_SecretKey = '''', px_HTTPClient = None, px_UserAgent = '''', px_officialBase = '''', px_internalBase = ''''\<rparr>
          \<lparr>ddg_HTTPClient = None, ddg_UserAgent = ''''\<rparr> \<lparr>og_HTTPClient = None\<rparr> \<lparr>ct_HTTPClient = None\<rparr>
          \<lparr>ms_Engines = [], ms_Doer = (), ms_FallbackDoer = None\<rparr> [], fb_FallbackName = ''''\<rparr>"
    by (simp add: all_providers_def)
  show "prov_Search (content_provider ex_page_runtime \<lparr>ct_HTTPClient = None\<rparr>) '''' ex_page_opts = Inr [ex_page_cand]"
    by (simp add: content_provider_def ex_page_search)
qed simp

text \<open>
  C18: the providers that classify by domain never return an image on a stock site nor one found
  on a page of a stock site.
\<close>

theorem no_stock_site_candidates:
  assumes "p \<in> set [searxng_provider rt a, ddg_provider rt d, og_provider rt e, content_provider rt f, native_provider rt ms arrived]"
    and "prov_Search p query opts = Inr cs" and "cand \<in> set cs"
  shows "\<not> isBlockedWith (rt_unicode rt) (ImgURL cand) [] \<and> \<not> isBlockedWith (rt_unicode rt) (Source cand) []"
proof -
  have "domain_provider (rt_unicode rt) (prov_Search p)"
    using assms(1)
    by (auto simp: provider_values content_provider_def native_provider_def
        intro: searxng.domain_provider_axioms ddg.domain_provider_axioms og.domain_provider_axioms
          content.domain_provider_axioms native.domain_provider_axioms)
  then show ?thesis using assms(2,3) domain_provider.not_on_blocked_site by blast
qed

lemma no_stock_site_candidates_witness:
  "\<not> isBlockedWith (rt_unicode ex_page_runtime) (ImgURL ex_page_cand) [] \<and>
   \<not> isBlockedWith (rt_unicode ex_page_runtime) (Source ex_page_cand) []"
proof (rule no_stock_site_candidates)
  show "content_provider ex_page_runtime \<lparr>ct_HTTPClient = None\<rparr> \<in>
      set [searxng_provider ex_page_runtime \<lparr>sx_URL = '''', sx_HTTPClient = None, sx_UserAgent = ''''\<rparr>,
        ddg_provider ex_page_runtime \<lparr>ddg_HTTPClient = None, ddg_UserAgent = ''''\<rparr>,
        og_provider ex_page_runtime \<lparr>og_HTTPClient = None\<rparr>,
        content_provider ex_page_runtime \<lparr>ct_HTTPClient = None\<rparr>,
        native_provider ex_page_runtime \<lparr>ms_Engines = [], ms_Doer = (), ms_FallbackDoer = None\<rparr> []]"
    by simp
  show "prov_Search (content_provider ex_page_runtime \<lparr>ct_HTTPClient = None\<rparr>) '''' ex_page_opts = Inr [ex_page_cand]"
    by (simp add: content_provider_def ex_page_search)
qed simp

text \<open>
  C19: a fallback answers with the first provider of the chain that returns at least one
  candidate, and when none does with the last error seen, or its own when there was none.
\<close>

theorem fallback_first_delivery:
  "fallback_Search f query opts =
     (case List.find (\<lambda>p. \<exists>c cs. prov_Search p query opts = Inr (c # cs)) (fb_Providers f) of
        Some p \<Rightarrow> prov_Search p query opts
      | None \<Rightarrow> Inl (last (''all providers failed'' # [e. Inl e \<leftarrow> map (\<lambda>p. prov_Search p query opts) (fb_Providers f)])))"
proof -
  have "delivers query opts = (\<lambda>p. \<exists>c cs. prov_Search p query opts = Inr (c # cs))"
    by (auto simp: delivers_def fun_eq_iff neq_Nil_conv split: sum.splits)
  moreover have "errors_of ps query opts = [e. Inl e \<leftarrow> map (\<lambda>p. prov_Search p query opts) ps]" for ps
    by (induction ps) (auto simp: errors_of_def split: sum.splits)
  ultimately show ?thesis by (simp add: fallback_Search_def fallback_loop_spec split: option.split)
qed

section \<open>Request URLs\<close>

text \<open>The value of the first query parameter, as a server decodes it.\<close>

definition first_param :: "string \<Rightarrow> string \<Rightarrow> string option" where
  "first_param pre url =
     (if HasPrefix url pre then unescape (takeWhile (\<lambda>c. c \<notin> set ''&#'') (drop (length pre) url)) encodeQueryComponent
      else None)"

lemma first_param_escaped: "first_param pre (pre @ QueryEscape q @ CHR ''&'' # rest) = Some q"
proof -
  have "c \<notin> set ''&#''" if "c \<in> set (QueryEscape q)" for c
    using that QueryEscape_no_delim [of c q] by fastforce
  then have "takeWhile (\<lambda>c. c \<notin> set ''&#'') (QueryEscape q @ CHR ''&'' # rest) = QueryEscape q"
    by (subst takeWhile_append2) simp_all
  then show ?thesis by (simp add: first_param_def HasPrefix_def unescape_QueryEscape)
qed

text \<open>
  C20: whatever bytes the query holds, the search services receive exactly that query: decoding the
  parameter of the URL each provider builds gives it back.
\<close>

theorem query_parameter_roundtrip:
  "first_param (TrimRightByte (sx_URL a) (CHR ''/'') @ ''/search?q='') (searxng_buildURL a query opts) = Some query
   \<and> first_param (TrimRightByte (or_default (ov_BaseURL b) openverseDefaultURL) (CHR ''/'') @ ''/images/?q='')
       (openverse_buildURL b query opts) = Some query
   \<and> first_param (ddgBaseURL @ ''/i.js?l=ru-ru&o=json&q='') (ddg_images_URL query token) = Some query"
proof (intro conjI)
  show "first_param (TrimRightByte (sx_URL a) (CHR ''/'') @ ''/search?q='') (searxng_buildURL a query opts) = Some query"
    using first_param_escaped [of "TrimRightByte (sx_URL a) (CHR ''/'') @ ''/search?q=''" query]
    by (simp add: searxng_buildURL_def)
  show "first_param (TrimRightByte (or_default (ov_BaseURL b) openverseDefaultURL) (CHR ''/'') @ ''/images/?q='')
       (openverse_buildURL b query opts) = Some query"
    using first_param_escaped [of "TrimRightByte (or_default (ov_BaseURL b) openverseDefaultURL) (CHR ''/'') @ ''/images/?q=''" query]
    by (simp add: openverse_buildURL_def Let_def)
  show "first_param (ddgBaseURL @ ''/i.js?l=ru-ru&o=json&q='') (ddg_images_URL query token) = Some query"
    using first_param_escaped [of "ddgBaseURL @ ''/i.js?l=ru-ru&o=json&q=''" query]
    by (simp add: ddg_images_URL_def)
qed

lemma token_byte_plain: "token_byte c \<Longrightarrow> is_alnum c \<or> c \<in> set ''-_.~''"
  by (auto simp: token_byte_def is_alnum_def is_alpha_def is_digit_def byte_in_def)

text \<open>
  The token scraped from the first page is never empty and reaches the image request
  byte for byte, the escaping changes nothing.
\<close>

theorem ddg_token_verbatim:
  assumes "fetchToken rt p query = Inr token"
  shows "token \<noteq> '''' \<and> ddg_images_URL query token =
     ''https://duckduckgo.com/i.js?l=ru-ru&o=json&q='' @ QueryEscape query @ ''&vqd='' @ token @ ''&f=,,,,,&p=1''"
proof -
  have "list_all (\<lambda>c. is_alnum c \<or> c \<in> set ''-_.~'') token"
    using vqd_token [OF assms] token_byte_plain unfolding list_all_iff by blast
  then show ?thesis
    using vqd_token [OF assms] by (simp add: ddg_images_URL_def ddgBaseURL_def QueryEscape_plain)
qed

lemma ddg_token_verbatim_witness:
  "ddg_images_URL ''red cat'' ''4-f0'' = ''https://duckduckgo.com/i.js?l=ru-ru&o=json&q=red+cat&vqd=4-f0&f=,,,,,&p=1''"
proof -
  have "fetchToken ex_page_runtime \<lparr>ddg_HTTPClient = None, ddg_UserAgent = ''''\<rparr> ''red cat'' = Inr ''4-f0''"
    by code_simp
  from ddg_token_verbatim [OF this] have "ddg_images_URL ''red cat'' ''4-f0'' =
    ''https://duckduckgo.com/i.js?l=ru-ru&o=json&q='' @ QueryEscape ''red cat'' @ ''&vqd='' @ ''4-f0'' @ ''&f=,,,,,&p=1''"
    by (rule conjunct2)
  moreover have "QueryEscape ''red cat'' = ''red+cat''" by code_simp
  ultimately show ?thesis by simp
qed

section \<open>Fused engines\<close>

lemma subseq_distinct: "subseq xs ys \<Longrightarrow> distinct ys \<Longrightarrow> distinct xs"
  by (auto simp: subseq_conv_nths intro: distinct_nthsI)

lemma subseq_sets: "subseq xs ys \<Longrightarrow> set xs \<subseteq> set ys"
  by (auto simp: subseq_conv_nths dest: in_set_nthsD)

lemma native_filter_fused: "subseq (map ImgURL (native_filter u rs)) (map ir_URL rs)"
  by (induction rs) (auto simp: native_filter_def Let_def)

lemma MultiSearch_distinct: "distinct (map ir_URL (MultiSearch_Search ms arrived query maxn))"
  by (simp add: MultiSearch_Search_def Let_def take_map [symmetric] fuseWRR_urls(1))

lemma MultiSearch_length: "0 \<le> maxn \<Longrightarrow> int (length (MultiSearch_Search ms arrived query maxn)) \<le> maxn"
  by (simp add: MultiSearch_Search_def Let_def)

lemma MultiSearch_origin:
  "ir_URL ` set (MultiSearch_Search ms arrived query maxn) \<subseteq>
     ir_URL ` set (concat (filter_map (engine_results ms query maxn) arrived))"
proof -
  let ?sets = "filter_map (engine_results ms query maxn) arrived"
  have "ir_URL ` set (MultiSearch_Search ms arrived query maxn) \<subseteq> set (map ir_URL (fuseWRR ?sets))"
    unfolding set_map using MultiSearch_subset by (rule image_mono)
  also have "\<dots> \<subseteq> ir_URL ` set (concat ?sets)" unfolding fuseWRR_urls(2) by auto
  finally show ?thesis .
qed

text \<open>
  C21: whichever engines answer and in whatever order, the native provider returns at most ten
  candidates, no image URL twice, each of them an engine's result.
\<close>

theorem native_candidates:
  "\<exists>cs. native_Search rt ms arrived query opts = Inr cs \<and> length cs \<le> 10 \<and> distinct (map ImgURL cs) \<and>
     ImgURL ` set cs \<subseteq> ir_URL ` set (concat (filter_map (engine_results ms query 10) arrived))"
proof -
  let ?rs = "MultiSearch_Search ms arrived query 10"
  let ?cs = "native_filter (rt_unicode rt) ?rs"
  have sub: "subseq (map ImgURL ?cs) (map ir_URL ?rs)" by (rule native_filter_fused)
  show ?thesis
  proof (intro exI conjI)
    show "native_Search rt ms arrived query opts = Inr ?cs" by (simp add: native_Search_def nativeMaxResults_def)
    have "length ?cs \<le> length ?rs" using list_emb_length [OF sub] by simp
    then show "length ?cs \<le> 10" using MultiSearch_length [of 10 ms arrived query] by linarith
    show "distinct (map ImgURL ?cs)" using sub MultiSearch_distinct by (rule subseq_distinct)
    have "ImgURL ` set ?cs \<subseteq> ir_URL ` set ?rs" using subseq_sets [OF sub] by simp
    then show "ImgURL ` set ?cs \<subseteq> ir_URL ` set (concat (filter_map (engine_results ms query 10) arrived))"
      using MultiSearch_origin by (rule order_trans)
  qed
qed

text \<open>
  Fusing loses no image and invents none: the URLs of the fused list are those of the result
  sets, each once, whatever the order in which the engines' goroutines delivered the sets.
\<close>

theorem fusion_order_independent:
  assumes "mset sets = mset sets'"
  shows "mset (map ir_URL (fuseWRR sets)) = mset (map ir_URL (fuseWRR sets'))"
proof -
  have "set (map ir_URL (fuseWRR sets)) = set (map ir_URL (fuseWRR sets'))"
    unfolding fuseWRR_urls(2) using mset_eq_setD [OF assms] by simp
  then show ?thesis using fuseWRR_urls(1) set_eq_iff_mset_eq_distinct by blast
qed

definition ex_found :: "string \<Rightarrow> ImageResult" where
  "ex_found url = \<lparr>ir_URL = url, ir_Thumbnail = '''', ir_Source = '''', ir_Title = '''', ir_Width = 0, ir_Height = 0, ir_Engine = ''''\<rparr>"

lemma fusion_order_independent_witness:
  "mset (map ir_URL (fuseWRR [[ex_found ''a'', ex_found ''b''], [ex_found ''b'', ex_found ''c'']])) =
   mset (map ir_URL (fuseWRR [[ex_found ''b'', ex_found ''c''], [ex_found ''a'', ex_found ''b'']]))"
  by (rule fusion_order_independent) simp

section \<open>Images of a page\<close>

text \<open>
  C22: the page provider returns at most eight images, no two of them size variants of one image,
  each with a URL that starts with http and the page as its source, in this order: the sources of
  img tags whose file name contains a token of the page's slug or of the query, those of img tags
  whose file name contains none, the JSON-LD images, the og and twitter images. All of them are
  found on the page that was fetched.
\<close>

theorem page_images:
  assumes "content_Search rt p query opts = Inr cands"
  shows "length cands \<le> 8 \<and> distinct (map (normalizeImgURL \<circ> ImgURL) cands) \<and>
    list_all (\<lambda>c. HasPrefix (ImgURL c) ''http'' \<and> Source c = PageURL opts) cands \<and>
    (cands \<noteq> [] \<longrightarrow> (\<exists>page slug other jsonld meta. fetchPage rt p (PageURL opts) = Inr page \<and> cands = slug @ other @ jsonld @ meta
      \<and> (\<forall>c \<in> set slug. \<exists>src. tag_source rt (PageURL opts) page src \<and> ImgURL c = clean_url rt src \<and>
          (\<exists>t \<in> set (slugTokensFrom (rt_unicode rt) (PageURL opts) query). Contains (ToLower (rt_unicode rt) (path_Base src)) t))
      \<and> (\<forall>c \<in> set other. \<exists>src. tag_source rt (PageURL opts) page src \<and> ImgURL c = clean_url rt src \<and>
          (\<forall>t \<in> set (slugTokensFrom (rt_unicode rt) (PageURL opts) query). \<not> Contains (ToLower (rt_unicode rt) (path_Base src)) t))
      \<and> list_all (jsonld_image rt page) jsonld \<and> list_all (meta_image rt page) meta))"
proof -
  have "\<exists>page slug other jsonld meta. fetchPage rt p (PageURL opts) = Inr page \<and> cands = slug @ other @ jsonld @ meta
      \<and> (\<forall>c \<in> set slug. \<exists>src. tag_source rt (PageURL opts) page src \<and> ImgURL c = clean_url rt src \<and>
          (\<exists>t \<in> set (slugTokensFrom (rt_unicode rt) (PageURL opts) query). Contains (ToLower (rt_unicode rt) (path_Base src)) t))
      \<and> (\<forall>c \<in> set other. \<exists>src. tag_source rt (PageURL opts) page src \<and> ImgURL c = clean_url rt src \<and>
          (\<forall>t \<in> set (slugTokensFrom (rt_unicode rt) (PageURL opts) query). \<not> Contains (ToLower (rt_unicode rt) (path_Base src)) t))
      \<and> list_all (jsonld_image rt page) jsonld \<and> list_all (meta_image rt page) meta"
    if "cands \<noteq> []"
    using assms that
  proof (rule content_Search_from)
    fix page a b c d
    assume f: "fetchPage rt p (PageURL opts) = Inr page" "cands = a @ b @ c @ d" "list_all (jsonld_image rt page) c" "list_all (meta_image rt page) d"
      and i: "list_all (body_image rt (PageURL opts) (slugTokensFrom (rt_unicode rt) (PageURL opts) query) page True) a"
        "list_all (body_image rt (PageURL opts) (slugTokensFrom (rt_unicode rt) (PageURL opts) query) page False) b"
    from i show ?thesis
      by (intro exI [of _ page] exI [of _ a] exI [of _ b] exI [of _ c] exI [of _ d] conjI f)
         (auto simp: list_all_iff body_image_def shares_token_def Contains_iff)
  qed
  with content_Search_page [OF assms] show ?thesis
    by (auto simp: contentMaxResults_def page_cand_def page_norm_def [abs_def] comp_def list_all_iff)
qed

lemma page_images_witness:
  "\<exists>page slug other jsonld meta. fetchPage ex_page_runtime \<lparr>ct_HTTPClient = None\<rparr> (PageURL ex_page_opts) = Inr page
     \<and> [ex_page_cand] = slug @ other @ jsonld @ meta"
  using page_images [OF ex_page_search, THEN conjunct2, THEN conjunct2, THEN conjunct2] by blast

text \<open>
  A decimal size below 2 to the 63 is read exactly.
\<close>

theorem size_read_exactly:
  assumes "list_all is_digit s" and "dec_value s < 2 ^ 63"
  shows "parseIntFast s = int (dec_value s)"
  using assms by (rule parseIntFast_small)

lemma size_read_exactly_witness: "parseIntFast ''640'' = 640"
proof -
  have "list_all is_digit ''640''" "dec_value ''640'' = 640" by code_simp+
  then show ?thesis using size_read_exactly [of "''640''"] by simp
qed

text \<open>A longer one wraps around: the width 2 to the 64 plus 100 counts as 100, that of a thumbnail.\<close>

lemma size_wraps: "parseIntFast ''18446744073709551716'' = 100 \<and> tiny ''18446744073709551716'' ''18446744073709551716''"
  by code_simp

end
