(* ===== verification/Pipeline_Replay.thy ===== *)
theory Pipeline_Replay
  imports Pipeline_Runs
begin

text \<open>
  The pictures behind the results: whatever the interleaving, no two results show the same
  picture, and validating the results again, one after the other, returns exactly them. The
  first is more than the separation of the hashes the dedup filter keeps, because the filter
  and the result slice are guarded by different mutexes: every result, and every candidate on
  its way from the filter to the slice, has a hash of its own in the filter.
\<close>

section \<open>Fingerprints\<close>

text \<open>The difference hash of the picture a candidate downloads to, if it has one.\<close>

definition fingerprint :: "runtime \<Rightarrow> 'c Config \<Rightarrow> ImageCandidate \<Rightarrow> ImageHash option" where
  "fingerprint rt cfg c = hash_key (rt_gray rt) (snd (snd (downloaded rt cfg c)))"

definition prints :: "runtime \<Rightarrow> 'c Config \<Rightarrow> ImageCandidate list \<Rightarrow> ImageHash list" where
  "prints rt cfg cs = List.map_filter (fingerprint rt cfg) cs"

text \<open>The stages between the dedup filter and the result slice.\<close>

definition past_dedup :: "phase \<Rightarrow> bool" where
  "past_dedup ph \<longleftrightarrow> working ph \<and> ph \<noteq> AtProbe \<and> ph \<noteq> AtDownload \<and> (\<forall>data mimeType img. ph \<noteq> AtDedup data mimeType img)"

lemma past_dedup_simps [simp]:
  "\<not> past_dedup AtSemaphore" "\<not> past_dedup AtProbe" "\<not> past_dedup AtDownload" "\<not> past_dedup (AtDedup a b i)"
  "past_dedup (AtAssess a b)" "past_dedup (AtReverse a b)" "past_dedup (AtCache a b)" "past_dedup (AtCall a b)"
  "past_dedup (AtStore r)" "past_dedup (AtJudge r)" "past_dedup AtAppend"
  "\<not> past_dedup AtRelease" "\<not> past_dedup Exited"
  by (simp_all add: past_dedup_def) (simp_all add: working_def)

lemma prints_simps [simp]:
  "prints rt cfg [] = []"
  "prints rt cfg (cs @ ds) = prints rt cfg cs @ prints rt cfg ds"
  "prints rt cfg (c # cs) = (case fingerprint rt cfg c of None \<Rightarrow> [] | Some h \<Rightarrow> [h]) @ prints rt cfg cs"
  by (simp_all add: prints_def List.map_filter_def split: option.split)

lemma prints_perm: "mset cs = mset ds \<Longrightarrow> mset (prints rt cfg cs) = mset (prints rt cfg ds)"
  by (simp add: prints_def List.map_filter_def mset_filter)

definition own_prints :: "runtime \<Rightarrow> 'c Config \<Rightarrow> ImageCandidate \<Rightarrow> bool \<Rightarrow> ImageHash list" where
  "own_prints rt cfg c b = (if b then prints rt cfg [c] else [])"

text \<open>The image a goroutine brings to the filter is the one its candidate downloads to.\<close>

fun holds_image :: "runtime \<Rightarrow> 'c Config \<Rightarrow> ImageCandidate \<Rightarrow> phase \<Rightarrow> bool" where
  "holds_image rt cfg c (AtDedup data mimeType img) = (snd (snd (downloaded rt cfg c)) = Some img)"
| "holds_image rt cfg c ph = True"

interpretation imaged: thread_invariant rt cfg maxResults "\<lambda>sh. True" "\<lambda>sh c ph. holds_image rt cfg c ph" "\<lambda>c. True"
  for rt cfg maxResults
proof (unfold_locales, goal_cases)
  case (4 sh c ph ph' sh')
  then show ?case
    by (cases ph) (auto simp: downloaded_def working_def split: if_splits prod.splits outcome.splits option.splits
        ImageLicense.splits bool.splits)
qed auto

section \<open>Every result owns a hash of the filter\<close>

lemma work_dedup_claim:
  assumes "work rt cfg maxResults c (AtDedup data mimeType img) sh = (ph', sh')"
    and "snd (snd (downloaded rt cfg c)) = Some img"
  shows "mset (hashes sh') = mset (hashes sh) + mset (own_prints rt cfg c (past_dedup ph')) \<and> validated sh' = validated sh"
  using assms by (auto simp: own_prints_def fingerprint_def hash_key_def isDuplicate_def split: sum.splits if_splits)

lemma work_download_claim:
  assumes "work rt cfg maxResults c AtDownload sh = (ph', sh')"
  shows "own_prints rt cfg c (past_dedup ph') = [] \<and> validated sh' = validated sh \<and> hashes sh' = hashes sh"
  using assms
  by (auto simp: own_prints_def fingerprint_def downloaded_def hash_key_def DifferenceHash_def
      split: outcome.splits option.splits)

lemma work_claims:
  assumes "working ph" and "holds_image rt cfg c ph" and "work rt cfg maxResults c ph sh = (ph', sh')"
  shows "mset (prints rt cfg (validated sh')) + mset (own_prints rt cfg c (past_dedup ph')) + mset (hashes sh)
    \<subseteq># mset (prints rt cfg (validated sh)) + mset (own_prints rt cfg c (past_dedup ph)) + mset (hashes sh')"
proof (cases ph)
  case (AtDedup data mimeType img)
  with assms work_dedup_claim [of rt cfg maxResults c data mimeType img sh ph' sh'] show ?thesis
    by (simp add: own_prints_def ac_simps)
next
  case AtDownload
  with assms work_download_claim [of rt cfg maxResults c sh ph' sh'] show ?thesis
    by (simp add: own_prints_def [of rt cfg c False])
next
  case AtAppend
  with assms show ?thesis by (auto simp: own_prints_def validated_append)
qed (use assms in \<open>auto simp: own_prints_def working_def split: if_splits prod.splits bool.splits outcome.splits
      option.splits ImageLicense.splits\<close>)

definition claims :: "runtime \<Rightarrow> 'c Config \<Rightarrow> 'c machine \<Rightarrow> ImageHash multiset" where
  "claims rt cfg m = mset (prints rt cfg (validated (mem m))) +
     mset (prints rt cfg (map fst (filter (\<lambda>t. past_dedup (snd t)) (threads m))))"

lemma prints_update:
  assumes "i < length ts" and "ts ! i = (c, q)"
  shows "mset (prints rt cfg (map fst (filter (\<lambda>t. past_dedup (snd t)) (ts[i := (c, p)])))) + mset (own_prints rt cfg c (past_dedup q))
    = mset (prints rt cfg (map fst (filter (\<lambda>t. past_dedup (snd t)) ts))) + mset (own_prints rt cfg c (past_dedup p))"
proof -
  let ?f = "\<lambda>ts. map fst (filter (\<lambda>t. past_dedup (snd t)) ts)" and ?o = "\<lambda>b. if b then [c] else []"
  have "mset (?f (ts[i := (c, p)]) @ ?o (past_dedup q)) = mset (?f ts @ ?o (past_dedup p))"
    using mset_filter_update [OF assms, of "\<lambda>t. past_dedup (snd t)" p] by (auto split: if_splits)
  then have "mset (prints rt cfg (?f (ts[i := (c, p)]) @ ?o (past_dedup q))) = mset (prints rt cfg (?f ts @ ?o (past_dedup p)))"
    by (rule prints_perm)
  then show ?thesis by (simp add: own_prints_def split: if_splits)
qed

lemma mset_exchange:
  fixes V' A' Q V A P H H' :: "'a multiset"
  assumes "V' + P + H \<subseteq># V + Q + H'" and "A' + Q = A + P" and "V + A \<subseteq># H"
  shows "V' + A' \<subseteq># H'"
proof (rule mset_subset_eqI)
  fix a
  have "count V' a + count P a + count H a \<le> count V a + count Q a + count H' a"
    using mset_subset_eq_count [OF assms(1), of a] by simp
  moreover have "count A' a + count Q a = count A a + count P a"
    using arg_cong [OF assms(2), of "\<lambda>M. count M a"] by simp
  moreover have "count V a + count A a \<le> count H a" using mset_subset_eq_count [OF assms(3), of a] by simp
  ultimately show "count (V' + A') a \<le> count H' a" by simp
qed

lemma step_claims:
  "machine_step rt cfg maxResults m m' \<Longrightarrow> list_all (\<lambda>(c, ph). holds_image rt cfg c ph) (threads m) \<Longrightarrow>
     claims rt cfg m \<subseteq># mset (hashes (mem m)) \<Longrightarrow> claims rt cfg m' \<subseteq># mset (hashes (mem m'))"
proof (induction rule: machine_step.induct)
  case (acquire i m c)
  then show ?case using prints_update [OF acquire(1,2), of rt cfg AtProbe] by (simp add: claims_def own_prints_def)
next
  case (run i m c ph ph' sh')
  have "holds_image rt cfg c ph" using run(1,2,5) by (auto simp: list_all_length)
  then show ?case
    using mset_exchange [OF work_claims [OF run(3) _ run(4)] prints_update [OF run(1,2)]] run(6)
    by (simp add: claims_def)
next
  case (release i m c)
  then show ?case using prints_update [OF release(1,2), of rt cfg Exited] by (simp add: claims_def own_prints_def)
qed (simp_all add: claims_def)

lemma runs_claims:
  assumes "runs rt cfg maxResults (start cs st evs) m"
  shows "claims rt cfg m \<subseteq># mset (hashes (mem m))"
  using assms unfolding runs_def
proof (induction rule: rtranclp_induct)
  case base
  then show ?case by (simp add: claims_def fresh_def)
next
  case (step m m')
  have "list_all (\<lambda>(c, ph). holds_image rt cfg c ph) (threads m)"
    using imaged.reached [of cs rt cfg maxResults st evs m] step(1) by (simp add: runs_def list_all_iff)
  then show ?case using step_claims [OF step(2)] step(3) by blast
qed

section \<open>No two results show the same picture\<close>

lemma sorted_wrt_pair: "sorted_wrt R ys \<Longrightarrow> symp R \<Longrightarrow> {#x, y#} \<subseteq># mset ys \<Longrightarrow> R x y"
proof (induction ys)
  case (Cons z zs)
  show ?case
  proof (cases "{#x, y#} \<subseteq># mset zs")
    case False
    then have "z = x \<and> y \<in> set zs \<or> z = y \<and> x \<in> set zs"
      using Cons.prems(3) by (auto simp: insert_subset_eq_iff split: if_splits)
    with Cons.prems show ?thesis by (auto dest: sympD)
  qed (use Cons in auto)
qed simp

lemma sorted_wrt_sub:
  assumes "sorted_wrt R ys" and "symp R" and "mset xs \<subseteq># mset ys"
  shows "sorted_wrt R xs"
  using assms(3)
proof (induction xs)
  case (Cons x xs)
  have "R x y" if "y \<in> set xs" for y
  proof -
    have "{#y#} \<subseteq># mset xs" using that by simp
    then have "{#x, y#} \<subseteq># mset (x # xs)" by simp
    then show ?thesis using Cons.prems sorted_wrt_pair [OF assms(1,2)] subset_mset.order_trans by blast
  qed
  moreover have "mset xs \<subseteq># mset ys" using Cons.prems by (auto dest: mset_subset_eq_insertD)
  ultimately show ?case using Cons.IH by simp
qed simp

lemma runs_distinct_pictures:
  assumes "runs rt cfg maxResults (start cs st evs) m"
  shows "sorted_wrt (\<lambda>a b. \<not> close_to a b) (prints rt cfg (validated (mem m)))"
proof (rule sorted_wrt_sub)
  show "sorted_wrt (\<lambda>a b. \<not> close_to a b) (hashes (mem m))"
    using separated.reached [OF _ _ assms] by (simp add: fresh_def list_all_iff)
  show "symp (\<lambda>a b. \<not> close_to a b)" using dedup.near_sym by (auto simp: symp_def)
  show "mset (prints rt cfg (validated (mem m))) \<subseteq># mset (hashes (mem m))"
    using runs_claims [OF assms] subset_mset.order_trans [OF mset_subset_eq_add_left] unfolding claims_def by blast
qed

section \<open>Validating the results again\<close>

lemma validate_data_accepted:
  assumes "cfg_Cache cfg = None" and "int (length (validated sh)) < maxResults"
    and "verdict_on rt cfg c data = LicenseSafe
      \<or> verdict_on rt cfg c data = LicenseUnknown \<and> \<not> IsStock (ReverseCheck rt cfg (ImgURL c)) \<and>
        (cfg_Classifier cfg = None \<or> (\<exists>r. snd (classifyFromData rt (defaults rt cfg) (ImgURL c) data mimeType) = Returns r \<and> acceptable_class r))"
  shows "validated (validate_data rt cfg c maxResults data mimeType sh) = validated sh @ [c]
    \<and> hashes (validate_data rt cfg c maxResults data mimeType sh) = hashes sh"
  using assms
  by (auto simp: validate_data_def assessAndAccept_def classifyPredownloaded_def validated_append
      no_classifier_accepts Let_def split: prod.splits outcome.splits if_splits)

lemma validateOne_accepted:
  assumes "cfg_Cache cfg = None" and "accepts rt cfg c" and "int (length (validated sh)) < maxResults"
    and "\<forall>h \<in> set (prints rt cfg [c]). \<forall>k \<in> set (hashes sh). \<not> close_to h k"
  shows "validated (validateOne rt cfg c maxResults sh) = validated sh @ [c]
    \<and> hashes (validateOne rt cfg c maxResults sh) = hashes sh @ prints rt cfg [c]"
proof -
  from assms(2) obtain data mimeType img where d: "downloadForValidation rt cfg (ImgURL c) = Returns (data, mimeType, img)"
    by (cases "downloadForValidation rt cfg (ImgURL c)") (auto simp: accepts_def passes_checks_def)
  let ?sh = "sh\<lparr>hashes := hashes sh @ prints rt cfg [c]\<rparr>"
  have v: "validated (validate_data rt cfg c maxResults data mimeType ?sh) = validated sh @ [c]
    \<and> hashes (validate_data rt cfg c maxResults data mimeType ?sh) = hashes sh @ prints rt cfg [c]"
    using validate_data_accepted [of cfg ?sh maxResults rt c data mimeType] assms(1-3) d
    by (auto simp: accepts_def passes_checks_def model_accepts_def downloaded_def Let_def split: outcome.splits)
  have "validateOne rt cfg c maxResults sh = validate_data rt cfg c maxResults data mimeType ?sh"
  proof (cases img)
    case None
    with assms(2) d show ?thesis
      by (auto simp: validateOne_def accepts_def passes_checks_def fingerprint_def downloaded_def hash_key_def DifferenceHash_def
          split: prod.splits bool.splits)
  next
    case (Some i)
    have "isDuplicate (rt_gray rt) (hashes sh) (Some i) = (False, hashes sh @ prints rt cfg [c])"
      using assms(4) d Some
      by (auto simp: isDuplicate_def fingerprint_def downloaded_def hash_key_def list_ex_iff split: sum.splits)
    with assms(2) d Some show ?thesis
      by (auto simp: validateOne_def accepts_def passes_checks_def split: prod.splits bool.splits)
  qed
  with v show ?thesis by simp
qed

lemma replay:
  assumes "cfg_Cache cfg = None"
  shows "list_all (accepts rt cfg) cs \<Longrightarrow> int (length (validated sh) + length cs) \<le> maxResults \<Longrightarrow>
     sorted_wrt (\<lambda>a b. \<not> close_to a b) (hashes sh @ prints rt cfg cs) \<Longrightarrow>
     validated (validate_seq rt cfg maxResults cs sh) = validated sh @ cs
     \<and> hashes (validate_seq rt cfg maxResults cs sh) = hashes sh @ prints rt cfg cs"
proof (induction cs arbitrary: sh)
  case (Cons c cs)
  have v: "validated (validateOne rt cfg c maxResults sh) = validated sh @ [c]"
      "hashes (validateOne rt cfg c maxResults sh) = hashes sh @ prints rt cfg [c]"
    using validateOne_accepted [OF assms, of rt c sh maxResults] Cons.prems dedup.near_sym
    by (auto simp: sorted_wrt_append split: option.splits)
  have "validated (validate_seq rt cfg maxResults cs (validateOne rt cfg c maxResults sh)) = (validated sh @ [c]) @ cs
      \<and> hashes (validate_seq rt cfg maxResults cs (validateOne rt cfg c maxResults sh)) = (hashes sh @ prints rt cfg [c]) @ prints rt cfg cs"
    using Cons.IH [of "validateOne rt cfg c maxResults sh"] Cons.prems v by (simp split: option.splits)
  then show ?case using Cons.prems(2) by simp
qed simp

lemma results_replayed:
  assumes "runs rt cfg maxResults (start cs st evs) m" and "cfg_Cache cfg = None"
  shows "validated (validate_seq rt cfg maxResults (validated (mem m)) (fresh st' evs')) = validated (mem m)
    \<and> hashes (validate_seq rt cfg maxResults (validated (mem m)) (fresh st' evs')) = prints rt cfg (validated (mem m))"
proof (cases "validated (mem m) = []")
  case False
  have b: "int (length (validated (mem m))) \<le> max 0 maxResults"
    using bounded.reached [OF _ _ assms(1)] by (simp add: fresh_def list_all_iff)
  have a: "list_all (accepts rt cfg) (validated (mem m))"
    using sound.reached [OF _ _ assms(1), of "\<lambda>c. True"] assms(2) by (auto simp: fresh_def list_all_iff intro: endorsed_accepts)
  have "int (length (validated (mem m))) \<le> maxResults" using b False by (cases "0 \<le> maxResults") auto
  then show ?thesis
    using replay [OF assms(2) a, of "fresh st' evs'"] runs_distinct_pictures [OF assms(1)] by (simp add: fresh_def)
qed (simp add: fresh_def)

end
