(* ===== verification/Pipeline_Linear.thy ===== *)
theory Pipeline_Linear
  imports Pipeline_Replay
begin

text \<open>
  The goroutines of \<^verbatim>\<open>validateCandidates\<close> against the sequential loop as their specification:
  without a cache, whatever a run returns is what the loop returns on the same candidates in
  some order. The order is read off the run: first the results, then the candidates that
  passed the dedup filter and were rejected later, then the rest.
\<close>

section \<open>The candidates the filter let through\<close>

definition reaches_filter :: "runtime \<Rightarrow> 'c Config \<Rightarrow> ImageCandidate \<Rightarrow> bool" where
  "reaches_filter rt cfg c \<longleftrightarrow>
     ValidateImageURL rt cfg (ImgURL c) \<and> \<not> fst (isBlockedByExtraDomains rt cfg c)
     \<and> downloadForValidation rt cfg (ImgURL c) \<noteq> Panics"

definition in_flight :: "'c machine \<Rightarrow> ImageCandidate multiset" where
  "in_flight m = mset (map fst (filter (\<lambda>t. past_dedup (snd t)) (threads m)))"

definition engaged :: "'c machine \<Rightarrow> ImageCandidate multiset" where
  "engaged m = mset (map fst (filter (\<lambda>t. past_dedup (snd t) \<or> settled (snd t)) (threads m)))"

text \<open>A candidate that is turned down, given what the filter remembers.\<close>

definition hopeless :: "runtime \<Rightarrow> 'c Config \<Rightarrow> 'c shared \<Rightarrow> ImageCandidate \<Rightarrow> bool" where
  "hopeless rt cfg sh c \<longleftrightarrow> \<not> accepts rt cfg c \<or> shadowed rt cfg sh c"

lemma hopeless_mono: "hopeless rt cfg sh c \<Longrightarrow> set (hashes sh) \<subseteq> set (hashes sh') \<Longrightarrow> hopeless rt cfg sh' c"
  using resembles_mono by (fastforce simp: hopeless_def shadowed_def)

text \<open>
  \<open>D\<close> lists the candidates that passed the filter, in the order of its hashes, and \<open>R\<close> holds
  those that ended before it or at it.
\<close>

definition explained ::
  "runtime \<Rightarrow> 'c Config \<Rightarrow> int \<Rightarrow> 'c machine \<Rightarrow> ImageCandidate list \<Rightarrow> ImageCandidate multiset \<Rightarrow> bool" where
  "explained rt cfg maxResults m D R \<longleftrightarrow>
     mset D + R = engaged m \<and> prints rt cfg D = hashes (mem m) \<and> list_all (reaches_filter rt cfg) D
     \<and> mset (validated (mem m)) + in_flight m \<subseteq># mset D
     \<and> (\<forall>c \<in># R. hopeless rt cfg (mem m) c)
     \<and> (full maxResults (mem m) \<or> filter_mset (accepts rt cfg) (mset D) \<subseteq># mset (validated (mem m)) + in_flight m)"

section \<open>What one step of a goroutine can do\<close>

lemma early_exit_rejects:
  assumes "ph = AtProbe \<or> ph = AtDownload" and "work rt cfg maxResults c ph sh = (AtRelease, sh')"
  shows "\<not> accepts rt cfg c \<and> validated sh' = validated sh \<and> hashes sh' = hashes sh"
  using assms
  by (auto simp: accepts_def passes_checks_def split: if_splits prod.splits bool.splits outcome.splits option.splits)

lemma early_stays:
  assumes "ph = AtProbe \<or> ph = AtDownload" and "work rt cfg maxResults c ph sh = (ph', sh')"
  shows "ph' = AtRelease \<or> ph' = AtDownload \<and> sh' = sh \<or> (\<exists>data mimeType img. ph' = AtDedup data mimeType img) \<and> sh' = sh
    \<or> (\<exists>data mimeType. ph' = AtAssess data mimeType) \<and> ph = AtDownload \<and> sh' = sh"
  using assms by (auto split: if_splits prod.splits bool.splits outcome.splits option.splits)

lemma late_stays:
  assumes "past_dedup ph" and "work rt cfg maxResults c ph sh = (ph', sh')"
  shows "hashes sh' = hashes sh" "past_dedup ph' \<or> ph' = AtRelease"
    "ph \<noteq> AtAppend \<Longrightarrow> validated sh' = validated sh"
  using assms
  by (cases ph; auto split: if_splits prod.splits bool.splits outcome.splits option.splits ImageLicense.splits)+

lemma certain_never_dropped:
  assumes "phase_ok rt cfg c ph" and "certain rt cfg c" and "on_track rt cfg maxResults sh c ph"
    and "past_dedup ph" and "ph \<noteq> AtAppend" and "work rt cfg maxResults c ph sh = (ph', sh')"
  shows "past_dedup ph'"
proof (cases ph)
  case (AtAssess data mimeType)
  then show ?thesis
    using assms probed_downloaded [of rt cfg c data mimeType]
    by (auto simp: certain_def accepts_def passes_checks_def Let_def split: ImageLicense.splits)
next
  case (AtReverse data mimeType)
  then show ?thesis
    using assms probed_downloaded [of rt cfg c data mimeType]
    by (auto simp: undecided_def certain_def accepts_def passes_checks_def Let_def split: if_splits)
next
  case (AtCall data mimeType)
  have "on_track rt cfg maxResults sh' c ph'"
    using certain_call [of rt cfg c data mimeType maxResults sh ph' sh'] assms AtCall by simp
  then show ?thesis
    using assms AtCall probed_downloaded [of rt cfg c data mimeType]
    by (auto simp: model_accepts_def unlaundered_def undecided_def split: prod.splits outcome.splits)
qed (use assms in \<open>auto split: if_splits option.splits prod.splits\<close>)

lemma work_enters:
  assumes "\<not> past_dedup ph" and "working ph" and "phase_ok rt cfg c ph" and "holds_image rt cfg c ph"
    and "work rt cfg maxResults c ph sh = (ph', sh')" and "past_dedup ph'"
  shows "reaches_filter rt cfg c \<and> hashes sh' = hashes sh @ prints rt cfg [c] \<and> validated sh' = validated sh"
proof (cases ph)
  case AtDownload
  with assms work_download_claim [of rt cfg maxResults c sh ph' sh'] show ?thesis
    by (auto simp: reaches_filter_def own_prints_def split: outcome.splits)
next
  case (AtDedup data mimeType img)
  with assms show ?thesis
    by (auto simp: reaches_filter_def probed_def isDuplicate_def fingerprint_def hash_key_def split: sum.splits if_splits)
qed (use assms in \<open>auto split: if_splits prod.splits bool.splits\<close>)

lemma work_turned_away:
  assumes "\<not> past_dedup ph" and "working ph" and "holds_image rt cfg c ph"
    and "work rt cfg maxResults c ph sh = (ph', sh')" and "\<not> past_dedup ph'"
  shows "validated sh' = validated sh \<and> hashes sh' = hashes sh \<and> (if settled ph' then hopeless rt cfg sh' c else True)"
proof (cases "ph = AtProbe \<or> ph = AtDownload")
  case True
  with assms(4,5) early_stays [OF True assms(4)] early_exit_rejects [OF True, of rt cfg maxResults c sh sh'] show ?thesis
    by (auto simp: settled_def hopeless_def)
next
  case False
  with assms(1,2) obtain data mimeType img where ph: "ph = AtDedup data mimeType img"
    by (auto simp: past_dedup_def)
  with assms(3-5) isDuplicate_resembles [of rt "hashes sh" img] show ?thesis
    by (auto simp: hopeless_def shadowed_def isDuplicate_def split: sum.splits if_splits)
qed

section \<open>Every run is explained\<close>

lemma flight_update:
  "i < length (threads m) \<Longrightarrow> threads m ! i = (c, q) \<Longrightarrow>
     in_flight (m\<lparr>threads := (threads m)[i := (c, p)], mem := sh\<rparr>) + (if past_dedup q then {#c#} else {#})
     = in_flight m + (if past_dedup p then {#c#} else {#})"
  "i < length (threads m) \<Longrightarrow> threads m ! i = (c, q) \<Longrightarrow>
     engaged (m\<lparr>threads := (threads m)[i := (c, p)], mem := sh\<rparr>) + (if past_dedup q \<or> settled q then {#c#} else {#})
     = engaged m + (if past_dedup p \<or> settled p then {#c#} else {#})"
  using mset_filter_update [of i "threads m" c q "\<lambda>t. past_dedup (snd t)" p]
    mset_filter_update [of i "threads m" c q "\<lambda>t. past_dedup (snd t) \<or> settled (snd t)" p]
  by (simp_all add: in_flight_def engaged_def)

lemma explained_cong:
  "explained rt cfg maxResults m D R \<Longrightarrow> engaged m' = engaged m \<Longrightarrow> in_flight m' = in_flight m \<Longrightarrow>
     hashes (mem m') = hashes (mem m) \<Longrightarrow> validated (mem m') = validated (mem m) \<Longrightarrow>
     explained rt cfg maxResults m' D R"
  by (auto simp: explained_def full_def hopeless_def shadowed_def)

lemma add_mset_drop: "add_mset c A \<subseteq># B \<Longrightarrow> A \<subseteq># B"
  by (metis mset_subset_eq_insertD subset_mset.less_imp_le)

lemma filter_drop: "\<not> P c \<Longrightarrow> filter_mset P A \<subseteq># add_mset c B \<Longrightarrow> filter_mset P A \<subseteq># B"
  unfolding subseteq_mset_def by (metis count_add_mset count_filter_mset le0)

lemma run_explained:
  assumes "i < length (threads m)" and "threads m ! i = (c, ph)" and "working ph"
    and "work rt cfg maxResults c ph (mem m) = (ph', sh')" and "explained rt cfg maxResults m D R"
    and "phase_ok rt cfg c ph" and "holds_image rt cfg c ph"
    and "accepts rt cfg c \<Longrightarrow> past_dedup ph \<Longrightarrow> ph \<noteq> AtAppend \<Longrightarrow> past_dedup ph'"
  shows "\<exists>D R. explained rt cfg maxResults (m\<lparr>threads := (threads m)[i := (c, ph')], mem := sh'\<rparr>) D R"
proof -
  let ?m = "m\<lparr>threads := (threads m)[i := (c, ph')], mem := sh'\<rparr>"
  note fl = flight_update [OF assms(1,2), where p = ph' and sh = sh']
  have ns: "\<not> settled ph" using assms(3) by (auto simp: settled_def working_def)
  consider (enters) "\<not> past_dedup ph" "past_dedup ph'" | (away) "\<not> past_dedup ph" "\<not> past_dedup ph'" "settled ph'"
    | (quiet) "\<not> past_dedup ph" "\<not> past_dedup ph'" "\<not> settled ph'" | (late) "past_dedup ph" by blast
  then show ?thesis
  proof cases
    case enters
    have "explained rt cfg maxResults ?m (D @ [c]) R"
      using work_enters [OF enters(1) assms(3,6,7,4) enters(2)] assms(5) fl enters ns
      by (auto simp: explained_def full_def intro: hopeless_mono subset_mset.add_increasing [of "{#c#}", simplified])
    then show ?thesis by blast
  next
    case away
    have "explained rt cfg maxResults ?m D (R + {#c#})"
      using work_turned_away [OF away(1) assms(3,7,4) away(2)] assms(5) fl away ns
      by (auto simp: explained_def full_def intro: hopeless_mono)
    then show ?thesis by blast
  next
    case quiet
    then show ?thesis
      using work_turned_away [OF quiet(1) assms(3,7,4) quiet(2)] fl ns explained_cong [OF assms(5), of ?m] by auto
  next
    case late
    note st = late_stays [OF late assms(4)]
    have eng: "engaged ?m = engaged m" using st(2) fl(2) late by (auto simp: settled_def)
    show ?thesis
    proof (cases "past_dedup ph'")
      case True
      then have "ph \<noteq> AtAppend" using assms(4) by auto
      with True st fl(1) eng late explained_cong [OF assms(5), of ?m] show ?thesis by auto
    next
      case False
      have inf: "in_flight m = in_flight ?m + {#c#}" using fl(1) late False by simp
      have "explained rt cfg maxResults ?m D R"
      proof (cases "ph = AtAppend")
        case True
        with assms(4) have sh': "sh' = appendValidated c maxResults (mem m)" by simp
        show ?thesis
          using assms(5) eng inf sh'
          by (auto simp: explained_def full_def validated_append hopeless_def shadowed_def dest: add_mset_drop)
      next
        case na: False
        then have "\<not> accepts rt cfg c" using assms(8) late False by blast
        then have "filter_mset (accepts rt cfg) (mset D) \<subseteq># mset (validated (mem m)) + in_flight ?m"
          if "filter_mset (accepts rt cfg) (mset D) \<subseteq># mset (validated (mem m)) + in_flight m"
          using filter_drop [of "accepts rt cfg" c "mset D"] that inf by simp
        then show ?thesis
          using assms(5) eng inf st na
          by (auto simp: explained_def full_def hopeless_def shadowed_def dest: add_mset_drop)
      qed
      then show ?thesis by blast
    qed
  qed
qed

lemma start_explained: "explained rt cfg maxResults (start cs st evs) [] {#}"
  by (simp add: explained_def engaged_def in_flight_def fresh_def)

lemma step_explained:
  assumes "machine_step rt cfg maxResults m m'" and "explained rt cfg maxResults m D R"
    and "list_all (\<lambda>(c, ph). phase_ok rt cfg c ph \<and> (certain rt cfg c \<longrightarrow> on_track rt cfg maxResults (mem m) c ph)) (threads m)"
    and "list_all (\<lambda>(c, ph). holds_image rt cfg c ph) (threads m)" and "cfg_Cache cfg = None"
  shows "\<exists>D R. explained rt cfg maxResults m' D R"
  using assms
proof (induction rule: machine_step.induct)
  case (acquire i m c)
  then show ?case
    using flight_update [OF acquire(1,2), where p = AtProbe and sh = "mem m"]
    by (intro exI [of _ D] exI [of _ R]) (auto intro!: explained_cong [of rt cfg maxResults m] simp: engaged_def in_flight_def settled_def)
next
  case (run i m c ph ph' sh')
  have "phase_ok rt cfg c ph" "certain rt cfg c \<Longrightarrow> on_track rt cfg maxResults (mem m) c ph" "holds_image rt cfg c ph"
    using run(1,2,6,7) by (auto simp: list_all_length)
  then show ?case
    using run_explained [OF run(1-4,5)] certain_never_dropped [of rt cfg c ph maxResults "mem m" ph' sh'] run(4,8)
    by (simp add: certain_def)
next
  case (release i m c)
  then show ?case
    using flight_update [OF release(1,2), where p = Exited and sh = "mem m"]
    by (intro exI [of _ D] exI [of _ R]) (auto intro!: explained_cong [of rt cfg maxResults m] simp: engaged_def in_flight_def settled_def)
qed (rule exI [of _ D], rule exI [of _ R], erule explained_cong; simp add: engaged_def in_flight_def settled_def)+

lemma runs_explained:
  assumes "runs rt cfg maxResults (start cs st evs) m" and "cfg_Cache cfg = None"
  shows "\<exists>D R. explained rt cfg maxResults m D R"
  using assms(1) unfolding runs_def
proof (induction rule: rtranclp_induct)
  case base
  show ?case by (intro exI) (rule start_explained)
next
  case (step m m')
  then have r: "runs rt cfg maxResults (start cs st evs) m" by (simp add: runs_def)
  have "list_all (\<lambda>(c, ph). holds_image rt cfg c ph) (threads m)"
    using imaged.reached [OF _ _ r] by (simp add: list_all_iff)
  moreover have "list_all (\<lambda>(c, ph). phase_ok rt cfg c ph \<and>
      (certain rt cfg c \<longrightarrow> on_track rt cfg maxResults (mem m) c ph)) (threads m)"
    using complete.reached [OF _ _ r] by (simp add: list_all_iff)
  ultimately show ?case using step(2,3) step_explained assms(2) by blast
qed

section \<open>The sequential loop on the same candidates\<close>

lemma validateOne_rejected:
  assumes "cfg_Cache cfg = None" and "hopeless rt cfg sh c"
  shows "validated (validateOne rt cfg c maxResults sh) = validated sh"
proof (cases "shadowed rt cfg sh c")
  case True
  then obtain img where img: "snd (snd (downloaded rt cfg c)) = Some img" "resembles rt (hashes sh) img"
    by (auto simp: shadowed_def)
  then obtain hs where "isDuplicate (rt_gray rt) (hashes sh) (Some img) = (True, hs)"
    using isDuplicate_resembles [of rt "hashes sh" img] by (metis prod.collapse)
  with img(1) show ?thesis
    by (auto simp: validateOne_def downloaded_def split: prod.splits bool.splits outcome.splits option.splits)
next
  case False
  show ?thesis
  proof (cases "reaches_filter rt cfg c")
    case True
    then obtain data mimeType img where d: "downloadForValidation rt cfg (ImgURL c) = Returns (data, mimeType, img)"
      by (cases "downloadForValidation rt cfg (ImgURL c)") (auto simp: reaches_filter_def)
    have "validated (validate_data rt cfg c maxResults data mimeType s) = validated s" for s
      using assms False d True
      by (auto simp: validate_data_def assessAndAccept_def classifyPredownloaded_def validated_append Let_def
          hopeless_def accepts_def passes_checks_def model_accepts_def downloaded_def reaches_filter_def no_classifier_accepts
          split: ImageLicense.splits prod.splits outcome.splits if_splits)
    then show ?thesis
      using d by (auto simp: validateOne_def split: prod.splits bool.splits option.splits)
  qed (auto simp: validateOne_def reaches_filter_def split: prod.splits bool.splits outcome.splits)
qed

lemma validate_data_hashes [simp]: "hashes (validate_data rt cfg c maxResults data mimeType sh) = hashes sh"
  by (auto simp: validate_data_def assessAndAccept_def split: ImageLicense.splits prod.splits outcome.splits)

lemma validateOne_hashes:
  "set (hashes sh) \<subseteq> set (hashes (validateOne rt cfg c maxResults sh))"
  "reaches_filter rt cfg c \<Longrightarrow> \<forall>h \<in> set (prints rt cfg [c]). \<forall>k \<in> set (hashes sh). \<not> close_to h k \<Longrightarrow>
     hashes (validateOne rt cfg c maxResults sh) = hashes sh @ prints rt cfg [c]"
  by (auto simp: validateOne_def reaches_filter_def isDuplicate_def fingerprint_def downloaded_def hash_key_def
      DifferenceHash_def list_ex_iff split: prod.splits bool.splits outcome.splits option.splits sum.splits if_splits)

lemma seq_rejected:
  assumes "cfg_Cache cfg = None" and "int (length (validated sh)) < maxResults"
    and "list_all (reaches_filter rt cfg) cs" and "list_all (\<lambda>c. \<not> accepts rt cfg c) cs"
    and "sorted_wrt (\<lambda>a b. \<not> close_to a b) (hashes sh @ prints rt cfg cs)"
  shows "\<exists>sh'. validated sh' = validated sh \<and> hashes sh' = hashes sh @ prints rt cfg cs
    \<and> (\<forall>ds. validate_seq rt cfg maxResults (cs @ ds) sh = validate_seq rt cfg maxResults ds sh')"
  using assms(2-)
proof (induction cs arbitrary: sh)
  case (Cons c cs)
  let ?s = "validateOne rt cfg c maxResults sh"
  have v: "validated ?s = validated sh" using validateOne_rejected [OF assms(1)] Cons.prems(3) by (simp add: hopeless_def)
  have h: "hashes ?s = hashes sh @ prints rt cfg [c]"
    using validateOne_hashes(2) [of rt cfg c sh maxResults] Cons.prems dedup.near_sym
    by (auto simp: sorted_wrt_append split: option.splits)
  obtain sh' where "validated sh' = validated ?s" "hashes sh' = hashes ?s @ prints rt cfg cs"
      "\<forall>ds. validate_seq rt cfg maxResults (cs @ ds) ?s = validate_seq rt cfg maxResults ds sh'"
    using Cons.IH [of ?s] Cons.prems v h by (auto split: option.splits)
  then show ?case using Cons.prems(1) v h by (intro exI [of _ sh']) (auto split: option.splits)
qed (auto intro: exI [of _ sh])

lemma seq_hopeless:
  "cfg_Cache cfg = None \<Longrightarrow> list_all (hopeless rt cfg sh) cs \<Longrightarrow>
     validated (validate_seq rt cfg maxResults cs sh) = validated sh"
proof (induction cs arbitrary: sh)
  case (Cons c cs)
  have "list_all (hopeless rt cfg (validateOne rt cfg c maxResults sh)) cs"
    using Cons.prems(2) hopeless_mono [where sh = sh and sh' = "validateOne rt cfg c maxResults sh" and rt = rt and cfg = cfg, OF _ validateOne_hashes(1)]
    by (simp add: list_all_iff)
  with Cons validateOne_rejected [of cfg rt sh c maxResults] show ?case by simp
qed simp

lemma seq_full: "full maxResults sh \<Longrightarrow> validate_seq rt cfg maxResults cs sh = sh"
  by (cases cs) (simp_all add: full_def)

lemma seq_append:
  "validate_seq rt cfg maxResults (cs @ ds) sh = validate_seq rt cfg maxResults ds (validate_seq rt cfg maxResults cs sh)"
  by (induction cs arbitrary: sh) (simp_all add: seq_full full_def)

section \<open>Linearization\<close>

lemma sub_rest:
  assumes "A \<subseteq># mset cs"
  obtains rest where "A + mset rest = mset cs"
  using assms by (metis ex_mset subset_mset.add_diff_inverse)

lemma finished_explained:
  assumes "runs rt cfg maxResults (start cs st evs) m" and "main m = Finished"
    and "\<not> full maxResults (mem m)" and "explained rt cfg maxResults m D R"
  shows "mset D + R = mset cs" "mset (validated (mem m)) \<subseteq># mset D"
    "filter_mset (accepts rt cfg) (mset D) \<subseteq># mset (validated (mem m))"
proof -
  have sw: "todo m = []" "list_all (\<lambda>t. snd t = Exited) (threads m)"
    using runs_stopped_well [OF assms(1)] assms(2,3) by (auto simp: stopped_well_def full_def)
  then have "filter (\<lambda>t. past_dedup (snd t) \<or> settled (snd t)) (threads m) = threads m"
      "filter (\<lambda>t. past_dedup (snd t)) (threads m) = []"
    by (auto simp: list_all_iff settled_def filter_id_conv filter_empty_conv)
  then have "engaged m = started m" "in_flight m = {#}" by (simp_all add: engaged_def started_def in_flight_def)
  with assms(3,4) runs_settled(2) [OF assms(1)] sw(1)
  show "mset D + R = mset cs" "mset (validated (mem m)) \<subseteq># mset D"
      "filter_mset (accepts rt cfg) (mset D) \<subseteq># mset (validated (mem m))"
    by (simp_all add: explained_def)
qed

lemma rest_rejected: "filter_mset P (V + mset E) \<subseteq># V \<Longrightarrow> list_all (\<lambda>c. \<not> P c) E"
proof (rule ccontr)
  assume s: "filter_mset P (V + mset E) \<subseteq># V" and "\<not> list_all (\<lambda>c. \<not> P c) E"
  then obtain c where c: "c \<in> set E" "P c" by (auto simp: list_all_iff)
  then have "count V c < count (filter_mset P (V + mset E)) c" by (simp add: count_mset_gt_0)
  with mset_subset_eq_count [OF s, of c] show False by simp
qed

lemma linearized:
  assumes "runs rt cfg maxResults (start cs st evs) m" and "main m = Finished" and "cfg_Cache cfg = None"
  shows "\<exists>ds. mset ds = mset cs \<and> validated (validate_seq rt cfg maxResults ds (fresh st' evs')) = validated (mem m)"
proof -
  let ?V = "validated (mem m)" and ?s = "validate_seq rt cfg maxResults (validated (mem m)) (fresh st' evs')"
  have s: "validated ?s = ?V" "hashes ?s = prints rt cfg ?V"
    using results_replayed [OF assms(1,3)] by simp_all
  show ?thesis
  proof (cases "full maxResults (mem m)")
    case True
    then have "full maxResults ?s" using s by (simp add: full_def)
    moreover obtain rest where "mset ?V + mset rest = mset cs" using sub_rest [OF runs_selection [OF assms(1)]] .
    ultimately show ?thesis using s by (intro exI [of _ "?V @ rest"]) (simp add: seq_append seq_full)
  next
    case False
    obtain D R where e: "explained rt cfg maxResults m D R" using runs_explained [OF assms(1,3)] by blast
    note f = finished_explained [OF assms(1,2) False e]
    obtain E where E: "mset ?V + mset E = mset D" using sub_rest [OF f(2)] .
    obtain rl where rl: "mset rl = R" using ex_mset by blast
    have p: "mset (prints rt cfg (?V @ E)) = mset (hashes (mem m))"
      using prints_perm [of "?V @ E" D rt cfg] E e by (simp add: explained_def)
    have "sorted_wrt (\<lambda>a b. \<not> close_to a b) (prints rt cfg (?V @ E))"
      using separated.reached [OF _ _ assms(1)] sorted_wrt_sub [of _ "hashes (mem m)"] p dedup.near_sym
      by (simp add: fresh_def list_all_iff symp_def)
    moreover have "set E \<subseteq> set D" using arg_cong [OF E, of set_mset] by auto
    then have "list_all (reaches_filter rt cfg) E" using e by (auto simp: explained_def list_all_iff)
    moreover have "list_all (\<lambda>c. \<not> accepts rt cfg c) E" using f(3) rest_rejected E by metis
    ultimately obtain s2 where s2: "validated s2 = ?V" "hashes s2 = prints rt cfg (?V @ E)"
        "\<forall>ds. validate_seq rt cfg maxResults (E @ ds) ?s = validate_seq rt cfg maxResults ds s2"
      using seq_rejected [OF assms(3), of ?s maxResults rt E] s False by (auto simp: full_def)
    have "set (hashes (mem m)) \<subseteq> set (hashes s2)" using p s2(2) by (metis order_refl set_mset_mset)
    then have "list_all (hopeless rt cfg s2) rl"
      using e rl hopeless_mono [of rt cfg "mem m" _ s2] by (auto simp: explained_def list_all_iff)
    then have "validated (validate_seq rt cfg maxResults (?V @ E @ rl) (fresh st' evs')) = ?V"
      using s2 seq_hopeless [OF assms(3)] by (simp add: seq_append [of _ _ _ ?V])
    moreover have "mset (?V @ E @ rl) = mset cs" using E rl f(1) by (simp flip: add.assoc)
    ultimately show ?thesis by blast
  qed
qed

end
