(* ===== verification/Pipeline_Panic.thy ===== *)
theory Pipeline_Panic
  imports Pipeline_Linear
begin

text \<open>
  Panics of injected code. The transports, the image codecs, the cache, the classifier and the
  callbacks belong to the caller or to other packages, and \<^verbatim>\<open>validateOne\<close> recovers from whatever
  they raise: the goroutine reports the panic, gives its slot back and ends. The decoder's and the
  classifier's panics are values of the stages already; here any call out of the program may panic,
  in every stage that makes one. \<^verbatim>\<open>OnPanic\<close> itself, which runs in the deferred function, must not.
\<close>

section \<open>Stages that call out\<close>

text \<open>The judgement of a class and the append under the mutex are the program's own code.\<close>

definition calls_out :: "phase \<Rightarrow> bool" where
  "calls_out ph \<longleftrightarrow> working ph \<and> ph \<noteq> AtAppend \<and> (\<forall>r. ph \<noteq> AtJudge r)"

text \<open>
  Whether the last thing a stage does is a call into injected code that has already had its
  effect when it panics: a callback that is logged, a cache operation on the store.
\<close>

fun breaks_late :: "runtime \<Rightarrow> 'c Config \<Rightarrow> ImageCandidate \<Rightarrow> phase \<Rightarrow> bool" where
  "breaks_late rt cfg c (AtCall data mimeType) =
     (snd (classifyFromData rt (defaults rt cfg) (ImgURL c) data mimeType) \<noteq> Panics)"
| "breaks_late rt cfg c AtProbe = True"
| "breaks_late rt cfg c (AtAssess data mimeType) = True"
| "breaks_late rt cfg c (AtReverse data mimeType) = True"
| "breaks_late rt cfg c (AtCache data mimeType) = True"
| "breaks_late rt cfg c (AtStore r) = True"
| "breaks_late rt cfg c ph = False"

text \<open>
  The deferred function of \<^verbatim>\<open>validateOne\<close> takes over, before or after the effects of the stage. \<open>X\<close> are
  the candidates on which injected code may panic.
\<close>

inductive panic_step :: "runtime \<Rightarrow> 'c Config \<Rightarrow> int \<Rightarrow> ImageCandidate set \<Rightarrow> 'c machine \<Rightarrow> 'c machine \<Rightarrow> bool"
  for rt :: runtime and cfg :: "'c Config" and maxResults :: int and X :: "ImageCandidate set" where
  early: "i < length (threads m) \<Longrightarrow> threads m ! i = (c, ph) \<Longrightarrow> c \<in> X \<Longrightarrow> calls_out ph \<Longrightarrow>
     panic_step rt cfg maxResults X m (m\<lparr>threads := (threads m)[i := (c, AtRelease)], mem := recovered cfg (mem m)\<rparr>)"
| late: "i < length (threads m) \<Longrightarrow> threads m ! i = (c, ph) \<Longrightarrow> c \<in> X \<Longrightarrow> calls_out ph \<Longrightarrow> breaks_late rt cfg c ph \<Longrightarrow>
     work rt cfg maxResults c ph (mem m) = (ph', sh') \<Longrightarrow>
     panic_step rt cfg maxResults X m (m\<lparr>threads := (threads m)[i := (c, AtRelease)], mem := recovered cfg sh'\<rparr>)"

section \<open>What a panic changes\<close>

lemma late_effects:
  assumes "calls_out ph" and "breaks_late rt cfg c ph" and "work rt cfg maxResults c ph sh = (ph', sh')"
  shows "validated sh' = validated sh \<and> hashes sh' = hashes sh"
  using assms
  by (cases ph) (auto simp: calls_out_def split: if_splits prod.splits bool.splits outcome.splits option.splits ImageLicense.splits)

lemma work_calls: "work rt cfg maxResults c ph sh = (ph', sh') \<Longrightarrow> set (calls sh) \<subseteq> set (calls sh')"
  by (cases ph) (auto simp: recovered_def split: if_splits prod.splits outcome.splits option.splits
      ImageLicense.splits bool.splits)

text \<open>A goroutine that panics leaves the results and the filter alone, and callbacks made stay made.\<close>

lemma panic_cases:
  assumes "panic_step rt cfg maxResults X m m'"
  obtains i c ph sh' where "i < length (threads m)" "threads m ! i = (c, ph)" "calls_out ph" "working ph"
    "validated sh' = validated (mem m)" "hashes sh' = hashes (mem m)"
    "m' = m\<lparr>threads := (threads m)[i := (c, AtRelease)], mem := sh'\<rparr>" "c \<in> X" "set (calls (mem m)) \<subseteq> set (calls sh')"
  using assms
proof (cases rule: panic_step.cases)
  case (early i c ph)
  then show thesis using that [of i c ph "recovered cfg (mem m)"] by (simp add: calls_out_def recovered_def)
next
  case (late i c ph ph' sh')
  have "set (calls (mem m)) \<subseteq> set (calls (recovered cfg sh'))" using work_calls [OF late(7)] by (auto simp: recovered_def)
  then show thesis
    using late late_effects [OF late(5-7)] that [of i c ph "recovered cfg sh'"] by (simp add: calls_out_def)
qed

lemma panic_slots:
  assumes "panic_step rt cfg maxResults X m m'" and "slots m = holders m \<and> slots m \<le> validationSemaphore"
  shows "slots m' = holders m' \<and> slots m' \<le> validationSemaphore"
  using assms(1)
proof (cases rule: panic_cases)
  case (1 i c ph sh')
  have "holding ph" "holding AtRelease" using 1(4) by (auto simp: working_def holding_def)
  with 1 assms(2) count_update [OF 1(1), of "\<lambda>t. holding (snd t)" "(c, AtRelease)"] show ?thesis
    by (simp add: holders_def)
qed

lemma panic_selection:
  assumes "panic_step rt cfg maxResults X m m'"
    and "mset (validated (mem m)) \<subseteq># settled_cands m \<and> started m + mset (todo m) = mset cs"
  shows "mset (validated (mem m')) \<subseteq># settled_cands m' \<and> started m' + mset (todo m') = mset cs"
  using assms(1)
proof (cases rule: panic_cases)
  case (1 i c ph sh')
  have "settled_cands m' = settled_cands m + {#c#}"
    using mset_filter_update [OF 1(1,2), of "\<lambda>t. settled (snd t)" AtRelease] 1(4,7)
    by (simp add: settled_cands_def settled_def working_def)
  then show ?thesis
    using assms(2) 1 subset_mset.add_increasing2 [of "{#c#}" "mset (validated (mem m))" "settled_cands m"]
    by (simp add: started_def map_fst_update)
qed

lemma panic_fuel:
  assumes "panic_step rt cfg maxResults X m m'"
  shows "fuel_left m' < fuel_left m"
  using assms
proof (cases rule: panic_cases)
  case (1 i c ph sh')
  have "phase_rank AtRelease < phase_rank ph" using 1(4) by (cases ph) (simp_all add: working_def)
  then show ?thesis
    using 1 sum_update_less [OF 1(1), of "\<lambda>t. phase_rank (snd t)" "(c, AtRelease)"] by (simp add: fuel_left_def)
qed

lemma panic_stopped_well:
  assumes "panic_step rt cfg maxResults X m m'" and "stopped_well maxResults m"
  shows "stopped_well maxResults m'"
  using assms(1)
proof (cases rule: panic_cases)
  case (1 i c ph sh')
  have "\<not> list_all (\<lambda>t. snd t = Exited) (threads m)"
    using 1(1,2,4) by (auto simp: list_all_length working_def)
  then show ?thesis using 1(5,7) assms(2) by (auto simp: stopped_well_def)
qed

end
