(* ===== verification/Pipeline_World.thy ===== *)
theory Pipeline_World
  imports Pipeline_Panic
begin

text \<open>
  The validation machine in a world that changes while it runs: servers come and go, the vision
  model answers differently, injected code panics, the deadline of the caller's context expires. A
  moment is what the injected clients, the classifier and the providers answer, and whether a call
  out of the program may panic; every step of the machine sees a moment of its own. Which clients
  and providers are configured, the redirect limits and all other settings stay.
\<close>

section \<open>Moments\<close>

record moment =
  on_default :: transport
  on_http :: transport
  on_stealth :: transport
  on_model :: Classifier
  on_provider :: "nat \<Rightarrow> string \<Rightarrow> SearchOpts \<Rightarrow> ImageCandidate list result"   \<comment> \<open>by position in \<open>Providers\<close>\<close>
  may_panic :: "ImageCandidate set"   \<comment> \<open>whose goroutines injected code may make panic\<close>

definition providers_at :: "moment \<Rightarrow> SearchProvider list \<Rightarrow> SearchProvider list" where
  "providers_at w ps = map (\<lambda>(i, p). p\<lparr>prov_Search := on_provider w i\<rparr>) (enumerate 0 ps)"

definition rt_at :: "moment \<Rightarrow> runtime \<Rightarrow> runtime" where
  "rt_at w rt = rt\<lparr>rt_DefaultClient := (rt_DefaultClient rt)\<lparr>Transport := on_default w\<rparr>\<rparr>"

definition cfg_at :: "moment \<Rightarrow> 'c Config \<Rightarrow> 'c Config" where
  "cfg_at w cfg =
     cfg\<lparr>cfg_Classifier := map_option (\<lambda>_. on_model w) (cfg_Classifier cfg),
         cfg_StealthClient := map_option (\<lambda>c. c\<lparr>Transport := on_stealth w\<rparr>) (cfg_StealthClient cfg),
         cfg_HTTPClient := map_option (\<lambda>c. c\<lparr>Transport := on_http w\<rparr>) (cfg_HTTPClient cfg),
         cfg_Providers := providers_at w (cfg_Providers cfg)\<rparr>"

definition world_step :: "moment set \<Rightarrow> runtime \<Rightarrow> 'c Config \<Rightarrow> int \<Rightarrow> 'c machine \<Rightarrow> 'c machine \<Rightarrow> bool" where
  "world_step W rt cfg maxResults m m' \<longleftrightarrow>
     (\<exists>w \<in> W. machine_step (rt_at w rt) (cfg_at w cfg) maxResults m m'
        \<or> panic_step (rt_at w rt) (cfg_at w cfg) maxResults (may_panic w) m m')"

definition world_runs :: "moment set \<Rightarrow> runtime \<Rightarrow> 'c Config \<Rightarrow> int \<Rightarrow> 'c machine \<Rightarrow> 'c machine \<Rightarrow> bool" where
  "world_runs W rt cfg maxResults = (world_step W rt cfg maxResults)\<^sup>*\<^sup>*"

lemma moment_simps [simp]:
  "rt_unicode (rt_at w rt) = rt_unicode rt" "rt_imagemeta (rt_at w rt) = rt_imagemeta rt"
  "rt_gray (rt_at w rt) = rt_gray rt" "rt_Decode (rt_at w rt) = rt_Decode rt"
  "cfg_Cache (cfg_at w cfg) = cfg_Cache cfg" "cfg_ExtraBlockedDomains (cfg_at w cfg) = cfg_ExtraBlockedDomains cfg"
  "cfg_ExtraSafeDomains (cfg_at w cfg) = cfg_ExtraSafeDomains cfg"
  "cfg_OnClassification (cfg_at w cfg) = cfg_OnClassification cfg" "cfg_OnPanic (cfg_at w cfg) = cfg_OnPanic cfg"
  "(cfg_Classifier (cfg_at w cfg) = None) = (cfg_Classifier cfg = None)"
  by (simp_all add: rt_at_def cfg_at_def)

lemma verdict_timeless [simp]: "verdict_on (rt_at w rt) (cfg_at w cfg) c data = verdict_on rt cfg c data"
  by (simp add: verdict_on_def AssessLicense_def extra_domain_signal_def)

lemma blocked_timeless [simp]: "isBlockedByExtraDomains (rt_at w rt) (cfg_at w cfg) c = isBlockedByExtraDomains rt cfg c"
  by (simp add: isBlockedByExtraDomains_def emitClassification_def)

text \<open>A constant world is the machine of \<open>Pipeline_Machine\<close>.\<close>

definition moment_of :: "runtime \<Rightarrow> 'c Config \<Rightarrow> Classifier \<Rightarrow> transport \<Rightarrow> moment" where
  "moment_of rt cfg model none =
     \<lparr>on_default = Transport (rt_DefaultClient rt),
      on_http = (case cfg_HTTPClient cfg of None \<Rightarrow> none | Some c \<Rightarrow> Transport c),
      on_stealth = (case cfg_StealthClient cfg of None \<Rightarrow> none | Some c \<Rightarrow> Transport c),
      on_model = (case cfg_Classifier cfg of None \<Rightarrow> model | Some k \<Rightarrow> k),
      on_provider = (\<lambda>i. prov_Search (cfg_Providers cfg ! i)), may_panic = {}\<rparr>"

lemma providers_at_same: "\<forall>i < length ps. on_provider w i = prov_Search (ps ! i) \<Longrightarrow> providers_at w ps = ps"
  by (rule nth_equalityI) (simp_all add: providers_at_def nth_enumerate_eq)

lemma moment_of_at [simp]:
  "rt_at (moment_of rt cfg model none) rt = rt" "cfg_at (moment_of rt cfg model none) cfg = cfg"
  by (simp_all add: rt_at_def cfg_at_def moment_of_def providers_at_same split: option.splits)

lemma constant_world: "world_runs {moment_of rt cfg model none} rt cfg maxResults = runs rt cfg maxResults"
proof -
  have "may_panic (moment_of rt cfg model none) = {}" by (simp add: moment_of_def)
  moreover have "\<not> panic_step rt cfg maxResults {} m m'" for m m' by (auto elim: panic_cases)
  ultimately show ?thesis by (simp add: world_runs_def runs_def world_step_def [abs_def])
qed

section \<open>Invariants in a changing world\<close>

lemma world_preserves:
  assumes "world_runs W rt cfg maxResults m m'" and "P m"
    and "\<And>rt cfg m m'. machine_step (rt :: runtime) (cfg :: 'c Config) maxResults m m' \<Longrightarrow> P m \<Longrightarrow> P m'"
    and "\<And>rt cfg X m m'. panic_step (rt :: runtime) (cfg :: 'c Config) maxResults X m m' \<Longrightarrow> P m \<Longrightarrow> P m'"
  shows "P (m' :: 'c machine)"
  using assms(1,2) unfolding world_runs_def
  by (induction rule: rtranclp_induct) (auto simp: world_step_def intro: assms(3,4))

locale world_invariant =
  fixes W :: "moment set" and rt :: runtime and cfg :: "'c Config" and maxResults :: int
    and Inv :: "'c shared \<Rightarrow> bool" and At :: "'c shared \<Rightarrow> ImageCandidate \<Rightarrow> phase \<Rightarrow> bool"
    and Adm :: "ImageCandidate \<Rightarrow> bool"
  assumes each: "w \<in> W \<Longrightarrow> thread_invariant (rt_at w rt) (cfg_at w cfg) maxResults Inv At Adm"
    and breaks:
      "validated sh' = validated sh \<Longrightarrow> hashes sh' = hashes sh \<Longrightarrow> set (calls sh) \<subseteq> set (calls sh') \<Longrightarrow> Inv sh \<Longrightarrow> Inv sh'"
      "w \<in> W \<Longrightarrow> c \<in> may_panic w \<Longrightarrow> At sh c AtRelease"
      "validated sh' = validated sh \<Longrightarrow> hashes sh' = hashes sh \<Longrightarrow> set (calls sh) \<subseteq> set (calls sh') \<Longrightarrow> At sh c ph \<Longrightarrow> At sh' c ph"
begin

definition holds :: "'c machine \<Rightarrow> bool" where
  "holds m \<longleftrightarrow> Inv (mem m) \<and> list_all (\<lambda>(c, ph). At (mem m) c ph) (threads m) \<and> list_all Adm (todo m)"

lemma panic_ok:
  assumes "w \<in> W" and "panic_step rt' cfg' maxResults (may_panic w) m m'" and "holds m"
  shows "holds m'"
  using assms(2)
proof (cases rule: panic_cases)
  case (1 i c ph sh')
  have "list_all (\<lambda>(c, ph). At sh' c ph) (threads m)"
    using assms(3) breaks(3) [OF 1(5,6,9)] by (auto simp: holds_def list_all_iff)
  then show ?thesis
    using assms(3) breaks(1) [OF 1(5,6,9)] breaks(2) [OF assms(1) 1(8)] 1(7) by (simp add: holds_def list_all_update)
qed

lemma world_step_ok:
  assumes "world_step W rt cfg maxResults m m'" and "holds m"
  shows "holds m'"
proof -
  obtain w where w: "w \<in> W" "machine_step (rt_at w rt) (cfg_at w cfg) maxResults m m'
      \<or> panic_step (rt_at w rt) (cfg_at w cfg) maxResults (may_panic w) m m'"
    using assms(1) by (auto simp: world_step_def)
  from w(2) show ?thesis
  proof
    assume "machine_step (rt_at w rt) (cfg_at w cfg) maxResults m m'"
    from thread_invariant.step_ok [OF each [OF w(1)] this] show ?thesis
      using assms(2) by (simp add: holds_def thread_invariant.ok_def [OF each [OF w(1)]])
  qed (rule panic_ok [OF w(1) _ assms(2)])
qed

lemma world_reached_from:
  assumes "world_runs W rt cfg maxResults m m'" and "holds m"
  shows "holds m'"
  using assms unfolding world_runs_def by (induction rule: rtranclp_induct) (auto intro: world_step_ok)

lemma world_reached:
  assumes "Inv (fresh st evs)" and "list_all Adm cs" and "world_runs W rt cfg maxResults (start cs st evs) m"
  shows "Inv (mem m) \<and> list_all (\<lambda>(c, ph). At (mem m) c ph) (threads m)"
  using world_reached_from [OF assms(3)] assms(1,2) by (simp add: holds_def)

end

interpretation world_bounded: world_invariant W rt cfg maxResults
    "\<lambda>sh. int (length (validated sh)) \<le> max 0 maxResults" "\<lambda>sh c ph. True" "\<lambda>c. True"
  for W rt cfg maxResults
  by unfold_locales simp_all

interpretation world_separated: world_invariant W rt cfg maxResults
    "\<lambda>sh. sorted_wrt (\<lambda>a b. \<not> close_to a b) (hashes sh)" "\<lambda>sh c ph. True" "\<lambda>c. True"
  for W rt cfg maxResults
  by unfold_locales simp_all

lemma world_slots:
  assumes "world_runs W rt cfg maxResults (start cs st evs) m"
  shows "slots m = holders m \<and> slots m \<le> validationSemaphore"
  by (rule world_preserves [OF assms, where P = "\<lambda>m. slots m = holders m \<and> slots m \<le> validationSemaphore"])
     (simp add: holders_def, erule (1) step_slots, erule (1) panic_slots)

lemma world_selection:
  assumes "world_runs W rt cfg maxResults (start cs st evs) m"
  shows "mset (validated (mem m)) \<subseteq># settled_cands m \<and> started m + mset (todo m) = mset cs"
  by (rule world_preserves [OF assms, where P = "\<lambda>m. mset (validated (mem m)) \<subseteq># settled_cands m \<and> started m + mset (todo m) = mset cs"])
     (simp add: fresh_def settled_cands_def started_def, auto dest: step_settled step_started panic_selection)

lemma world_relpow_fuel: "(world_step W rt cfg maxResults ^^ n) m m' \<Longrightarrow> n + fuel_left m' \<le> fuel_left m"
proof (induction n arbitrary: m')
  case (Suc n)
  then obtain m1 where "(world_step W rt cfg maxResults ^^ n) m m1" "world_step W rt cfg maxResults m1 m'" by auto
  then have m1: "(world_step W rt cfg maxResults ^^ n) m m1" "fuel_left m' < fuel_left m1"
    by (auto simp: world_step_def [of _ _ _ _ m1] dest: step_fuel panic_fuel)
  with Suc.IH [OF m1(1)] show ?case by simp
qed simp

lemma world_finishes:
  assumes "W \<noteq> {}"
  shows "world_runs V rt cfg maxResults (start cs st evs) m \<Longrightarrow> W \<subseteq> V \<Longrightarrow>
    \<exists>m'. world_runs W rt cfg maxResults m m' \<and> main m' = Finished"
proof (induction m rule: measure_induct_rule [of fuel_left])
  case (less m)
  show ?case
  proof (cases "main m = Finished")
    case True
    then show ?thesis by (auto simp: world_runs_def)
  next
    case False
    obtain w where w: "w \<in> W" using assms by blast
    obtain m1 where m1: "machine_step (rt_at w rt) (cfg_at w cfg) maxResults m m1"
      using progress_at [OF _ False] world_slots [OF less.prems(1)] by blast
    then have "world_step V rt cfg maxResults m m1" "world_step W rt cfg maxResults m m1"
      using w less.prems(2) by (auto simp: world_step_def)
    moreover from this less.IH [OF step_fuel [OF m1]] less.prems obtain m' where
        "world_runs W rt cfg maxResults m1 m'" "main m' = Finished"
      unfolding world_runs_def by (meson rtranclp.rtrancl_into_rtrancl)
    ultimately show ?thesis unfolding world_runs_def by (meson converse_rtranclp_into_rtranclp)
  qed
qed

section \<open>What every result has passed, and when\<close>

definition fetched_in :: "moment set \<Rightarrow> runtime \<Rightarrow> 'c Config \<Rightarrow> ImageCandidate \<Rightarrow> bytes \<Rightarrow> string \<Rightarrow> bool" where
  "fetched_in W rt cfg c data mimeType \<longleftrightarrow>
     (\<exists>w \<in> W. ValidateImageURL (rt_at w rt) (cfg_at w cfg) (ImgURL c)) \<and> \<not> fst (isBlockedByExtraDomains rt cfg c)
     \<and> (\<exists>w \<in> W. \<exists>img. downloadForValidation (rt_at w rt) (cfg_at w cfg) (ImgURL c) = Returns (data, mimeType, img))"

definition cleared_in :: "moment set \<Rightarrow> runtime \<Rightarrow> 'c Config \<Rightarrow> ImageCandidate \<Rightarrow> bytes \<Rightarrow> string \<Rightarrow> bool" where
  "cleared_in W rt cfg c data mimeType \<longleftrightarrow>
     fetched_in W rt cfg c data mimeType \<and> verdict_on rt cfg c data = LicenseUnknown
     \<and> (\<exists>w \<in> W. \<not> IsStock (ReverseCheck (rt_at w rt) (cfg_at w cfg) (ImgURL c)))"

definition judged_in ::
  "moment set \<Rightarrow> runtime \<Rightarrow> 'c Config \<Rightarrow> ImageCandidate \<Rightarrow> bytes \<Rightarrow> string \<Rightarrow> ClassificationResult \<Rightarrow> bool" where
  "judged_in W rt cfg c data mimeType r \<longleftrightarrow>
     (if cfg_Classifier cfg = None then r = no_result
      else \<exists>w \<in> W. snd (classifyFromData (rt_at w rt) (defaults (rt_at w rt) (cfg_at w cfg)) (ImgURL c) data mimeType) = Returns r)"

text \<open>
  The checks of \<open>accepts\<close>, each at a moment of the run. The picture that is assessed is the one
  that was downloaded; with a cache the classification may be older than the run.
\<close>

definition approved_in :: "moment set \<Rightarrow> runtime \<Rightarrow> 'c Config \<Rightarrow> ImageCandidate \<Rightarrow> bool" where
  "approved_in W rt cfg c \<longleftrightarrow>
     (\<exists>data mimeType. fetched_in W rt cfg c data mimeType \<and> verdict_on rt cfg c data = LicenseSafe
        \<or> cleared_in W rt cfg c data mimeType \<and>
          (cfg_Cache cfg = None \<longrightarrow> (\<exists>r. judged_in W rt cfg c data mimeType r \<and> acceptable_class r)))"

fun phase_in :: "moment set \<Rightarrow> runtime \<Rightarrow> 'c Config \<Rightarrow> ImageCandidate \<Rightarrow> phase \<Rightarrow> bool" where
  "phase_in W rt cfg c AtDownload =
     ((\<exists>w \<in> W. ValidateImageURL (rt_at w rt) (cfg_at w cfg) (ImgURL c)) \<and> \<not> fst (isBlockedByExtraDomains rt cfg c))"
| "phase_in W rt cfg c (AtDedup data mimeType img) = fetched_in W rt cfg c data mimeType"
| "phase_in W rt cfg c (AtAssess data mimeType) = fetched_in W rt cfg c data mimeType"
| "phase_in W rt cfg c (AtReverse data mimeType) =
     (fetched_in W rt cfg c data mimeType \<and> verdict_on rt cfg c data = LicenseUnknown)"
| "phase_in W rt cfg c (AtCache data mimeType) = cleared_in W rt cfg c data mimeType"
| "phase_in W rt cfg c (AtCall data mimeType) = (cleared_in W rt cfg c data mimeType \<and> cfg_Classifier cfg \<noteq> None)"
| "phase_in W rt cfg c (AtStore r) = (cfg_Cache cfg \<noteq> None \<and> (\<exists>data mimeType. cleared_in W rt cfg c data mimeType))"
| "phase_in W rt cfg c (AtJudge r) =
     (\<exists>data mimeType. cleared_in W rt cfg c data mimeType \<and> (cfg_Cache cfg = None \<longrightarrow> judged_in W rt cfg c data mimeType r))"
| "phase_in W rt cfg c AtAppend = approved_in W rt cfg c"
| "phase_in W rt cfg c ph = True"

lemma work_phase_in:
  assumes "w \<in> W" and "phase_in W rt cfg c ph" and "working ph"
    and "work (rt_at w rt) (cfg_at w cfg) maxResults c ph sh = (ph', sh')"
  shows "phase_in W rt cfg c ph'"
proof (cases ph)
  case AtProbe
  with assms show ?thesis by (auto split: if_splits prod.splits bool.splits)
next
  case AtDownload
  with assms show ?thesis by (auto simp: fetched_in_def split: outcome.splits option.splits) blast+
next
  case (AtAssess data mimeType)
  with assms show ?thesis by (auto simp: approved_in_def split: ImageLicense.splits)
next
  case (AtReverse data mimeType)
  with assms show ?thesis by (auto simp: cleared_in_def split: if_splits)
next
  case (AtCache data mimeType)
  with assms show ?thesis by (auto simp: judged_in_def split: if_splits option.splits prod.splits) blast+
next
  case (AtCall data mimeType)
  obtain evs res where e: "classifyFromData (rt_at w rt) (defaults (rt_at w rt) (cfg_at w cfg)) (ImgURL c) data mimeType = (evs, res)"
    by fastforce
  show ?thesis
  proof (cases res)
    case (Returns r)
    have "judged_in W rt cfg c data mimeType r"
      using e Returns assms AtCall by (auto simp: judged_in_def intro!: bexI [of _ w])
    with e Returns AtCall assms show ?thesis by (auto split: if_splits) blast+
  qed (use e AtCall assms in auto)
next
  case (AtJudge r)
  with assms show ?thesis by (auto simp: approved_in_def split: if_splits) blast
next
  case (AtStore r)
  with assms show ?thesis by (auto split: option.splits) blast
qed (use assms in \<open>auto simp: working_def split: prod.splits bool.splits if_splits option.splits\<close>)

interpretation world_sound: world_invariant W rt cfg maxResults
    "\<lambda>sh. \<forall>c \<in> set (validated sh). approved_in W rt cfg c" "\<lambda>sh c ph. phase_in W rt cfg c ph" "\<lambda>c. True"
  for W rt cfg maxResults
proof (unfold_locales, goal_cases)
  case (4 w sh c ph ph' sh')
  then show ?case using work_phase_in [OF 4(1,3,4,5)] work_validated [OF 4(5)] by fastforce
qed auto

section \<open>After the deadline\<close>

text \<open>Every request of an expired context fails; the vision model may still answer.\<close>

definition expired :: "moment \<Rightarrow> bool" where
  "expired w \<longleftrightarrow> (\<forall>req. isl (on_default w req)) \<and> (\<forall>req. isl (on_http w req)) \<and> (\<forall>req. isl (on_stealth w req))"

lemma follow_fails: "\<forall>req. isl (tr req) \<Longrightarrow> isl (follow tr n req)"
  by (cases n; cases "tr req") (auto dest: spec [of _ req])

lemma expired_do:
  assumes "expired w"
  shows "isl (Do (client_or_default (rt_at w rt) (cfg_HTTPClient (defaults (rt_at w rt) (cfg_at w cfg)))) req)"
    "isl (Do (validationClient (rt_at w rt) (defaults (rt_at w rt) (cfg_at w cfg))) req)"
    "cfg_StealthClient (defaults (rt_at w rt) (cfg_at w cfg)) = Some sc \<Longrightarrow> isl (Do sc req)"
  using assms
  by (auto simp: expired_def Do_def validationClient_def client_or_default_def defaults_def rt_at_def cfg_at_def
      intro!: follow_fails split: option.splits)

lemma expired_probe: "expired w \<Longrightarrow> \<not> ValidateImageURL (rt_at w rt) (cfg_at w cfg) url"
  by (simp add: ValidateImageURL_def Let_def sum.case_eq_if expired_do)

lemma fetch_fails: "\<forall>req. isl (Do c req) \<Longrightarrow> fetchImageData u c url ua opts = None"
  by (simp add: fetchImageData_def Let_def sum.case_eq_if)

lemma expired_download: "expired w \<Longrightarrow> downloadForValidation (rt_at w rt) (cfg_at w cfg) url = Returns ([], '''', None)"
  using expired_do [of w rt cfg]
  by (auto simp: downloadForValidation_def Download_def Let_def fetch_fails split: option.splits)

text \<open>The results, and the goroutines that may still deliver one.\<close>

definition probe_passed :: "phase \<Rightarrow> bool" where
  "probe_passed ph \<longleftrightarrow> working ph \<and> ph \<noteq> AtProbe"

definition deliverable :: "'c machine \<Rightarrow> ImageCandidate multiset" where
  "deliverable m = mset (validated (mem m)) + mset (map fst (filter (\<lambda>t. probe_passed (snd t)) (threads m)))"

lemma work_delivers:
  assumes "expired w" and "working ph" and "work (rt_at w rt) (cfg_at w cfg) maxResults c ph sh = (ph', sh')"
  shows "mset (validated sh') + (if probe_passed ph' then {#c#} else {#})
    \<subseteq># mset (validated sh) + (if probe_passed ph then {#c#} else {#})"
proof (cases "ph = AtProbe")
  case True
  with assms expired_probe [OF assms(1), of rt cfg] show ?thesis by (simp add: probe_passed_def working_def)
next
  case False
  with assms(2) have "probe_passed ph" by (simp add: probe_passed_def)
  moreover have "ph = AtAppend \<Longrightarrow> \<not> probe_passed ph'" using assms(3) by (auto simp: probe_passed_def working_def)
  ultimately show ?thesis using work_validated [OF assms(3)] by auto
qed

lemma step_delivers:
  assumes "expired w" and "machine_step (rt_at w rt) (cfg_at w cfg) maxResults m m'"
  shows "deliverable m' \<subseteq># deliverable m"
  using assms(2)
proof (induction rule: machine_step.induct)
  case (acquire i m c)
  then show ?case
    using mset_filter_update [OF acquire(1,2), of "\<lambda>t. probe_passed (snd t)" AtProbe]
    by (simp add: deliverable_def probe_passed_def working_def)
next
  case (run i m c ph ph' sh')
  let ?A = "mset (map fst (filter (\<lambda>t. probe_passed (snd t)) (threads m)))"
  show ?case
    using mset_exchange [where H = "mset (validated (mem m)) + ?A" and H' = "mset (validated (mem m)) + ?A",
        OF _ mset_filter_update [OF run(1,2), of "\<lambda>t. probe_passed (snd t)" ph']]
      work_delivers [OF assms(1) run(3,4)]
    by (simp add: deliverable_def)
next
  case (release i m c)
  then show ?case
    using mset_filter_update [OF release(1,2), of "\<lambda>t. probe_passed (snd t)" Exited]
    by (simp add: deliverable_def probe_passed_def working_def)
qed (simp_all add: deliverable_def probe_passed_def working_def)

lemma panic_delivers:
  assumes "panic_step rt cfg maxResults X m m'"
  shows "deliverable m' \<subseteq># deliverable m"
  using assms
proof (cases rule: panic_cases)
  case (1 i c ph sh')
  let ?A = "\<lambda>ts. mset (map fst (filter (\<lambda>t. probe_passed (snd t)) ts))"
  have "?A ((threads m)[i := (c, AtRelease)]) + (if probe_passed ph then {#c#} else {#}) = ?A (threads m)"
    using mset_filter_update [OF 1(1,2), of "\<lambda>t. probe_passed (snd t)" AtRelease]
    by (simp add: probe_passed_def working_def)
  then have "?A ((threads m)[i := (c, AtRelease)]) \<subseteq># ?A (threads m)" by (metis mset_subset_eq_add_left)
  then show ?thesis using 1 by (simp add: deliverable_def)
qed

lemma expired_delivers:
  assumes "world_runs (Collect expired) rt cfg maxResults m m'"
  shows "mset (validated (mem m')) \<subseteq># deliverable m"
proof -
  have "deliverable m' \<subseteq># deliverable m"
    using assms unfolding world_runs_def
    by (induction rule: rtranclp_induct) (auto simp: world_step_def intro: subset_mset.order_trans step_delivers panic_delivers)
  then show ?thesis using subset_mset.order_trans [OF mset_subset_eq_add_left] unfolding deliverable_def by blast
qed

lemma probe_passed_few:
  assumes "world_runs W rt cfg maxResults (start cs st evs) m"
  shows "length (filter (\<lambda>t. probe_passed (snd t)) (threads m)) \<le> validationSemaphore"
proof -
  have "filter (\<lambda>t. probe_passed (snd t)) (threads m)
      = filter (\<lambda>t. probe_passed (snd t)) (filter (\<lambda>t. holding (snd t)) (threads m))"
    by (auto simp: probe_passed_def working_def holding_def intro: filter_cong)
  then have "length (filter (\<lambda>t. probe_passed (snd t)) (threads m)) \<le> holders m"
    unfolding holders_def by (metis length_filter_le)
  with world_slots [OF assms] show ?thesis by simp
qed

end
