(* ===== verification/Deadline.thy ===== *)
theory Deadline
  imports Search Pipeline_World
begin

text \<open>
  The deadline of a search: \<^verbatim>\<open>SearchImagesWithOpts\<close> derives a context with a timeout and hands it
  to the providers and to every request of the pipeline. Time is counted in nanoseconds from the
  call; what the network, the model and the caller's own providers answer depends on it. A context
  past its deadline makes every request fail, as documented for \<^verbatim>\<open>net/http\<close>.
\<close>

section \<open>Time\<close>

definition searchTimeout :: int where
  "searchTimeout = 30 * second"

definition search_timeout :: "SearchOpts \<Rightarrow> int" where
  "search_timeout opts = (if Timeout opts > 0 then Timeout opts else searchTimeout)"

text \<open>\<^verbatim>\<open>context.WithTimeout\<close>, seen from the transports.\<close>

definition with_deadline :: "int \<Rightarrow> (int \<Rightarrow> moment) \<Rightarrow> int \<Rightarrow> moment" where
  "with_deadline d net t =
     (if t < d then net t
      else (net t)\<lparr>on_default := (\<lambda>req. Inl ''context deadline exceeded''),
                   on_http := (\<lambda>req. Inl ''context deadline exceeded''),
                   on_stealth := (\<lambda>req. Inl ''context deadline exceeded'')\<rparr>)"

text \<open>A step sees the world of the time it starts at and may take any time.\<close>

definition timed_step ::
  "(int \<Rightarrow> moment) \<Rightarrow> runtime \<Rightarrow> 'c Config \<Rightarrow> int \<Rightarrow> int \<times> 'c machine \<Rightarrow> int \<times> 'c machine \<Rightarrow> bool" where
  "timed_step net rt cfg maxResults p q \<longleftrightarrow>
     fst p \<le> fst q \<and> world_step {net (fst p)} rt cfg maxResults (snd p) (snd q)"

definition timed_runs ::
  "(int \<Rightarrow> moment) \<Rightarrow> runtime \<Rightarrow> 'c Config \<Rightarrow> int \<Rightarrow> int \<times> 'c machine \<Rightarrow> int \<times> 'c machine \<Rightarrow> bool" where
  "timed_runs net rt cfg maxResults = (timed_step net rt cfg maxResults)\<^sup>*\<^sup>*"

text \<open>What the provider at position \<open>i\<close> answers at time \<open>t\<close>, and what is gathered from answers at several times.\<close>

definition answer_at ::
  "(int \<Rightarrow> moment) \<Rightarrow> runtime \<Rightarrow> 'c Config \<Rightarrow> string \<Rightarrow> SearchOpts \<Rightarrow> int \<times> nat \<Rightarrow> ImageCandidate list result" where
  "answer_at net rt cfg query opts a =
     prov_Search (resolveProviders (rt_at (net (fst a)) rt) (cfg_at (net (fst a)) cfg) ! snd a) query opts"

definition gather_timed ::
  "(int \<Rightarrow> moment) \<Rightarrow> runtime \<Rightarrow> 'c Config \<Rightarrow> string \<Rightarrow> SearchOpts \<Rightarrow> (int \<times> nat) list \<Rightarrow> ImageCandidate list" where
  "gather_timed net rt cfg query opts arrived =
     concat (map (\<lambda>a. case answer_at net rt cfg query opts a of Inl _ \<Rightarrow> [] | Inr rs \<Rightarrow> rs) arrived)"

text \<open>
  \<^verbatim>\<open>SearchImagesWithOpts\<close> with its deadline: \<open>gathered\<close> is the time at which the last provider has
  answered and the validation starts.
\<close>

definition SearchWithin ::
  "(int \<Rightarrow> moment) \<Rightarrow> runtime \<Rightarrow> 'c Config \<Rightarrow> string \<Rightarrow> int \<Rightarrow> SearchOpts \<Rightarrow> 'c \<Rightarrow> int \<Rightarrow> 'c shared \<Rightarrow> bool" where
  "SearchWithin net rt cfg0 query maxResults opts st gathered sh \<longleftrightarrow>
     (if query = '''' then sh = fresh st []
      else let cfg = defaults rt cfg0; evs = search_events cfg; ctx = with_deadline (search_timeout opts) net in
        (\<exists>arrived. mset (map snd arrived) = mset [0..<length (resolveProviders rt cfg)]
          \<and> list_all (\<lambda>a. 0 \<le> fst a \<and> fst a \<le> gathered) arrived \<and>
          (let candidates = gather_timed ctx rt cfg query opts arrived in
           if candidates = [] then sh = fresh st evs
           else (\<exists>t m. timed_runs ctx rt cfg maxResults
                   (gathered, start (safe_first candidates) st evs) (t, m) \<and> main m = Finished \<and> mem m = sh))))"

section \<open>Facts\<close>

lemma search_timeout_pos: "0 < search_timeout opts"
  by (simp add: search_timeout_def searchTimeout_def second_def)

lemma with_deadline_before: "t < d \<Longrightarrow> with_deadline d net t = net t"
  by (simp add: with_deadline_def)

lemma with_deadline_expired: "d \<le> t \<Longrightarrow> expired (with_deadline d net t)"
  by (simp add: with_deadline_def expired_def)

lemma timed_world:
  assumes "timed_runs net rt cfg maxResults p q"
  shows "world_runs (net ` {fst p..}) rt cfg maxResults (snd p) (snd q) \<and> fst p \<le> fst q"
  using assms unfolding timed_runs_def
proof (induction rule: rtranclp_induct)
  case (step q r)
  then have "world_step (net ` {fst p..}) rt cfg maxResults (snd q) (snd r)"
    by (auto simp: timed_step_def world_step_def)
  with step show ?case unfolding world_runs_def by (auto simp: timed_step_def intro: rtranclp.rtrancl_into_rtrancl)
qed (simp add: world_runs_def)

text \<open>A result was probed while the context was alive.\<close>

lemma probed_alive:
  assumes "timed_runs (with_deadline d net) rt cfg maxResults (t0, start cs st evs) (t, m)" and "c \<in> set (validated (mem m))"
  shows "c \<in> set cs" "\<exists>s. t0 \<le> s \<and> s < d \<and> ValidateImageURL (rt_at (net s) rt) (cfg_at (net s) cfg) (ImgURL c)"
proof -
  have w: "world_runs (with_deadline d net ` {t0..}) rt cfg maxResults (start cs st evs) m"
    using timed_world [OF assms(1)] by simp
  have "mset (validated (mem m)) \<subseteq># mset cs"
    using world_selection [OF w] settled_started [of m] by (metis mset_subset_eq_add_left subset_mset.order_trans)
  then show "c \<in> set cs" using assms(2) mset_subset_eqD by fastforce
  have "approved_in (with_deadline d net ` {t0..}) rt cfg c"
    using world_sound.world_reached [OF _ _ w] assms(2) by (simp add: fresh_def list_all_iff)
  then obtain s where s: "t0 \<le> s" "ValidateImageURL (rt_at (with_deadline d net s) rt) (cfg_at (with_deadline d net s) cfg) (ImgURL c)"
    by (auto simp: approved_in_def cleared_in_def fetched_in_def)
  have "s < d" using s(2) expired_probe [OF with_deadline_expired, of d s] by (meson not_less)
  with s show "\<exists>s. t0 \<le> s \<and> s < d \<and> ValidateImageURL (rt_at (net s) rt) (cfg_at (net s) cfg) (ImgURL c)"
    by (auto simp: with_deadline_before)
qed

lemma gather_timed_from:
  assumes "c \<in> set (gather_timed net rt cfg query opts arrived)"
  obtains a rs where "a \<in> set arrived" "answer_at net rt cfg query opts a = Inr rs" "c \<in> set rs"
proof -
  from assms obtain a where "a \<in> set arrived" "c \<in> set (case answer_at net rt cfg query opts a of Inl _ \<Rightarrow> [] | Inr rs \<Rightarrow> rs)"
    unfolding gather_timed_def by auto
  then show thesis using that by (cases "answer_at net rt cfg query opts a") auto
qed

section \<open>Time to spare\<close>

text \<open>In a world that does not change, the deadline makes no difference before it expires.\<close>

lemma untimed:
  assumes "runs rt cfg maxResults m m'" and "rt_at (net t) rt = rt" and "cfg_at (net t) cfg = cfg"
  shows "timed_runs net rt cfg maxResults (t, m) (t, m')"
  using assms(1) unfolding runs_def timed_runs_def
proof (induction rule: rtranclp_induct)
  case (step y z)
  then have "timed_step net rt cfg maxResults (t, y) (t, z)" using assms(2,3) by (simp add: timed_step_def world_step_def)
  with step(3) show ?case by (rule rtranclp.rtrancl_into_rtrancl)
qed simp

lemma map_arrangement: "mset ys = mset (map f xs) \<Longrightarrow> \<exists>zs. mset zs = mset xs \<and> map f zs = ys"
proof (induction ys arbitrary: xs)
  case (Cons y ys)
  then have "y \<in> set (map f xs)" by (metis list.set_intros(1) mset_eq_setD)
  then obtain x where x: "x \<in> set xs" "f x = y" by auto
  then have "mset (map f (remove1 x xs)) = mset ys" using Cons.prems by (simp add: image_mset_Diff) (metis add_mset_remove_trivial)
  then obtain zs where "mset zs = mset (remove1 x xs)" "map f zs = ys" using Cons.IH by metis
  with x show ?case by (intro exI [of _ "x # zs"]) simp
qed simp

lemma SearchWithin_untimed:
  assumes "SearchImagesWithOpts rt cfg query maxResults opts st sh" and "0 \<le> gathered" and "gathered < search_timeout opts"
  shows "SearchWithin (\<lambda>t. moment_of rt (defaults rt cfg) model none) rt cfg query maxResults opts st gathered sh"
proof (cases "query = ''''")
  case False
  let ?c = "defaults rt cfg" and ?net = "with_deadline (search_timeout opts) (\<lambda>t. moment_of rt (defaults rt cfg) model none)"
  let ?ps = "resolveProviders rt ?c"
  obtain arrived where a: "mset arrived = mset ?ps" "let candidates = gatherCandidates arrived query opts in
      if candidates = [] then sh = fresh st (search_events ?c)
      else validateCandidates rt ?c (safe_first candidates) maxResults st (search_events ?c) sh"
    using assms(1) False unfolding SearchImagesWithOpts_def Let_def by auto
  have "mset arrived = mset (map ((!) ?ps) [0..<length ?ps])" using a(1) by (simp add: map_nth)
  then obtain ns where i: "mset ns = mset [0..<length ?ps]" "map ((!) ?ps) ns = arrived" using map_arrangement by blast
  have "gather_timed ?net rt ?c query opts (map (Pair gathered) ns) = gatherCandidates arrived query opts"
    using assms(3) i(2) by (auto simp: gather_timed_def answer_at_def with_deadline_before gatherCandidates_flat comp_def)
  moreover have "timed_runs ?net rt ?c maxResults (gathered, m) (gathered, m')" if "runs rt ?c maxResults m m'" for m m'
    using untimed [OF that] assms(3) by (simp add: with_deadline_before)
  ultimately show ?thesis
    using a(2) i(1) assms(2) False unfolding SearchWithin_def Let_def validateCandidates_def
    by (intro if_not_P [THEN iffD2] exI [of _ "map (Pair gathered) ns"]) (auto simp: list_all_iff comp_def split: if_splits)
qed (use assms(1) in \<open>simp add: SearchWithin_def SearchImagesWithOpts_def\<close>)

end
