(* ===== verification/Gather.thy ===== *)
theory Gather
  imports Search
begin

text \<open>
  The goroutines of \<^verbatim>\<open>gatherCandidates\<close>: one per provider, each calls its provider and then, under
  the mutex, appends what it got. The function of the same name in the theory \<open>Search\<close> takes the
  order of arrival as an argument; here that reading is justified from the interleavings.
\<close>

section \<open>The machine\<close>

datatype gather_phase = Calling | Appending "ImageCandidate list" | Returned

record gathering =
  g_todo :: "SearchProvider list"
  g_threads :: "(SearchProvider \<times> gather_phase) list"
  g_all :: "ImageCandidate list"

definition gather_start :: "SearchProvider list \<Rightarrow> gathering" where
  "gather_start providers = \<lparr>g_todo = providers, g_threads = [], g_all = []\<rparr>"

inductive gather_step :: "string \<Rightarrow> SearchOpts \<Rightarrow> gathering \<Rightarrow> gathering \<Rightarrow> bool" for query opts where
  go: "g_todo g = p # ps \<Longrightarrow> gather_step query opts g (g\<lparr>g_todo := ps, g_threads := g_threads g @ [(p, Calling)]\<rparr>)"
| failed: "i < length (g_threads g) \<Longrightarrow> g_threads g ! i = (p, Calling) \<Longrightarrow> prov_Search p query opts = Inl e \<Longrightarrow>
     gather_step query opts g (g\<lparr>g_threads := (g_threads g)[i := (p, Returned)]\<rparr>)"
| answered: "i < length (g_threads g) \<Longrightarrow> g_threads g ! i = (p, Calling) \<Longrightarrow> prov_Search p query opts = Inr rs \<Longrightarrow>
     gather_step query opts g (g\<lparr>g_threads := (g_threads g)[i := (p, Appending rs)]\<rparr>)"
| append: "i < length (g_threads g) \<Longrightarrow> g_threads g ! i = (p, Appending rs) \<Longrightarrow>
     gather_step query opts g (g\<lparr>g_threads := (g_threads g)[i := (p, Returned)], g_all := g_all g @ rs\<rparr>)"

inductive_cases gather_stepE: "gather_step query opts g g'"

definition gather_runs :: "string \<Rightarrow> SearchOpts \<Rightarrow> gathering \<Rightarrow> gathering \<Rightarrow> bool" where
  "gather_runs query opts = (gather_step query opts)\<^sup>*\<^sup>*"

text \<open>\<^verbatim>\<open>wg.Wait\<close> returns when the loop is done and every goroutine has returned.\<close>

definition all_returned :: "gathering \<Rightarrow> bool" where
  "all_returned g \<longleftrightarrow> g_todo g = [] \<and> list_all (\<lambda>t. snd t = Returned) (g_threads g)"

definition gathered :: "SearchProvider list \<Rightarrow> string \<Rightarrow> SearchOpts \<Rightarrow> ImageCandidate list \<Rightarrow> bool" where
  "gathered providers query opts cs \<longleftrightarrow>
     (\<exists>g. gather_runs query opts (gather_start providers) g \<and> all_returned g \<and> g_all g = cs)"

section \<open>Every run is an order of arrival\<close>

definition providers_in :: "(gather_phase \<Rightarrow> bool) \<Rightarrow> gathering \<Rightarrow> SearchProvider multiset" where
  "providers_in P g = mset (map fst (filter (\<lambda>t. P (snd t)) (g_threads g)))"

definition answers_kept :: "string \<Rightarrow> SearchOpts \<Rightarrow> gathering \<Rightarrow> bool" where
  "answers_kept query opts g \<longleftrightarrow>
     list_all (\<lambda>(p, ph). \<forall>rs. ph = Appending rs \<longrightarrow> prov_Search p query opts = Inr rs) (g_threads g)"

lemma gather_append:
  "gatherCandidates (ps @ [p]) query opts =
     gatherCandidates ps query opts @ (case prov_Search p query opts of Inl _ \<Rightarrow> [] | Inr rs \<Rightarrow> rs)"
  by (simp add: gatherCandidates_def split: sum.split)

lemma providers_in_all [simp]: "providers_in P (g\<lparr>g_all := a\<rparr>) = providers_in P g"
  by (simp add: providers_in_def)

lemma providers_in_update:
  "i < length (g_threads g) \<Longrightarrow> g_threads g ! i = (p, q) \<Longrightarrow>
     providers_in P (g\<lparr>g_threads := (g_threads g)[i := (p, q')]\<rparr>) + (if P q then {#p#} else {#})
     = providers_in P g + (if P q' then {#p#} else {#})"
  using mset_filter_update [of i "g_threads g" p q "\<lambda>t. P (snd t)" q'] by (simp add: providers_in_def)

lemma step_arrivals:
  assumes "gather_step query opts g g'" and "answers_kept query opts g"
    and "g_all g = gatherCandidates arrived query opts" and "mset arrived = providers_in (\<lambda>ph. ph = Returned) g"
    and "providers_in (\<lambda>ph. True) g + mset (g_todo g) = mset ps"
  shows "\<exists>arrived. answers_kept query opts g' \<and> g_all g' = gatherCandidates arrived query opts
    \<and> mset arrived = providers_in (\<lambda>ph. ph = Returned) g' \<and> providers_in (\<lambda>ph. True) g' + mset (g_todo g') = mset ps"
  using assms
proof (induction rule: gather_step.induct)
  case (go g p qs)
  then show ?case by (intro exI [of _ arrived]) (auto simp: answers_kept_def providers_in_def)
next
  case (failed i g p e)
  then show ?case
    using providers_in_update [OF failed(1,2), where P = "\<lambda>ph. ph = Returned" and q' = Returned]
      providers_in_update [OF failed(1,2), where P = "\<lambda>ph. True" and q' = Returned]
    by (intro exI [of _ "arrived @ [p]"]) (simp add: gather_append answers_kept_def list_all_update)
next
  case (answered i g p rs)
  then show ?case
    using providers_in_update [OF answered(1,2), where P = "\<lambda>ph. ph = Returned" and q' = "Appending rs"]
      providers_in_update [OF answered(1,2), where P = "\<lambda>ph. True" and q' = "Appending rs"]
    by (intro exI [of _ arrived]) (simp add: answers_kept_def list_all_update)
next
  case (append i g p rs)
  then have "prov_Search p query opts = Inr rs" by (auto simp: answers_kept_def list_all_length)
  then show ?case
    using providers_in_update [OF append(1,2), where P = "\<lambda>ph. ph = Returned" and q' = Returned]
      providers_in_update [OF append(1,2), where P = "\<lambda>ph. True" and q' = Returned] append
    by (intro exI [of _ "arrived @ [p]"]) (simp add: gather_append answers_kept_def list_all_update)
qed

lemma runs_arrivals:
  assumes "gather_runs query opts (gather_start ps) g"
  shows "\<exists>arrived. answers_kept query opts g \<and> g_all g = gatherCandidates arrived query opts
    \<and> mset arrived = providers_in (\<lambda>ph. ph = Returned) g \<and> providers_in (\<lambda>ph. True) g + mset (g_todo g) = mset ps"
  using assms unfolding gather_runs_def
proof (induction rule: rtranclp_induct)
  case base
  show ?case
    by (intro exI [of _ "[]"]) (simp add: gather_start_def answers_kept_def providers_in_def gatherCandidates_def)
next
  case (step g g')
  then show ?case using step_arrivals by blast
qed

section \<open>Every order of arrival is a run\<close>

lemma gather_runs_trans: "gather_runs query opts a b \<Longrightarrow> gather_runs query opts b c \<Longrightarrow> gather_runs query opts a c"
  by (simp add: gather_runs_def)

lemma gather_runs_one: "gather_step query opts a b \<Longrightarrow> gather_runs query opts a b"
  by (simp add: gather_runs_def)

lemma all_spawned:
  "gather_runs query opts g (g\<lparr>g_todo := [], g_threads := g_threads g @ map (\<lambda>p. (p, Calling)) (g_todo g)\<rparr>)"
proof (induction "g_todo g" arbitrary: g)
  case Nil
  then have "g\<lparr>g_todo := [], g_threads := g_threads g @ map (\<lambda>p. (p, Calling)) (g_todo g)\<rparr> = g" by (cases g) simp
  then show ?case by (simp add: gather_runs_def)
next
  case (Cons p ps)
  let ?g = "g\<lparr>g_todo := ps, g_threads := g_threads g @ [(p, Calling)]\<rparr>"
  have "gather_step query opts g ?g" using Cons(2) by (intro gather_step.go) simp
  moreover have "gather_runs query opts ?g (g\<lparr>g_todo := [], g_threads := g_threads g @ map (\<lambda>p. (p, Calling)) (g_todo g)\<rparr>)"
    using Cons(1) [of ?g] Cons(2) [symmetric] by simp
  ultimately show ?case by (meson gather_runs_one gather_runs_trans)
qed

lemma one_served:
  assumes "i < length (g_threads g)" and "g_threads g ! i = (p, Calling)"
  shows "gather_runs query opts g (g\<lparr>g_threads := (g_threads g)[i := (p, Returned)],
    g_all := g_all g @ (case prov_Search p query opts of Inl _ \<Rightarrow> [] | Inr rs \<Rightarrow> rs)\<rparr>)"
proof (cases "prov_Search p query opts")
  case (Inl e)
  from gather_step.failed [OF assms Inl] have "gather_runs query opts g (g\<lparr>g_threads := (g_threads g)[i := (p, Returned)]\<rparr>)"
    by (rule gather_runs_one)
  then show ?thesis using Inl by simp
next
  case (Inr rs)
  let ?g = "g\<lparr>g_threads := (g_threads g)[i := (p, Appending rs)]\<rparr>"
  have "gather_step query opts g ?g" by (rule gather_step.answered [OF assms Inr])
  moreover have "gather_step query opts ?g (g\<lparr>g_threads := (g_threads g)[i := (p, Returned)], g_all := g_all g @ rs\<rparr>)"
    using gather_step.append [of i ?g p rs query opts] assms(1) by simp
  ultimately show ?thesis using Inr by (auto intro: gather_runs_one gather_runs_trans)
qed

lemma all_served:
  "providers_in (\<lambda>ph. ph = Calling) g = mset arrived \<Longrightarrow> list_all (\<lambda>t. snd t = Calling \<or> snd t = Returned) (g_threads g) \<Longrightarrow>
     g_todo g = [] \<Longrightarrow>
     \<exists>g'. gather_runs query opts g g' \<and> all_returned g' \<and> g_all g' = g_all g @ gatherCandidates arrived query opts"
proof (induction arrived arbitrary: g)
  case Nil
  then have "list_all (\<lambda>t. snd t = Returned) (g_threads g)"
    by (auto simp: providers_in_def list_all_iff filter_empty_conv)
  with Nil show ?case
    by (intro exI [of _ g]) (simp add: gather_runs_def all_returned_def gatherCandidates_def)
next
  case (Cons p ps)
  have "p \<in># providers_in (\<lambda>ph. ph = Calling) g" using Cons.prems(1) by simp
  then have "(p, Calling) \<in> set (g_threads g)" by (auto simp: providers_in_def)
  then obtain i where i: "i < length (g_threads g)" "g_threads g ! i = (p, Calling)" by (metis in_set_conv_nth)
  let ?a = "g_all g @ (case prov_Search p query opts of Inl _ \<Rightarrow> [] | Inr rs \<Rightarrow> rs)"
  let ?g = "g\<lparr>g_threads := (g_threads g)[i := (p, Returned)], g_all := ?a\<rparr>"
  have "providers_in (\<lambda>ph. ph = Calling) ?g = mset ps"
    using providers_in_update [OF i, where P = "\<lambda>ph. ph = Calling" and q' = Returned] Cons.prems(1) by simp
  moreover have "list_all (\<lambda>t. snd t = Calling \<or> snd t = Returned) (g_threads ?g)"
    using Cons.prems(2) by (simp add: list_all_update)
  ultimately obtain g' where "gather_runs query opts ?g g'" "all_returned g'" "g_all g' = ?a @ gatherCandidates ps query opts"
    using Cons.IH [of ?g] Cons.prems(3) by auto
  moreover have "?a @ gatherCandidates ps query opts = g_all g @ gatherCandidates (p # ps) query opts"
    by (simp add: gatherCandidates_def split: sum.split)
  ultimately show ?case using one_served [OF i] gather_runs_trans by metis
qed

lemma gathered_iff:
  "gathered ps query opts cs \<longleftrightarrow> (\<exists>arrived. mset arrived = mset ps \<and> cs = gatherCandidates arrived query opts)"
proof
  assume "gathered ps query opts cs"
  then obtain g where g: "gather_runs query opts (gather_start ps) g" "all_returned g" "g_all g = cs"
    by (auto simp: gathered_def)
  have "filter (\<lambda>t. snd t = Returned) (g_threads g) = g_threads g"
    using g(2) by (simp add: all_returned_def list_all_iff filter_id_conv)
  then have "providers_in (\<lambda>ph. ph = Returned) g = providers_in (\<lambda>ph. True) g" by (simp add: providers_in_def)
  with runs_arrivals [OF g(1)] g(2,3) show "\<exists>arrived. mset arrived = mset ps \<and> cs = gatherCandidates arrived query opts"
    by (auto simp: all_returned_def)
next
  assume "\<exists>arrived. mset arrived = mset ps \<and> cs = gatherCandidates arrived query opts"
  then obtain arrived where a: "mset arrived = mset ps" "cs = gatherCandidates arrived query opts" by blast
  let ?g = "\<lparr>g_todo = [], g_threads = map (\<lambda>p. (p, Calling)) ps, g_all = []\<rparr>"
  have "gather_runs query opts (gather_start ps) ?g"
    using all_spawned [of query opts "gather_start ps"] by (simp add: gather_start_def)
  moreover have "\<exists>g'. gather_runs query opts ?g g' \<and> all_returned g' \<and> g_all g' = g_all ?g @ gatherCandidates arrived query opts"
    by (rule all_served) (simp_all add: providers_in_def list_all_iff comp_def a(1) filter_map)
  ultimately show "gathered ps query opts cs"
    unfolding gathered_def using a(2) gather_runs_trans by fastforce
qed

end
