(* ===== verification/Pipeline_Audit.thy ===== *)
theory Pipeline_Audit
  imports Pipeline_World
begin

text \<open>
  The callbacks of the validation pipeline in a changing world: no candidate causes more than one
  report of its decision and one of a panic, and a result accepted for its licence has been
  announced before it is returned.
\<close>

section \<open>Counting callbacks\<close>

fun is_decision :: "event \<Rightarrow> bool" where
  "is_decision (Classified e) = True"
| "is_decision ev = False"

fun is_panic :: "event \<Rightarrow> bool" where
  "is_panic (Panicked tag) = True"
| "is_panic ev = False"

lemma event_kinds: "is_decision ev \<longleftrightarrow> (\<exists>e. ev = Classified e)" "is_panic ev \<longleftrightarrow> (\<exists>t. ev = Panicked t)"
  by (cases ev; simp)+

lemma sum_update_le:
  "i < length xs \<Longrightarrow> f y + k \<le> f (xs ! i) + l \<Longrightarrow>
     sum_list (map f (xs[i := y])) + k \<le> sum_list (map f xs) + (l::nat)"
proof (induction xs arbitrary: i)
  case (Cons x xs)
  then show ?case by (cases i) auto
qed simp

text \<open>
  \<open>P\<close> selects callbacks, \<open>left\<close> bounds how many of them a goroutine can still cause at a point: what
  a stage does, and what a panic in it reports, is paid for by moving on.
\<close>

locale ledger =
  fixes W :: "moment set" and rt :: runtime and cfg :: "'c Config" and maxResults :: int
    and P :: "event \<Rightarrow> bool" and left :: "phase \<Rightarrow> nat"
  assumes admitted: "left AtProbe \<le> left AtSemaphore" and gone: "left Exited \<le> left AtRelease"
    and works: "w \<in> W \<Longrightarrow> working ph \<Longrightarrow> work (rt_at w rt) (cfg_at w cfg) maxResults c ph sh = (ph', sh') \<Longrightarrow>
        length (filter P (calls sh')) + left ph' \<le> length (filter P (calls sh)) + left ph"
    and panics_early: "w \<in> W \<Longrightarrow> calls_out ph \<Longrightarrow>
        length (filter P (calls (recovered (cfg_at w cfg) sh))) + left AtRelease \<le> length (filter P (calls sh)) + left ph"
    and panics_late: "w \<in> W \<Longrightarrow> calls_out ph \<Longrightarrow> breaks_late (rt_at w rt) (cfg_at w cfg) c ph \<Longrightarrow>
        work (rt_at w rt) (cfg_at w cfg) maxResults c ph sh = (ph', sh') \<Longrightarrow>
        length (filter P (calls (recovered (cfg_at w cfg) sh'))) + left AtRelease \<le> length (filter P (calls sh)) + left ph"
begin

definition due :: "'c machine \<Rightarrow> nat" where
  "due m = length (filter P (calls (mem m))) + sum_list (map (\<lambda>t. left (snd t)) (threads m)) + left AtSemaphore * length (todo m)"

lemma due_moved:
  assumes "i < length (threads m)" and "threads m ! i = (c, ph)" and "threads m' = (threads m)[i := (c, ph')]" and "todo m' = todo m"
    and "length (filter P (calls (mem m'))) + left ph' \<le> length (filter P (calls (mem m))) + left ph"
  shows "due m' \<le> due m"
  using sum_update_le [OF assms(1), of "\<lambda>t. left (snd t)" "(c, ph')"] assms(2-5) by (simp add: due_def add.commute)

lemma due_step:
  assumes "w \<in> W" and "machine_step (rt_at w rt) (cfg_at w cfg) maxResults m m'"
  shows "due m' \<le> due m"
  using assms(2)
proof (induction rule: machine_step.induct)
  case (acquire i m c)
  show ?case by (rule due_moved [OF acquire(1,2), where ph' = AtProbe]) (use admitted in simp_all)
next
  case (run i m c ph ph' sh')
  show ?case by (rule due_moved [OF run(1,2), where ph' = ph']) (use works [OF assms(1) run(3,4)] in simp_all)
next
  case (release i m c)
  show ?case by (rule due_moved [OF release(1,2), where ph' = Exited]) (use gone in simp_all)
qed (simp_all add: due_def)

lemma due_panic:
  assumes "w \<in> W" and "panic_step (rt_at w rt) (cfg_at w cfg) maxResults X m m'"
  shows "due m' \<le> due m"
  using assms(2)
proof (cases rule: panic_step.cases)
  case (early i c ph)
  show ?thesis by (rule due_moved [OF early(2,3), where ph' = AtRelease]) (use early(1) panics_early [OF assms(1) early(5)] in simp_all)
next
  case (late i c ph ph' sh')
  show ?thesis
    by (rule due_moved [OF late(2,3), where ph' = AtRelease]) (use late(1) panics_late [OF assms(1) late(5-7)] in simp_all)
qed

lemma reported:
  assumes "world_runs W rt cfg maxResults (start cs st evs) m"
  shows "length (filter P (calls (mem m))) \<le> length (filter P evs) + left AtSemaphore * length cs"
proof -
  have "due m \<le> due (start cs st evs)"
    using assms unfolding world_runs_def
    by (induction rule: rtranclp_induct) (auto simp: world_step_def dest: due_step due_panic intro: order_trans)
  then show ?thesis by (simp add: due_def fresh_def)
qed

end

text \<open>Whether a goroutine can still report its decision, and whether it can still panic.\<close>

fun reports_left :: "phase \<Rightarrow> nat" where
  "reports_left (AtStore r) = 0"
| "reports_left (AtJudge r) = 0"
| "reports_left AtAppend = 0"
| "reports_left AtRelease = 0"
| "reports_left Exited = 0"
| "reports_left ph = 1"

definition panics_left :: "phase \<Rightarrow> nat" where
  "panics_left ph = (if calls_out ph \<or> ph = AtSemaphore then 1 else 0)"

lemma calls_out_simps [simp]:
  "calls_out AtProbe" "calls_out AtDownload" "calls_out (AtDedup a b i)" "calls_out (AtAssess a b)" "calls_out (AtReverse a b)"
  "calls_out (AtCache a b)" "calls_out (AtCall a b)" "calls_out (AtStore r)"
  "\<not> calls_out (AtJudge r)" "\<not> calls_out AtAppend" "\<not> calls_out AtRelease" "\<not> calls_out Exited" "\<not> calls_out AtSemaphore"
  by (simp_all add: calls_out_def) (simp_all add: working_def)

lemma emitted:
  "length (filter is_decision (emitClassification cfg url cls conf src)) \<le> Suc 0" "filter is_panic (emitClassification cfg url cls conf src) = []"
  "length (emitClassification cfg url cls conf src) \<le> Suc 0"
  by (simp_all add: emitClassification_def)

lemma recovered_kinds:
  "filter is_decision (calls (recovered cfg sh)) = filter is_decision (calls sh)"
  "length (filter is_panic (calls (recovered cfg sh))) \<le> Suc (length (filter is_panic (calls sh)))"
  by (simp_all add: recovered_def)

lemma classifyFromData_kinds:
  "length (filter is_decision (fst (classifyFromData rt cfg url data mimeType))) \<le> Suc 0"
  "filter is_panic (fst (classifyFromData rt cfg url data mimeType)) = []"
  by (cases "data = []"; auto simp: classifyFromData_def Let_def emitted split: option.splits outcome.splits sum.splits)+

lemma blocked_kinds:
  "length (filter is_decision (snd (isBlockedByExtraDomains rt cfg c))) \<le> Suc 0"
  "filter is_panic (snd (isBlockedByExtraDomains rt cfg c)) = []"
  by (simp_all add: isBlockedByExtraDomains_def emitted)

lemma work_decisions:
  assumes "working ph" and "work rt cfg maxResults c ph sh = (ph', sh')"
  shows "length (filter is_decision (calls sh')) + reports_left ph' \<le> length (filter is_decision (calls sh)) + reports_left ph"
proof (cases ph)
  case AtProbe
  with assms(2) blocked_kinds(1) [of rt cfg c] show ?thesis by (auto split: if_splits prod.splits bool.splits)
next
  case (AtCall data mimeType)
  with assms(2) classifyFromData_kinds(1) [of rt "defaults rt cfg" "ImgURL c" data mimeType]
  show ?thesis by (auto simp: recovered_kinds split: prod.splits outcome.splits)
qed (use assms in \<open>auto simp: recovered_kinds emitted working_def
    split: if_splits prod.splits bool.splits outcome.splits option.splits ImageLicense.splits\<close>)

lemma work_panics:
  assumes "working ph" and "work rt cfg maxResults c ph sh = (ph', sh')"
  shows "length (filter is_panic (calls sh')) + panics_left ph' \<le> length (filter is_panic (calls sh)) + panics_left ph"
proof (cases ph)
  case AtProbe
  with assms(2) blocked_kinds(2) [of rt cfg c] show ?thesis by (auto simp: panics_left_def split: if_splits prod.splits bool.splits)
next
  case AtDownload
  with assms(2) recovered_kinds(2) [of cfg sh] show ?thesis by (auto simp: panics_left_def split: outcome.splits option.splits)
next
  case (AtCall data mimeType)
  obtain evs res where e: "classifyFromData rt (defaults rt cfg) (ImgURL c) data mimeType = (evs, res)" by fastforce
  have "filter is_panic evs = []" using classifyFromData_kinds(2) [of rt "defaults rt cfg" "ImgURL c" data mimeType] e by simp
  with assms(2) AtCall e recovered_kinds(2) [of cfg "emit evs sh"] show ?thesis
    by (cases res) (auto simp: panics_left_def split: if_splits)
qed (use assms in \<open>auto simp: panics_left_def emitted working_def
    split: if_splits prod.splits bool.splits outcome.splits option.splits ImageLicense.splits\<close>)

lemma late_panic_free:
  assumes "calls_out ph" and "breaks_late rt cfg c ph" and "work rt cfg maxResults c ph sh = (ph', sh')"
  shows "filter is_panic (calls sh') = filter is_panic (calls sh)"
  using assms blocked_kinds(2) [of rt cfg c] classifyFromData_kinds(2) [of rt "defaults rt cfg" "ImgURL c"]
  by (cases ph) (auto simp: emitted split: if_splits prod.splits bool.splits outcome.splits option.splits ImageLicense.splits
      dest!: arg_cong [of "classifyFromData _ _ _ _ _" _ fst])

lemma late_decisions:
  assumes "calls_out ph" and "work rt cfg maxResults c ph sh = (ph', sh')"
  shows "length (filter is_decision (calls sh')) \<le> length (filter is_decision (calls sh)) + reports_left ph"
  using work_decisions [OF _ assms(2)] assms(1) by (force simp: calls_out_def)

interpretation decisions: ledger W rt cfg maxResults is_decision reports_left for W rt cfg maxResults
  by unfold_locales (simp_all add: work_decisions recovered_kinds late_decisions)

interpretation panics: ledger W rt cfg maxResults is_panic panics_left for W rt cfg maxResults
proof (unfold_locales, goal_cases)
  case (3 w ph c sh ph' sh')
  then show ?case using work_panics by blast
next
  case (4 w ph sh)
  then show ?case using recovered_kinds(2) [of "cfg_at w cfg" sh] by (simp add: panics_left_def)
next
  case (5 w ph c sh ph' sh')
  then show ?case
    using recovered_kinds(2) [of "cfg_at w cfg" sh'] late_panic_free [OF 5(2-4)] by (simp add: panics_left_def)
qed (simp_all add: panics_left_def)

definition is_other :: "event \<Rightarrow> bool" where
  "is_other ev \<longleftrightarrow> \<not> is_decision ev \<and> \<not> is_panic ev"

lemma others_constant:
  "filter is_other (emitClassification cfg url cls conf src) = []"
  "filter is_other (calls (recovered cfg sh)) = filter is_other (calls sh)"
  "classifyFromData rt cfg url data mimeType = (evs, res) \<Longrightarrow> filter is_other evs = []"
  "isBlockedByExtraDomains rt cfg c = (x, evs) \<Longrightarrow> filter is_other evs = []"
  by (cases "data = []"; auto simp: emitClassification_def recovered_def is_other_def isBlockedByExtraDomains_def classifyFromData_def
      Let_def split: if_splits option.splits outcome.splits sum.splits)+

lemma work_others: "work rt cfg maxResults c ph sh = (ph', sh') \<Longrightarrow> filter is_other (calls sh') = filter is_other (calls sh)"
  by (cases ph) (auto simp: others_constant split: if_splits prod.splits bool.splits outcome.splits option.splits ImageLicense.splits)

interpretation others: ledger W rt cfg maxResults is_other "\<lambda>_. 0" for W rt cfg maxResults
  by unfold_locales (simp_all add: others_constant work_others)

lemma world_callbacks:
  assumes "world_runs W rt cfg maxResults (start cs st evs) m"
  shows "length (calls (mem m)) \<le> length evs + 2 * length cs"
proof -
  have split: "length es = length (filter is_decision es) + length (filter is_panic es) + length (filter is_other es)" for es
  proof (induction es)
    case (Cons e es)
    then show ?case by (cases e) (auto simp: is_other_def)
  qed simp
  show ?thesis
    using decisions.reported [OF assms] panics.reported [OF assms] others.reported [OF assms] split [of evs] split [of "calls (mem m)"]
    by (simp add: panics_left_def)
qed

section \<open>What is announced\<close>

text \<open>
  A result is on record: announced as accepted for its licence, or its licence was unknown and it
  has been cleared otherwise.
\<close>

definition announced :: "'c Config \<Rightarrow> 'c shared \<Rightarrow> ImageCandidate \<Rightarrow> bool" where
  "announced cfg sh c \<longleftrightarrow>
     set (emitClassification cfg (ImgURL c) ClassPhoto (Fin 1) ''license_assessment'') \<subseteq> set (calls sh)"

definition on_record :: "moment set \<Rightarrow> runtime \<Rightarrow> 'c Config \<Rightarrow> 'c shared \<Rightarrow> ImageCandidate \<Rightarrow> bool" where
  "on_record W rt cfg sh c \<longleftrightarrow> announced cfg sh c \<or> (\<exists>data mimeType. cleared_in W rt cfg c data mimeType)"

lemma on_record_mono: "on_record W rt cfg sh c \<Longrightarrow> set (calls sh) \<subseteq> set (calls sh') \<Longrightarrow> on_record W rt cfg sh' c"
  by (auto simp: on_record_def announced_def)

definition recorded_at :: "moment set \<Rightarrow> runtime \<Rightarrow> 'c Config \<Rightarrow> 'c shared \<Rightarrow> ImageCandidate \<Rightarrow> phase \<Rightarrow> bool" where
  "recorded_at W rt cfg sh c ph \<longleftrightarrow> phase_in W rt cfg c ph \<and> (ph = AtAppend \<longrightarrow> on_record W rt cfg sh c)"

lemma announced_at [simp]: "emitClassification (cfg_at w cfg) url cls conf src = emitClassification cfg url cls conf src"
  by (simp add: emitClassification_def)

lemma work_recorded:
  assumes "w \<in> W" and "recorded_at W rt cfg sh c ph" and "working ph"
    and "work (rt_at w rt) (cfg_at w cfg) maxResults c ph sh = (ph', sh')"
  shows "recorded_at W rt cfg sh' c ph'"
proof -
  have "on_record W rt cfg sh' c" if "ph' = AtAppend"
  proof (cases ph)
    case (AtAssess data mimeType)
    with that assms(4) show ?thesis by (auto simp: on_record_def announced_def split: ImageLicense.splits)
  next
    case (AtJudge r)
    with assms(2) show ?thesis by (auto simp: recorded_at_def on_record_def)
  qed (use that assms(3,4) in \<open>auto simp: working_def split: if_splits prod.splits bool.splits outcome.splits option.splits\<close>)
  then show ?thesis using work_phase_in [OF assms(1) _ assms(3,4)] assms(2) by (simp add: recorded_at_def)
qed

interpretation world_recorded: world_invariant W rt cfg maxResults
    "\<lambda>sh. \<forall>c \<in> set (validated sh). on_record W rt cfg sh c" "recorded_at W rt cfg" "\<lambda>c. True"
  for W rt cfg maxResults
proof (unfold_locales, goal_cases)
  case (4 w sh c ph ph' sh')
  have "on_record W rt cfg sh' d" if "d \<in> set (validated sh')" for d
    using that work_validated [OF 4(5)] 4(2,3) on_record_mono [OF _ work_calls [OF 4(5)]] by (auto simp: recorded_at_def)
  then show ?case using work_recorded [OF 4(1,3,4,5)] by simp
next
  case (5 w sh c ph ph' sh' d q)
  then show ?case using on_record_mono work_calls by (fastforce simp: recorded_at_def)
next
  case (6 sh' sh)
  then show ?case using on_record_mono by fastforce
next
  case (8 sh' sh c ph)
  then show ?case using on_record_mono by (auto simp: recorded_at_def)
qed (auto simp: recorded_at_def)

end
