(* ===== verification/Pipeline_Isolation.thy ===== *)
theory Pipeline_Isolation
  imports Pipeline_World
begin

text \<open>
  A panic costs only its own candidate. While the network is constant and injected code may panic on
  some candidates, every other candidate that qualifies is returned, unless the results are full or
  the dedup filter turned it away, and then for the picture of another candidate.
\<close>

section \<open>How a goroutine of a qualifying candidate ends\<close>

definition unharmed :: "moment set \<Rightarrow> runtime \<Rightarrow> 'c Config \<Rightarrow> ImageCandidate \<Rightarrow> bool" where
  "unharmed W rt cfg c \<longleftrightarrow> certain rt cfg c \<and> (\<forall>w \<in> W. c \<notin> may_panic w)"

definition steady :: "moment set \<Rightarrow> runtime \<Rightarrow> 'c Config \<Rightarrow> bool" where
  "steady W rt cfg \<longleftrightarrow> (\<forall>w \<in> W. rt_at w rt = rt \<and> cfg_at w cfg = cfg)"

text \<open>What is known at each point of a goroutine: for every candidate, and for one that is to be returned.\<close>

definition informed :: "moment set \<Rightarrow> runtime \<Rightarrow> 'c Config \<Rightarrow> int \<Rightarrow> 'c shared \<Rightarrow> ImageCandidate \<Rightarrow> phase \<Rightarrow> bool" where
  "informed W rt cfg maxResults sh c ph \<longleftrightarrow>
     phase_ok rt cfg c ph \<and> holds_image rt cfg c ph \<and> (unharmed W rt cfg c \<longrightarrow> on_track rt cfg maxResults sh c ph)"

lemma on_track_same:
  "validated sh' = validated sh \<Longrightarrow> hashes sh' = hashes sh \<Longrightarrow> on_track rt cfg maxResults sh c ph \<Longrightarrow> on_track rt cfg maxResults sh' c ph"
  by (cases ph) (simp_all add: served_def full_def shadowed_def)

lemma work_informed:
  assumes "informed W rt cfg maxResults sh c ph" and "working ph" and "work rt cfg maxResults c ph sh = (ph', sh')"
  shows "informed W rt cfg maxResults sh' c ph'"
proof -
  have "holds_image rt cfg c ph'"
    using assms by (cases ph) (auto simp: downloaded_def working_def split: if_splits prod.splits outcome.splits option.splits
        ImageLicense.splits bool.splits)
  then show ?thesis
    using assms work_phase_ok [OF _ assms(2,3)] work_on_track [OF _ assms(2) _ _ assms(3)]
    by (auto simp: informed_def unharmed_def)
qed

lemma world_informed:
  assumes "steady W rt cfg"
  shows "world_invariant W rt cfg maxResults (\<lambda>sh. True) (informed W rt cfg maxResults) (\<lambda>c. True)"
proof (rule world_invariant.intro)
  fix w assume w: "w \<in> W"
  then have "rt_at w rt = rt" "cfg_at w cfg = cfg" using assms by (auto simp: steady_def)
  moreover have "thread_invariant rt cfg maxResults (\<lambda>sh. True) (informed W rt cfg maxResults) (\<lambda>c. True)"
  proof (unfold_locales, goal_cases)
    case (4 sh c ph ph' sh')
    then show ?case by (simp add: work_informed)
  next
    case (5 sh c ph ph' sh' d q)
    then show ?case using work_mono by (auto simp: informed_def)
  qed (simp_all add: informed_def)
  ultimately show "thread_invariant (rt_at w rt) (cfg_at w cfg) maxResults (\<lambda>sh. True) (informed W rt cfg maxResults) (\<lambda>c. True)"
    by simp
qed (auto simp: informed_def unharmed_def intro: on_track_same)

lemma certain_ends:
  assumes "phase_ok rt cfg c ph" and "holds_image rt cfg c ph" and "on_track rt cfg maxResults sh c ph" and "certain rt cfg c"
    and "working ph" and "work rt cfg maxResults c ph sh = (ph', sh')" and "settled ph'"
  shows "c \<in> set (validated sh') \<or> full maxResults sh' \<or>
    \<not> past_dedup ph \<and> (\<exists>h k. fingerprint rt cfg c = Some h \<and> k \<in> set (hashes sh) \<and> close_to h k)"
proof (cases "past_dedup ph")
  case True
  have "ph = AtAppend"
    using certain_never_dropped [OF assms(1,4,3) True _ assms(6)] assms(7) by (cases "ph = AtAppend") (auto simp: settled_def)
  then show ?thesis using assms(6) by (auto simp: validated_append full_def)
next
  case False
  have rel: "ph' = AtRelease"
    using assms(5-7) by (cases ph) (auto simp: settled_def working_def split: if_splits prod.splits bool.splits outcome.splits
        option.splits ImageLicense.splits)
  have acc: "accepts rt cfg c" using assms(4) by (simp add: certain_def)
  consider (early) "ph = AtProbe \<or> ph = AtDownload" | (dedup) data mimeType img where "ph = AtDedup data mimeType img"
    using False assms(5) by (auto simp: past_dedup_def)
  then show ?thesis
  proof cases
    case early
    from early_exit_rejects [OF early assms(6) [unfolded rel]] acc show ?thesis by simp
  next
    case dedup
    then have "fst (isDuplicate (rt_gray rt) (hashes sh) (Some img))" using assms(6) rel by (auto split: prod.splits bool.splits)
    then have "resembles rt (hashes sh) img" by (simp add: isDuplicate_resembles)
    with dedup assms(2) False show ?thesis
      by (auto simp: resembles_def fingerprint_def hash_key_def list_ex_iff split: sum.splits)
  qed
qed

section \<open>Who owns the hashes of the filter\<close>

text \<open>A goroutine that has dealt with the filter.\<close>

definition filtered :: "phase \<Rightarrow> bool" where
  "filtered ph \<longleftrightarrow> past_dedup ph \<or> settled ph"

lemma work_filtered: "working ph \<Longrightarrow> work rt cfg maxResults c ph sh = (ph', sh') \<Longrightarrow> filtered ph \<Longrightarrow> filtered ph'"
  using late_stays(2) [of ph rt cfg maxResults c sh ph' sh'] by (auto simp: filtered_def settled_def working_def)

lemma work_new_hash:
  assumes "working ph" and "holds_image rt cfg c ph" and "work rt cfg maxResults c ph sh = (ph', sh')" and "k \<in> set (hashes sh')"
  shows "k \<in> set (hashes sh) \<or> fingerprint rt cfg c = Some k \<and> filtered ph'"
proof (cases ph)
  case (AtDedup data mimeType img)
  have e: "mset (hashes sh') = mset (hashes sh) + mset (own_prints rt cfg c (past_dedup ph'))"
    using work_dedup_claim [of rt cfg maxResults c data mimeType img sh ph' sh'] assms(2,3) AtDedup by simp
  from mset_eq_setD [of "hashes sh'" "hashes sh @ own_prints rt cfg c (past_dedup ph')"] e assms(4)
  show ?thesis by (auto simp: own_prints_def filtered_def split: if_splits option.splits)
qed (use assms in \<open>auto split: if_splits prod.splits bool.splits outcome.splits option.splits ImageLicense.splits\<close>)

definition owned :: "runtime \<Rightarrow> 'c Config \<Rightarrow> 'c machine \<Rightarrow> bool" where
  "owned rt cfg m \<longleftrightarrow> (\<forall>k \<in> set (hashes (mem m)). \<exists>j < length (threads m).
     filtered (snd (threads m ! j)) \<and> fingerprint rt cfg (fst (threads m ! j)) = Some k)"

text \<open>The picture of the \<open>i\<close>-th candidate is close to that of another one.\<close>

definition rivalled :: "runtime \<Rightarrow> 'c Config \<Rightarrow> ImageCandidate list \<Rightarrow> nat \<Rightarrow> bool" where
  "rivalled rt cfg ds i \<longleftrightarrow> (\<exists>j < length ds. j \<noteq> i \<and>
     (\<exists>h k. fingerprint rt cfg (ds ! i) = Some h \<and> fingerprint rt cfg (ds ! j) = Some k \<and> close_to h k))"

definition justified :: "moment set \<Rightarrow> runtime \<Rightarrow> 'c Config \<Rightarrow> int \<Rightarrow> 'c machine \<Rightarrow> bool" where
  "justified W rt cfg maxResults m \<longleftrightarrow> (\<forall>i < length (threads m). settled (snd (threads m ! i)) \<longrightarrow>
     unharmed W rt cfg (fst (threads m ! i)) \<longrightarrow>
       fst (threads m ! i) \<in> set (validated (mem m)) \<or> full maxResults (mem m) \<or> rivalled rt cfg (map fst (threads m)) i)"

section \<open>Both are kept by every step\<close>

text \<open>One goroutine moves on and the others stay.\<close>

lemma moved_owned:
  assumes "owned rt cfg m" and "i < length (threads m)" and "threads m ! i = (c, ph)" and "threads m' = (threads m)[i := (c, ph')]"
    and "filtered ph \<Longrightarrow> filtered ph'"
    and "\<And>k. k \<in> set (hashes (mem m')) \<Longrightarrow> k \<in> set (hashes (mem m)) \<or> fingerprint rt cfg c = Some k \<and> filtered ph'"
  shows "owned rt cfg m'"
  unfolding owned_def
proof
  fix k assume "k \<in> set (hashes (mem m'))"
  from assms(6) [OF this] show "\<exists>j < length (threads m'). filtered (snd (threads m' ! j)) \<and> fingerprint rt cfg (fst (threads m' ! j)) = Some k"
  proof
    assume "k \<in> set (hashes (mem m))"
    then obtain j where "j < length (threads m)" "filtered (snd (threads m ! j))" "fingerprint rt cfg (fst (threads m ! j)) = Some k"
      using assms(1) by (auto simp: owned_def)
    then show ?thesis using assms(2-5) by (intro exI [of _ j]) (auto simp: nth_list_update)
  qed (use assms(2,4) in \<open>auto intro: exI [of _ i]\<close>)
qed

lemma moved_justified:
  assumes "justified W rt cfg maxResults m" and "i < length (threads m)" and "threads m ! i = (c, ph)"
    and "threads m' = (threads m)[i := (c, ph')]"
    and "set (validated (mem m)) \<subseteq> set (validated (mem m'))" and "full maxResults (mem m) \<Longrightarrow> full maxResults (mem m')"
    and "settled ph' \<Longrightarrow> unharmed W rt cfg c \<Longrightarrow>
      settled ph \<or> c \<in> set (validated (mem m')) \<or> full maxResults (mem m') \<or> rivalled rt cfg (map fst (threads m)) i"
  shows "justified W rt cfg maxResults m'"
proof -
  have f: "map fst (threads m') = map fst (threads m)" using map_fst_update [OF assms(2,3)] assms(4) by simp
  show ?thesis
    unfolding justified_def f
  proof (intro allI impI)
    fix j
    assume j: "j < length (threads m')" "settled (snd (threads m' ! j))" "unharmed W rt cfg (fst (threads m' ! j))"
    show "fst (threads m' ! j) \<in> set (validated (mem m')) \<or> full maxResults (mem m') \<or> rivalled rt cfg (map fst (threads m)) j"
    proof (cases "j = i \<and> \<not> settled ph")
      case True
      with j assms(2,4,7) show ?thesis by auto
    next
      case False
      then have "settled (snd (threads m ! j))" "fst (threads m' ! j) = fst (threads m ! j)"
        using j assms(2-4) by (cases "i = j"; simp)+
      with assms(1,4-6) j show ?thesis by (auto simp: justified_def)
    qed
  qed
qed

lemma run_justified:
  assumes "owned rt cfg m" and "justified W rt cfg maxResults m" and "informed W rt cfg maxResults (mem m) c ph"
    and "i < length (threads m)" and "threads m ! i = (c, ph)" and "working ph" and "work rt cfg maxResults c ph (mem m) = (ph', sh')"
  shows "owned rt cfg (m\<lparr>threads := (threads m)[i := (c, ph')], mem := sh'\<rparr>)"
    "justified W rt cfg maxResults (m\<lparr>threads := (threads m)[i := (c, ph')], mem := sh'\<rparr>)"
proof -
  let ?m = "m\<lparr>threads := (threads m)[i := (c, ph')], mem := sh'\<rparr>"
  have img: "holds_image rt cfg c ph" using assms(3) by (simp add: informed_def)
  show "owned rt cfg ?m"
    by (rule moved_owned [OF assms(1,4,5), where ph' = ph']) (use work_filtered [OF assms(6,7)] work_new_hash [OF assms(6) img assms(7)] in auto)
  show "justified W rt cfg maxResults ?m"
  proof (rule moved_justified [OF assms(2,4,5), where ph' = ph'])
    assume s: "settled ph'" "unharmed W rt cfg c"
    have "c \<in> set (validated sh') \<or> full maxResults sh' \<or>
        \<not> past_dedup ph \<and> (\<exists>h k. fingerprint rt cfg c = Some h \<and> k \<in> set (hashes (mem m)) \<and> close_to h k)"
      using assms(3,6,7) s by (intro certain_ends) (auto simp: informed_def unharmed_def)
    moreover have "rivalled rt cfg (map fst (threads m)) i"
      if np: "\<not> past_dedup ph" and hk: "fingerprint rt cfg c = Some h" "k \<in> set (hashes (mem m))" "close_to h k" for h k
    proof -
      obtain j where j: "j < length (threads m)" "filtered (snd (threads m ! j))" "fingerprint rt cfg (fst (threads m ! j)) = Some k"
        using assms(1) hk(2) by (auto simp: owned_def)
      have "\<not> filtered ph" using np assms(6) by (auto simp: filtered_def settled_def working_def)
      then have "j \<noteq> i" using j(2) assms(5) by auto
      with j hk assms(4,5) show ?thesis unfolding rivalled_def by (intro exI [of _ j]) auto
    qed
    ultimately show "settled ph \<or> c \<in> set (validated (mem ?m)) \<or> full maxResults (mem ?m) \<or> rivalled rt cfg (map fst (threads m)) i"
      by auto
  qed (use work_validated [OF assms(7)] in \<open>auto simp: full_def\<close>)
qed

lemma rivalled_append: "i < length ds \<Longrightarrow> rivalled rt cfg ds i \<Longrightarrow> rivalled rt cfg (ds @ [c]) i"
  by (auto simp: rivalled_def nth_append intro: less_SucI)

lemma step_justified:
  assumes "machine_step rt cfg maxResults m m'" and "owned rt cfg m" and "justified W rt cfg maxResults m"
    and "list_all (\<lambda>(c, ph). informed W rt cfg maxResults (mem m) c ph) (threads m)"
  shows "owned rt cfg m' \<and> justified W rt cfg maxResults m'"
  using assms
proof (induction rule: machine_step.induct)
  case (spawn m c cs)
  let ?m = "m\<lparr>todo := cs, threads := threads m @ [(c, AtSemaphore)]\<rparr>"
  have t: "threads ?m ! j = threads m ! j" if "j < length (threads m)" for j using that by (simp add: nth_append)
  have "owned rt cfg ?m"
    unfolding owned_def
  proof
    fix k assume "k \<in> set (hashes (mem ?m))"
    with spawn(4) obtain j where "j < length (threads m)" "filtered (snd (threads m ! j))" "fingerprint rt cfg (fst (threads m ! j)) = Some k"
      by (auto simp: owned_def)
    with t [of j] show "\<exists>j < length (threads ?m). filtered (snd (threads ?m ! j)) \<and> fingerprint rt cfg (fst (threads ?m ! j)) = Some k"
      by (intro exI [of _ j]) simp
  qed
  moreover have "justified W rt cfg maxResults ?m"
    using spawn(5) rivalled_append [of _ "map fst (threads m)" rt cfg c]
    by (auto simp: justified_def nth_append less_Suc_eq settled_def)
  ultimately show ?case ..
next
  case (acquire i m c)
  show ?case
    by (intro conjI moved_owned [OF acquire(4,1,2), where ph' = AtProbe] moved_justified [OF acquire(5,1,2), where ph' = AtProbe])
       (simp_all add: filtered_def settled_def)
next
  case (run i m c ph ph' sh')
  have "informed W rt cfg maxResults (mem m) c ph" using run(1,2,7) by (auto simp: list_all_length)
  then show ?case using run_justified [OF run(5,6) _ run(1-4)] by blast
next
  case (release i m c)
  show ?case
    by (intro conjI moved_owned [OF release(3,1,2), where ph' = Exited] moved_justified [OF release(4,1,2), where ph' = Exited])
       (simp_all add: filtered_def settled_def)
qed (simp_all add: owned_def justified_def)

lemma panic_justified:
  assumes "panic_step rt cfg maxResults X m m'" and "owned rt cfg m" and "justified W rt cfg maxResults m"
    and "\<And>c. c \<in> X \<Longrightarrow> \<not> unharmed W rt cfg c"
  shows "owned rt cfg m' \<and> justified W rt cfg maxResults m'"
  using assms(1)
proof (cases rule: panic_cases)
  case (1 i c ph sh')
  then show ?thesis
    using moved_owned [OF assms(2) 1(1,2), of m' AtRelease] moved_justified [OF assms(3) 1(1,2), of m' AtRelease] assms(4) [OF 1(8)]
    by (simp add: filtered_def settled_def full_def)
qed

lemma world_justified:
  assumes "world_runs W rt cfg maxResults (start cs st evs) m" and "steady W rt cfg"
  shows "owned rt cfg m \<and> justified W rt cfg maxResults m"
  using assms(1) unfolding world_runs_def
proof (induction rule: rtranclp_induct)
  case base
  then show ?case by (simp add: owned_def justified_def fresh_def)
next
  case (step m m')
  have inf: "list_all (\<lambda>(c, ph). informed W rt cfg maxResults (mem m) c ph) (threads m)"
    using world_invariant.world_reached [OF world_informed [OF assms(2)], where st = st and evs = evs and cs = cs and m = m] step(1)
    by (simp add: world_runs_def list_all_iff)
  obtain w where w: "w \<in> W" "machine_step (rt_at w rt) (cfg_at w cfg) maxResults m m'
      \<or> panic_step (rt_at w rt) (cfg_at w cfg) maxResults (may_panic w) m m'"
    using step(2) by (auto simp: world_step_def)
  have same: "rt_at w rt = rt" "cfg_at w cfg = cfg" using assms(2) w(1) by (auto simp: steady_def)
  from w(2) step(3) inf show ?case
    using step_justified [of rt cfg maxResults m m' W] panic_justified [of rt cfg maxResults "may_panic w" m m' W] w(1)
    unfolding same by (auto simp: unharmed_def)
qed

section \<open>Nothing else is lost\<close>

lemma world_stopped_well:
  assumes "world_runs W rt cfg maxResults (start cs st evs) m"
  shows "stopped_well maxResults m"
  by (rule world_preserves [OF assms, where P = "stopped_well maxResults"])
     (simp add: stopped_well_def, erule (1) step_stopped_well, erule (1) panic_stopped_well)

lemma nth_other: "i < length xs \<Longrightarrow> j < length xs \<Longrightarrow> i \<noteq> j \<Longrightarrow> xs ! j \<in># mset xs - {#xs ! i#}"
proof -
  assume ij: "i < length xs" "j < length xs" "i \<noteq> j"
  have "{#i, j#} \<subseteq># mset [0..<length xs]"
    using ij by (intro mset_subset_eqI) (auto simp: count_mset distinct_count_atmost_1)
  then have "image_mset ((!) xs) {#i, j#} \<subseteq># image_mset ((!) xs) (mset [0..<length xs])" by (rule image_mset_subseteq_mono)
  moreover have "image_mset ((!) xs) (mset [0..<length xs]) = mset xs" by (metis map_nth mset_map)
  ultimately have "{#xs ! i, xs ! j#} \<subseteq># mset xs" by simp
  then show ?thesis by (metis insert_subset_eq_iff mset_subset_eqD multi_member_last)
qed

lemma world_complete:
  assumes "world_runs W rt cfg maxResults (start cs st evs) m" and "main m = Finished" and "steady W rt cfg"
    and "int (length (validated (mem m))) < maxResults" and "unharmed W rt cfg c" and "c \<in> set cs"
  shows "c \<in> set (validated (mem m)) \<or>
    (\<exists>d \<in># mset cs - {#c#}. \<exists>h k. fingerprint rt cfg c = Some h \<and> fingerprint rt cfg d = Some k \<and> close_to h k)"
proof -
  have sw: "todo m = []" "list_all (\<lambda>t. snd t = Exited) (threads m)"
    using world_stopped_well [OF assms(1)] assms(2,4) by (auto simp: stopped_well_def)
  have cs: "mset cs = mset (map fst (threads m))" using world_selection [OF assms(1)] sw(1) by (simp add: started_def)
  then have "c \<in> set (map fst (threads m))" using assms(6) mset_eq_setD by blast
  then obtain i where i: "i < length (threads m)" "fst (threads m ! i) = c" by (auto simp: in_set_conv_nth)
  then have "settled (snd (threads m ! i))" using sw(2) by (auto simp: list_all_length settled_def)
  with world_justified [OF assms(1,3)] i assms(4,5)
  have "c \<in> set (validated (mem m)) \<or> rivalled rt cfg (map fst (threads m)) i" by (auto simp: justified_def full_def)
  then show ?thesis
  proof
    assume "rivalled rt cfg (map fst (threads m)) i"
    then obtain j h k where j: "j < length (map fst (threads m))" "j \<noteq> i" "fingerprint rt cfg (map fst (threads m) ! i) = Some h"
        "fingerprint rt cfg (map fst (threads m) ! j) = Some k" "close_to h k"
      by (auto simp: rivalled_def)
    then show ?thesis
      using nth_other [of i "map fst (threads m)" j] i unfolding cs
      by (intro disjI2 bexI [of _ "map fst (threads m) ! j"]) auto
  qed simp
qed

end
