(* ===== verification/Schedule_Properties.thy ===== *)
theory Schedule_Properties
  imports Deadline Gather Pipeline_Audit Pipeline_Isolation Examples
begin

text \<open>
  Properties of the validation pipeline as a concurrent program: the sequential loop as its
  specification, and what holds when the network and the vision model change while it runs,
  injected code panics and the caller's deadline expires.
\<close>

section \<open>Witnesses\<close>

text \<open>The small network of the examples at all times, and the network after the deadline.\<close>

definition ex_moment :: moment where
  "ex_moment = moment_of ex_runtime ex_config ex_classifier ex_transport"

definition ex_dead :: moment where
  "ex_dead = \<lparr>on_default = (\<lambda>req. Inl ''context deadline exceeded''), on_http = (\<lambda>req. Inl ''context deadline exceeded''),
     on_stealth = (\<lambda>req. Inl ''context deadline exceeded''), on_model = ex_classifier,
     on_provider = (\<lambda>i query opts. Inl ''context deadline exceeded''), may_panic = UNIV\<rparr>"

lemma ex_dead_expired: "expired ex_dead"
  by (simp add: expired_def ex_dead_def)

lemma ex_world: "world_runs {ex_moment} ex_runtime ex_config n = runs ex_runtime ex_config n"
  unfolding ex_moment_def by (rule constant_world)

lemma ex_one_started:
  "world_step {ex_moment} ex_runtime ex_config 5 (start ex_cands () [])
     ((start ex_cands () [])\<lparr>todo := tl ex_cands, threads := [(hd ex_cands, AtSemaphore)]\<rparr>)"
  using machine_step.spawn [of "start ex_cands () []" "hd ex_cands" "tl ex_cands" 5 ex_runtime ex_config]
  by (simp add: world_step_def ex_moment_def fresh_def ex_cands_def)

lemma ex_finished:
  "\<exists>m. world_runs {ex_moment} ex_runtime ex_config 5 (start ex_cands () []) m \<and> ex_safe \<in> set (validated (mem m))"
proof -
  obtain m where "runs ex_runtime ex_config 5 (start ex_cands () []) m"
      "mem m = validate_seq ex_runtime ex_config 5 ex_cands (fresh () [])"
    using validate_seq_possible [of ex_runtime ex_config ex_cands 5 "()" "[]"] by (auto simp: validateCandidates_def)
  then show ?thesis unfolding ex_world by (intro exI [of _ m]) (simp add: ex_seq ex_safe_def)
qed

section \<open>The sequential loop as specification\<close>

text \<open>
  C3: without a cache the goroutines implement the sequential loop: whatever a call returns under
  any interleaving is what validating the same candidates one after the other, in some order,
  returns; and the loop in the given order is one of the interleavings.
\<close>

theorem concurrent_refines_sequential:
  assumes "validateCandidates rt cfg cs n st evs sh" and "cfg_Cache cfg = None"
  shows "(\<exists>ds. mset ds = mset cs \<and> validated (validate_seq rt cfg n ds (fresh st evs)) = validated sh)
    \<and> validateCandidates rt cfg cs n st evs (validate_seq rt cfg n cs (fresh st evs))"
  using assms linearized [of rt cfg n cs st evs _ st evs] validate_seq_possible by (auto simp: validateCandidates_def)

lemma concurrent_refines_sequential_witness:
  "\<exists>ds. mset ds = {#ex_safe, ex_unknown#} \<and>
     validated (validate_seq ex_runtime (defaults ex_runtime ex_two_config) 5 ds (fresh () [])) = [ex_unknown, ex_safe]"
proof -
  have "cfg_Cache (defaults ex_runtime ex_two_config) = None" by (simp add: defaults_def ex_two_config_def ex_config_def)
  from concurrent_refines_sequential
      [OF overtaking_possible [of 5 ex_runtime "defaults ex_runtime ex_two_config" ex_safe ex_unknown "()" "[]"] this]
  show ?thesis unfolding ex_swapped by simp
qed

text \<open>
  C12: the results of a call, validated again one after the other, are all accepted again, in the
  same order.
\<close>

theorem results_revalidate:
  assumes "validateCandidates rt cfg cs n st evs sh" and "cfg_Cache cfg = None"
  shows "validated (validate_seq rt cfg n (validated sh) (fresh st' evs')) = validated sh"
  using assms results_replayed [of rt cfg n cs st evs _ st' evs'] by (auto simp: validateCandidates_def)

lemma results_revalidate_witness:
  "validated (validate_seq ex_runtime ex_config 5 [ex_cand ''http://a/1.png'' LicenseSafe, ex_cand ''http://a/3.jpg'' LicenseSafe]
     (fresh () [])) = [ex_cand ''http://a/1.png'' LicenseSafe, ex_cand ''http://a/3.jpg'' LicenseSafe]"
  using results_revalidate [OF validate_seq_possible, of ex_config ex_runtime 5 ex_cands "()" "[]" "()" "[]"]
  unfolding ex_seq by (simp add: ex_config_def)

section \<open>Provider goroutines\<close>

text \<open>
  C14: what the goroutines of the providers gather, however they interleave, is exactly what their
  answers give in some order of arrival, each provider once and failing ones left out; and every
  order of arrival is possible.
\<close>

theorem provider_goroutines:
  "gathered providers query opts cs \<longleftrightarrow>
     (\<exists>arrived. mset arrived = mset providers \<and> cs = concat (map (\<lambda>p. case prov_Search p query opts of Inl _ \<Rightarrow> [] | Inr rs \<Rightarrow> rs) arrived))"
  unfolding gathered_iff gatherCandidates_flat ..

section \<open>A changing world\<close>

text \<open>
  C6: the pipeline terminates under every scheduler, however the network and the model change
  meanwhile and whichever calls into injected code panic: a run has at most thirteen steps per candidate and two more, and from every state it
  can reach the call can return.
\<close>

theorem changing_world_terminates:
  assumes "(world_step W rt cfg n ^^ k) (start cs st evs) m" and "W \<noteq> {}"
  shows "k \<le> 13 * length cs + 2 \<and> (\<exists>m'. world_runs W rt cfg n m m' \<and> main m' = Finished)"
proof
  show "k \<le> 13 * length cs + 2" using world_relpow_fuel [OF assms(1)] by (simp add: fuel_left_def)
  have "world_runs W rt cfg n (start cs st evs) m" using relpowp_imp_rtranclp [OF assms(1)] by (simp add: world_runs_def)
  then show "\<exists>m'. world_runs W rt cfg n m m' \<and> main m' = Finished" by (rule world_finishes [OF assms(2) _ order_refl])
qed

lemma changing_world_terminates_witness:
  "\<exists>m'. world_runs {ex_moment} ex_runtime ex_config 5
     ((start ex_cands () [])\<lparr>todo := tl ex_cands, threads := [(hd ex_cands, AtSemaphore)]\<rparr>) m' \<and> main m' = Finished"
  by (rule changing_world_terminates [THEN conjunct2, of 1 _ ex_runtime ex_config 5 ex_cands "()" "[]"])
     (simp_all add: eq_OO ex_one_started)

text \<open>
  C7: in every state of every run, whatever the network and the model do meanwhile and whichever
  calls into injected code panic: the results are within the limit and a selection of the
  candidates, at most three goroutines hold a slot, the pictures the filter remembers are pairwise
  different, and there were at most two callbacks per candidate, its decision and its panic.
\<close>

theorem changing_world_guarantees:
  assumes "world_runs W rt cfg n (start cs st evs) m"
  shows "int (length (validated (mem m))) \<le> max 0 n \<and> mset (validated (mem m)) \<subseteq># mset cs
    \<and> length (filter (\<lambda>(c, ph). ph \<noteq> AtSemaphore \<and> ph \<noteq> Exited) (threads m)) \<le> 3
    \<and> sorted_wrt (\<lambda>a b. \<not> close_to a b) (hashes (mem m)) \<and> length (calls (mem m)) \<le> length evs + 2 * length cs"
proof (intro conjI)
  show "int (length (validated (mem m))) \<le> max 0 n"
    using world_bounded.world_reached [OF _ _ assms] by (simp add: fresh_def list_all_iff)
  show "mset (validated (mem m)) \<subseteq># mset cs"
    using world_selection [OF assms] settled_started [of m]
    by (metis mset_subset_eq_add_left subset_mset.order_trans)
  show "length (filter (\<lambda>(c, ph). ph \<noteq> AtSemaphore \<and> ph \<noteq> Exited) (threads m)) \<le> 3"
    using world_slots [OF assms] by (simp add: holders_def holding_def validationSemaphore_def case_prod_unfold)
  show "sorted_wrt (\<lambda>a b. \<not> close_to a b) (hashes (mem m))"
    using world_separated.world_reached [OF _ _ assms] by (simp add: fresh_def list_all_iff)
  show "length (calls (mem m)) \<le> length evs + 2 * length cs"
    by (rule world_callbacks [OF assms])
qed

lemma changing_world_guarantees_witness:
  "\<exists>m :: unit machine. ex_safe \<in> set (validated (mem m)) \<and> mset (validated (mem m)) \<subseteq># mset ex_cands"
proof -
  obtain m where m: "world_runs {ex_moment} ex_runtime ex_config 5 (start ex_cands () []) m" "ex_safe \<in> set (validated (mem m))"
    using ex_finished by (elim exE conjE)
  from changing_world_guarantees [OF m(1)] m(2) show ?thesis by (intro exI [of _ m]) simp
qed

text \<open>
  C4: a result was probed successfully at some moment of the run, and the verdict on the bytes
  downloaded at some moment is not Blocked: no Blocked class of its provider, no blocked domain,
  no stock agency in its metadata. Unless the verdict is Safe, the reverse search did not report
  it at some moment and, without a cache, the model accepted these bytes.
\<close>

theorem changing_world_checked:
  assumes "world_runs W rt cfg n (start cs st evs) m" and "c \<in> set (validated (mem m))"
  shows "approved_in W rt cfg c \<and>
    (\<exists>w \<in> W. \<exists>data mimeType img. downloadForValidation (rt_at w rt) (cfg_at w cfg) (ImgURL c) = Returns (data, mimeType, img) \<and>
       (ImgURL c \<noteq> '''' \<longrightarrow> License c \<noteq> LicenseBlocked) \<and> ext_license (rt_unicode rt) cfg c \<noteq> LicenseBlocked
       \<and> \<not> IsStockByMetadata (rt_unicode rt) (ExtractImageMetadata (rt_imagemeta rt) data))"
proof
  show a: "approved_in W rt cfg c"
    using world_sound.world_reached [OF _ _ assms(1)] assms(2) by (simp add: fresh_def list_all_iff)
  then obtain data mimeType where d: "fetched_in W rt cfg c data mimeType" "verdict_on rt cfg c data \<noteq> LicenseBlocked"
    by (auto simp: approved_in_def cleared_in_def)
  then show "\<exists>w \<in> W. \<exists>data mimeType img. downloadForValidation (rt_at w rt) (cfg_at w cfg) (ImgURL c) = Returns (data, mimeType, img) \<and>
       (ImgURL c \<noteq> '''' \<longrightarrow> License c \<noteq> LicenseBlocked) \<and> ext_license (rt_unicode rt) cfg c \<noteq> LicenseBlocked
       \<and> \<not> IsStockByMetadata (rt_unicode rt) (ExtractImageMetadata (rt_imagemeta rt) data)"
    unfolding fetched_in_def verdict_on_def AssessLicense_Blocked_iff by blast
qed

lemma changing_world_checked_witness: "approved_in {ex_moment} ex_runtime ex_config ex_safe"
proof -
  obtain m where m: "world_runs {ex_moment} ex_runtime ex_config 5 (start ex_cands () []) m" "ex_safe \<in> set (validated (mem m))"
    using ex_finished by (elim exE conjE)
  from changing_world_checked [OF m] show ?thesis by (rule conjunct1)
qed

text \<open>
  C10: once the deadline has expired, so that every request fails, no candidate is accepted whose
  probe had not succeeded before: the results still added are among the candidates past their
  probe, at most three of them.
\<close>

theorem deadline_stops_accepting:
  assumes "world_runs W rt cfg n (start cs st evs) m" and "world_runs (Collect expired) rt cfg n m m'"
  shows "mset (validated (mem m')) \<subseteq>#
      mset (validated (mem m)) + mset (map fst (filter (\<lambda>(c, ph). ph \<notin> {AtSemaphore, AtProbe, AtRelease, Exited}) (threads m)))
    \<and> length (validated (mem m')) \<le> length (validated (mem m)) + 3"
proof -
  let ?l = "map fst (filter (\<lambda>(c, ph). ph \<notin> {AtSemaphore, AtProbe, AtRelease, Exited}) (threads m))"
  have l: "?l = map fst (filter (\<lambda>t. probe_passed (snd t)) (threads m))"
    by (intro arg_cong [of _ _ "map fst"] filter_cong) (auto simp: probe_passed_def working_def)
  have "mset (validated (mem m')) \<subseteq># mset (validated (mem m)) + mset ?l"
    using expired_delivers [OF assms(2)] unfolding l deliverable_def .
  moreover from size_mset_mono [OF this] have "length (validated (mem m')) \<le> length (validated (mem m)) + length ?l"
    by (simp only: size_union size_mset)
  moreover have "length ?l \<le> 3" using probe_passed_few [OF assms(1)] unfolding l by (simp add: validationSemaphore_def)
  ultimately show ?thesis by simp
qed

lemma deadline_stops_accepting_witness:
  "\<exists>m'. world_runs (Collect expired) ex_runtime ex_config 5 (start ex_cands () []) m' \<and> main m' = Finished \<and> validated (mem m') = []"
proof -
  have s: "world_runs (Collect expired) ex_runtime ex_config 5 (start ex_cands () []) (start ex_cands () [])"
    by (simp add: world_runs_def)
  obtain m' where m': "world_runs (Collect expired) ex_runtime ex_config 5 (start ex_cands () []) m'" "main m' = Finished"
    using world_finishes [OF _ s order_refl] ex_dead_expired by (auto simp del: split_paired_Ex)
  from deadline_stops_accepting [OF s m'(1)] have "validated (mem m') = []" by (simp add: fresh_def)
  with m' show ?thesis by blast
qed

section \<open>Callbacks\<close>



section \<open>Panics\<close>

text \<open>
  C5: a panic costs only its own candidate: when injected code may panic on some candidates, at any
  call and any number of times, and a call without a cache returns fewer images than asked for,
  every other candidate that passes the checks and the model is among them, unless its picture
  resembles that of another of the candidates given.
\<close>

theorem panics_isolated:
  assumes "world_runs W rt cfg n (start cs st evs) m" and "main m = Finished" and "int (length (validated (mem m))) < n"
    and "\<forall>w \<in> W. rt_at w rt = rt \<and> cfg_at w cfg = cfg \<and> c \<notin> may_panic w"
    and "c \<in> set cs" and "cfg_Cache cfg = None" and "accepts rt cfg c"
  shows "c \<in> set (validated (mem m)) \<or>
    (\<exists>d \<in># mset cs - {#c#}. \<exists>h k. fingerprint rt cfg c = Some h \<and> fingerprint rt cfg d = Some k \<and> close_to h k)"
proof -
  have "steady W rt cfg" "unharmed W rt cfg c" using assms(4,6,7) by (auto simp: steady_def unharmed_def certain_def)
  then show ?thesis using world_complete [OF assms(1,2) _ assms(3) _ assms(5)] by blast
qed

text \<open>
  The network of the examples, where one candidate may make injected code panic. The other one
  decodes to a picture of its own.
\<close>

definition ex_shaky :: moment where
  "ex_shaky = ex_moment\<lparr>may_panic := {ex_safe}\<rparr>"

lemma ex_shaky_steady: "\<forall>w \<in> {ex_shaky}. rt_at w ex_runtime = ex_runtime \<and> cfg_at w ex_config = ex_config \<and> ex_twin \<notin> may_panic w"
proof -
  have m: "rt_at ex_moment ex_runtime = ex_runtime" "cfg_at ex_moment ex_config = ex_config"
    unfolding ex_moment_def by (rule moment_of_at)+
  have "rt_at ex_shaky ex_runtime = rt_at ex_moment ex_runtime" "cfg_at ex_shaky ex_config = cfg_at ex_moment ex_config"
    by (simp_all add: ex_shaky_def rt_at_def cfg_at_def providers_at_def)
  moreover have "ex_twin \<notin> may_panic ex_shaky" by (simp add: ex_shaky_def ex_safe_def ex_twin_def ex_cand_def)
  ultimately show ?thesis using m by simp
qed

lemma ex_twin_pictures:
  "fingerprint ex_runtime ex_config ex_twin \<noteq> None" "fingerprint ex_runtime ex_config ex_safe = None" "accepts ex_runtime ex_config ex_twin"
  by code_simp+

lemma panics_isolated_witness:
  "\<exists>m. world_runs {ex_shaky} ex_runtime ex_config 7 (start [ex_safe, ex_twin] () []) m \<and> main m = Finished
     \<and> fingerprint ex_runtime ex_config ex_twin \<noteq> None \<and> ex_twin \<in> set (validated (mem m))"
proof -
  let ?s = "start [ex_safe, ex_twin] () []"
  have s: "world_runs {ex_shaky} ex_runtime ex_config 7 ?s ?s" by (simp add: world_runs_def)
  obtain m where m: "world_runs {ex_shaky} ex_runtime ex_config 7 ?s m" "main m = Finished"
    using world_finishes [OF _ s order_refl] by (auto simp del: split_paired_Ex)
  have "mset (validated (mem m)) \<subseteq># mset [ex_safe, ex_twin]"
    using world_selection [OF m(1)] settled_started [of m] by (metis mset_subset_eq_add_left subset_mset.order_trans)
  from size_mset_mono [OF this] have l: "int (length (validated (mem m))) < 7" by simp
  have c: "ex_twin \<in> set [ex_safe, ex_twin]" "cfg_Cache ex_config = None" by (simp_all add: ex_config_def)
  from panics_isolated [OF m l ex_shaky_steady c ex_twin_pictures(3)] ex_twin_pictures(1,2)
  have "ex_twin \<in> set (validated (mem m))" by auto
  with m ex_twin_pictures(1) show ?thesis by blast
qed

section \<open>The deadline of a search\<close>

text \<open>
  C9: every image that a search with a timeout of its own returns was delivered by a configured
  provider before the validation started and probed successfully before that much time had passed
  since the call, however network and providers behave meanwhile; a search whose providers take
  until then returns nothing.
\<close>

theorem search_within_deadline:
  assumes "SearchWithin net rt cfg query n opts st t0 sh" and "0 < Timeout opts"
  shows "(\<forall>c \<in> set (validated sh).
      (\<exists>t i rs. t \<le> t0 \<and> i < length (resolveProviders rt (defaults rt cfg)) \<and> c \<in> set rs \<and>
         answer_at (with_deadline (Timeout opts) net) rt (defaults rt cfg) query opts (t, i) = Inr rs)
      \<and> (\<exists>t. t0 \<le> t \<and> t < Timeout opts \<and>
           ValidateImageURL (rt_at (net t) rt) (cfg_at (net t) (defaults rt cfg)) (ImgURL c)))
    \<and> (Timeout opts \<le> t0 \<longrightarrow> validated sh = [])"
proof -
  have to: "search_timeout opts = Timeout opts" using assms(2) by (simp add: search_timeout_def)
  let ?ctx = "with_deadline (Timeout opts) net"
  have p: "(\<exists>t i rs. t \<le> t0 \<and> i < length (resolveProviders rt (defaults rt cfg)) \<and> c \<in> set rs \<and>
         answer_at ?ctx rt (defaults rt cfg) query opts (t, i) = Inr rs)
      \<and> (\<exists>t. t0 \<le> t \<and> t < Timeout opts \<and>
           ValidateImageURL (rt_at (net t) rt) (cfg_at (net t) (defaults rt cfg)) (ImgURL c))"
    if c: "c \<in> set (validated sh)" for c
  proof -
    obtain arrived t m where a: "mset (map snd arrived) = mset [0..<length (resolveProviders rt (defaults rt cfg))]"
        "list_all (\<lambda>a. 0 \<le> fst a \<and> fst a \<le> t0) arrived"
        "timed_runs ?ctx rt (defaults rt cfg) n
           (t0, start (safe_first (gather_timed ?ctx rt (defaults rt cfg) query opts arrived)) st (search_events (defaults rt cfg))) (t, m)"
        "mem m = sh"
      using assms(1) c by (auto simp: SearchWithin_def to Let_def fresh_def split: if_splits)
    note pa = probed_alive [OF a(3), of c, unfolded a(4), OF c]
    from pa(1) have "c \<in> set (gather_timed ?ctx rt (defaults rt cfg) query opts arrived)" by (simp add: safe_first_def)
    then obtain b rs where b: "b \<in> set arrived" "answer_at ?ctx rt (defaults rt cfg) query opts b = Inr rs" "c \<in> set rs"
      by (rule gather_timed_from)
    have "snd b \<in> set (map snd arrived)" using b(1) by simp
    then have "snd b < length (resolveProviders rt (defaults rt cfg))" using mset_eq_setD [OF a(1)] by simp
    moreover have "fst b \<le> t0" using a(2) b(1) by (auto simp: list_all_iff)
    ultimately have "\<exists>t i rs. t \<le> t0 \<and> i < length (resolveProviders rt (defaults rt cfg)) \<and> c \<in> set rs \<and>
         answer_at ?ctx rt (defaults rt cfg) query opts (t, i) = Inr rs"
      using b by (intro exI [of _ "fst b"] exI [of _ "snd b"] exI [of _ rs]) simp
    with pa(2) show ?thesis by blast
  qed
  moreover have "validated sh = []" if "Timeout opts \<le> t0"
    using p that by (cases "validated sh") fastforce+
  ultimately show ?thesis by blast
qed

definition ex_timed :: SearchOpts where
  "ex_timed = zero_SearchOpts\<lparr>Timeout := 10 * second\<rparr>"

lemma ex_timed_search: "validated (search_seq ex_runtime ex_search_config ''cat'' 5 ex_timed ()) =
    [ex_cand ''http://a/1.png'' LicenseSafe, ex_cand ''http://a/3.jpg'' LicenseSafe]"
  by code_simp

lemma search_within_deadline_witness:
  "\<exists>t. 7 \<le> t \<and> t < 10 * second \<and>
     ValidateImageURL (rt_at (moment_of ex_runtime (defaults ex_runtime ex_search_config) ex_classifier ex_transport) ex_runtime)
       (cfg_at (moment_of ex_runtime (defaults ex_runtime ex_search_config) ex_classifier ex_transport) (defaults ex_runtime ex_search_config))
       ''http://a/3.jpg''"
proof -
  let ?sh = "search_seq ex_runtime ex_search_config ''cat'' 5 ex_timed ()"
  have t: "Timeout ex_timed = 10 * second" "0 < Timeout ex_timed" "(7::int) < search_timeout ex_timed"
    by (simp_all add: ex_timed_def search_timeout_def second_def)
  have 2: "ex_cand ''http://a/3.jpg'' LicenseSafe \<in> set (validated ?sh)" by (simp add: ex_timed_search)
  from search_within_deadline [OF SearchWithin_untimed [OF search_seq_possible _ t(3)] t(2), THEN conjunct1, rule_format, OF _ 2]
  show ?thesis by (simp add: ex_cand_def t(1))
qed

text \<open>Without one the code uses thirty seconds.\<close>

lemma default_timeout: "Timeout opts \<le> 0 \<Longrightarrow> search_timeout opts = 30 * 1000000000"
  by (simp add: search_timeout_def searchTimeout_def second_def)

section \<open>Failing downloads\<close>

text \<open>
  C13: a picture that was probed but cannot be downloaded is accepted on its licence alone: unless a
  domain signal blocks it or the reverse search reports it, and as long as there is room in the
  results and the cache, if there is one, holds no class for it, it is returned, whatever the vision
  model is and without a trace in the dedup filter.
\<close>

theorem undownloadable_accepted:
  assumes "ValidateImageURL rt cfg (ImgURL c)" and "\<not> fst (isBlockedByExtraDomains rt cfg c)"
    and "Download rt cfg (ImgURL c) zero_DownloadOpts = None" and "verdict_on rt cfg c [] \<noteq> LicenseBlocked"
    and "\<not> IsStock (ReverseCheck rt cfg (ImgURL c))" and "int (length (validated sh)) < n"
    and "\<forall>cache. cfg_Cache cfg = Some cache \<longrightarrow>
      fst (cache_Get cache (store sh) (cache_Key cache ''vision_cls_v2'' (ImgURL c))) = None"
  shows "validated (validateOne rt cfg c n sh) = validated sh @ [c] \<and> hashes (validateOne rt cfg c n sh) = hashes sh"
proof -
  have d: "downloadForValidation rt cfg (ImgURL c) = Returns ([], '''', None)"
    using assms(3) by (simp add: downloadForValidation_def)
  have "classifyFromData rt (defaults rt cfg) (ImgURL c) [] '''' = ([], Returns no_result)"
    by (auto simp: classifyFromData_def split: option.split)
  then have "snd (classifyPredownloaded rt cfg (ImgURL c) [] '''' (store sh)) = ([], Returns no_result)"
    using assms(7) by (cases "cfg_Classifier cfg"; cases "cfg_Cache cfg")
      (auto simp: classifyPredownloaded_cases cached_run_def split: prod.splits option.splits)
  then obtain st where "classifyPredownloaded rt cfg (ImgURL c) [] '''' (store sh) = (st, [], Returns no_result)"
    by (metis prod.collapse)
  then have "validated (validate_data rt cfg c n [] '''' sh) = validated sh @ [c] \<and> hashes (validate_data rt cfg c n [] '''' sh) = hashes sh"
    using assms(4-6)
    by (cases "verdict_on rt cfg c []")
       (auto simp: validate_data_def assessAndAccept_def validated_append acceptable_class_def no_result_def)
  moreover have "validateOne rt cfg c n sh = validate_data rt cfg c n [] '''' sh"
    using assms(1,2) d by (auto simp: validateOne_def split: prod.split bool.split)
  ultimately show ?thesis by simp
qed

text \<open>A network whose images break off before their end.\<close>

definition ex_broken :: runtime where
  "ex_broken = ex_runtime\<lparr>rt_DefaultClient :=
     \<lparr>Transport = (\<lambda>req. map_sum id (\<lambda>resp. resp\<lparr>BodyFails := True\<rparr>) (ex_transport req)), RedirectLimit = 10\<rparr>\<rparr>"

lemma ex_broken_checks:
  "ValidateImageURL ex_broken ex_config (ImgURL ex_unknown)" "\<not> fst (isBlockedByExtraDomains ex_broken ex_config ex_unknown)"
  "Download ex_broken ex_config (ImgURL ex_unknown) zero_DownloadOpts = None" "verdict_on ex_broken ex_config ex_unknown [] \<noteq> LicenseBlocked"
  "\<not> IsStock (ReverseCheck ex_broken ex_config (ImgURL ex_unknown))"
  by code_simp+

lemma undownloadable_accepted_witness:
  "validated (validateOne ex_broken ex_config ex_unknown 5 (fresh () [])) = [ex_unknown]"
  using undownloadable_accepted [OF ex_broken_checks, of "fresh () []" 5] by (simp add: fresh_def ex_config_def)

end
