(* ===== verification/Spec2Isabelle.thy ===== *)
theory Spec2Isabelle
  imports Licensing_Properties Fetching_Properties Provider_Properties Schedule_Properties
begin

text \<open>
  Verification of go-imagefy, a Go library that finds images for articles and keeps the ones it
  may publish. A call to an entry point (search.go, find.go) queries search providers in parallel
  (provider.go, openverse.go, pexels.go, provider_ddg.go, provider_og.go, provider_content.go,
  provider_native.go, combined by orchestrator.go), sorts the candidates by licence class
  (license.go) and hands them to the validation pipeline (validate_pipeline.go), which runs one
  goroutine per candidate, three at a time: it probes the URL (validate.go), downloads the image
  (download.go), drops visual duplicates (dedup.go), assesses the licence from domains and
  metadata (assessment.go, metadata.go, metadata_tags.go, cclicense.go), asks a reverse search
  service (reverse.go) and a vision model behind a cache (classify.go, classify_types.go), until
  enough images are accepted.

  \<^bold>\<open>The theories.\<close> Each opens with what it holds; names are those of the source, a method
  \<^verbatim>\<open>T.M\<close> is \<open>t_M\<close> or \<open>M\<close>.

  \<^item> \<open>Prelude\<close>: types every component shares (Go strings and byte slices are byte lists, a value
    with an error is a sum), fact collections, lemmas on lists and options.
  \<^item> \<open>Go_Strings\<close>, \<open>Go_Url\<close>, \<open>Go_Regexp\<close>, \<open>Go_Html\<close>, \<open>Go_Strconv\<close>, \<open>Go_Http\<close>, \<open>Go_Json\<close>: what the
    program uses of the standard library. UTF-8 decoding with its error rune, \<^verbatim>\<open>url.Parse\<close>,
    leftmost-first regular expression matching with captures, character references, the
    correctly rounded \<^verbatim>\<open>ParseFloat\<close>, redirects and bounded reads, decoding into structs.
  \<^item> \<open>License\<close>, \<open>CC_License\<close>, \<open>Metadata\<close>, \<open>Assessment\<close>: licensing. The locales \<open>substring_matcher\<close> and
    \<open>verdict\<close> state the contracts of the list tests and of the resolution of signals.
  \<^item> \<open>Helpers\<close>, \<open>Query\<close>, \<open>Config\<close>, \<open>Classify_Types\<close>: og:image, data URLs, queries, the configuration
    and the parser of the model's answers.
  \<^item> \<open>Download\<close>, \<open>Classify\<close>, \<open>Reverse\<close>, \<open>Dedup\<close>: the stages with effects. The cache is a pair of
    functions on a store that is threaded through; callbacks are the list of events made. The
    locales \<open>image_fetcher\<close>, \<open>hamming\<close> and \<open>near_filter\<close> are their contracts.
  \<^item> \<open>Providers\<close>, \<open>Orchestrator\<close>, \<open>Content\<close>: the providers, each an interpretation of the locale
    \<open>search_provider\<close> or \<open>domain_provider\<close>; a chain of them again is one (\<open>provider_chain\<close>).
  \<^item> \<open>Pipeline\<close>: \<^verbatim>\<open>validateOne\<close> as a function on the shared state (validated slice, dedup hashes,
    cache store, callbacks). \<open>Pipeline_Machine\<close>: the same code cut at its accesses to shared state
    and interleaved by an inductive step relation, with the spawning loop, the semaphore and the
    wait group; every safety property is an interpretation of the locale \<open>thread_invariant\<close>.
    \<open>Pipeline_Runs\<close>: what finished runs return, and that the sequential loop is one of them.
    \<open>Pipeline_Replay\<close>: the pictures behind the results.
    \<open>Pipeline_Linear\<close>: every run against the sequential loop. \<open>Pipeline_Panic\<close>: panics of injected
    code at any call, caught by the deferred function. \<open>Pipeline_World\<close>: the machine when such panics
    happen and the network and the model change between its steps (locale \<open>world_invariant\<close>), and
    after a deadline. \<open>Pipeline_Audit\<close>: the callbacks made there, counted by kind (locale \<open>ledger\<close>).
    \<open>Pipeline_Isolation\<close>: a panic costs only its own candidate, because every hash of the filter
    belongs to a goroutine that passed it.
  \<^item> \<open>Search\<close>: the entry points, relations between arguments and possible final states, because
    the goroutines may interleave; \<open>search_seq\<close> and \<open>find_seq\<close> compute one outcome. \<open>Gather\<close>:
    the goroutines of the providers. \<open>Deadline\<close>: a search with its timeout, where the
    providers too answer according to the time.
  \<^item> \<open>Examples\<close>: closed instances of the parameters, for the witnesses.
  \<^item> \<open>Licensing_Properties\<close>, \<open>Fetching_Properties\<close>, \<open>Provider_Properties\<close>, \<open>Schedule_Properties\<close>: the
    properties of one component or group. This theory has those of the entry points and what a
    call of the pipeline returns.

  \<^bold>\<open>What is shown.\<close> Under every interleaving: results are bounded, a selection of the candidates,
  never classified as stock, each passed all checks; the duplicates filter keeps its invariant; at
  most three goroutines work; there is no deadlock (\<open>progress\<close>) and every run ends; no two results
  show the same picture. Without a cache every outcome is one of the sequential loop on some order
  of the candidates. Safety, the bounds and termination also hold while the network and the model
  change and injected code panics; each candidate then causes at most one classification callback
  and one report of a panic; a qualifying candidate is lost only to its own panic or to another
  candidate with a similar picture; a search returns only what a provider delivered and it probed before its deadline. Providers keep their contract and
  their requests carry the query unchanged. Licence verdicts are characterised by their evidence,
  the parsers by round trips, the optimised searches by their specifications, downloads and
  probes by bounds, the error paths by what they degrade to.

  \<^bold>\<open>Termination and bounds.\<close> No definition needs fuel. The regular expression matcher, the redirect
  loop and the word search terminate by measures on the text and the redirect limit. The machine has
  no bound built in: the measure \<open>fuel_left\<close> proves that a run takes at most thirteen steps per
  candidate and two more. Sizes are as in the source; 64-bit wrap-around is kept where digits are
  accumulated (\<open>parse_digits\<close>) and in the hashes.

  \<^bold>\<open>Parameters.\<close> The record \<open>runtime\<close> holds what the program calls and does not contain: the
  Unicode tables beyond ASCII, the table of named character references, image decoders, the resizing
  to 9 by 8 grey values, the metadata reader, the default client. Transports, the cache, the
  classifier and the engines are the caller's. Nothing is assumed of them except where a property
  names it.

  \<^bold>\<open>Not modelled.\<close> Log output. How the world changes during one stage or one provider's call: each sees
  the world of one moment; cancellation by the caller is an expired context. Panics of providers and
  of \<^verbatim>\<open>OnPanic\<close>, which the program does not recover from. The codecs and the scrapers of the vendored engines, the
  hashes of goimagehash that the program does not use. Data races:
  the accesses are atomic steps because the code takes its mutexes around them, the configuration's
  defaults are filled in before the goroutines start.
\<close>

section \<open>What the entry points return\<close>

lemma searched:
  assumes "SearchImagesWithOpts rt cfg query maxResults opts st sh" and "validated sh \<noteq> []"
  obtains arrived evs where "mset arrived = mset (resolveProviders rt (defaults rt cfg))"
    "validateCandidates rt (defaults rt cfg) (safe_first (gatherCandidates arrived query opts)) maxResults st evs sh"
  using assms by (auto simp: SearchImagesWithOpts_def Let_def fresh_def split: if_splits)

lemma validated_from:
  assumes "validateCandidates rt cfg cs maxResults st evs sh" and "c \<in> set (validated sh)"
  shows "c \<in> set cs \<and> endorsed rt cfg c"
  using validated_returned(2,3) [OF assms(1)] assms(2) mset_subset_eqD by fastforce

lemma validated_apart:
  "validateCandidates rt cfg cs maxResults st evs sh \<Longrightarrow> sorted_wrt (\<lambda>a b. \<not> close_to a b) (prints rt cfg (validated sh))"
  using runs_distinct_pictures by (auto simp: validateCandidates_def)

lemma gathered_from:
  assumes "c \<in> set (gatherCandidates arrived query opts)"
  shows "\<exists>p \<in> set arrived. \<exists>cs. prov_Search p query opts = Inr cs \<and> c \<in> set cs"
proof -
  from assms obtain p where p: "p \<in> set arrived" "c \<in> (case prov_Search p query opts of Inl _ \<Rightarrow> {} | Inr cs \<Rightarrow> set cs)"
    unfolding gather_set by blast
  then show ?thesis by (cases "prov_Search p query opts") auto
qed

lemma search_origin:
  assumes "SearchImagesWithOpts rt cfg query maxResults opts st sh" and "c \<in> set (validated sh)"
  shows "endorsed rt (defaults rt cfg) c"
    and "\<exists>p \<in> set (resolveProviders rt (defaults rt cfg)). \<exists>cs. prov_Search p query opts = Inr cs \<and> c \<in> set cs"
    and "sorted_wrt (\<lambda>a b. \<not> close_to a b) (prints rt (defaults rt cfg) (validated sh))"
proof -
  from assms(2) have "validated sh \<noteq> []" by auto
  with assms(1) obtain arrived evs where a: "mset arrived = mset (resolveProviders rt (defaults rt cfg))"
    "validateCandidates rt (defaults rt cfg) (safe_first (gatherCandidates arrived query opts)) maxResults st evs sh"
    by (rule searched)
  from validated_from [OF a(2) assms(2)] have c: "c \<in> set (gatherCandidates arrived query opts)" and
    "endorsed rt (defaults rt cfg) c" by (simp_all add: safe_first_def)
  then show "endorsed rt (defaults rt cfg) c" by simp
  show "\<exists>p \<in> set (resolveProviders rt (defaults rt cfg)). \<exists>cs. prov_Search p query opts = Inr cs \<and> c \<in> set cs"
    using gathered_from [OF c] mset_eq_setD [OF a(1)] by simp
  show "sorted_wrt (\<lambda>a b. \<not> close_to a b) (prints rt (defaults rt cfg) (validated sh))" by (rule validated_apart [OF a(2)])
qed

text \<open>
  C1: whatever the interleaving, every image a search returns was found by one of the configured
  providers and passed every stage of the pipeline: the probe, the extra domains, the licence
  assessment with the metadata of the downloaded bytes and, unless that already says Safe, the
  reverse search and the vision model, whose class for these bytes, or the one the cache held
  for the URL, is acceptable; and the dedup stage: no two of the images returned have hashes
  closer than the threshold.
\<close>

theorem search_sound:
  assumes "SearchImagesWithOpts rt cfg query maxResults opts st sh" and "c \<in> set (validated sh)"
  shows "(\<exists>p \<in> set (resolveProviders rt (defaults rt cfg)). \<exists>cs. prov_Search p query opts = Inr cs \<and> c \<in> set cs)
    \<and> passes_checks rt (defaults rt cfg) c
    \<and> (verdict_on rt (defaults rt cfg) c (fst (downloaded rt (defaults rt cfg) c)) = LicenseSafe
       \<or> model_accepts rt (defaults rt cfg) c
       \<or> (\<exists>cache st' r. cfg_Cache cfg = Some cache \<and> acceptable_class r \<and>
            fst (cache_Get cache st' (cache_Key cache ''vision_cls_v2'' (ImgURL c))) = Some r))
    \<and> sorted_wrt (\<lambda>a b. \<not> close_to a b) (prints rt (defaults rt cfg) (validated sh))"
  using search_origin [OF assms] by (auto simp: endorsed_def vouched_def)

lemma search_sound_witness:
  "passes_checks ex_runtime (defaults ex_runtime ex_search_config) (ex_cand ''http://a/3.jpg'' LicenseSafe) \<and>
   (\<exists>p \<in> set (resolveProviders ex_runtime (defaults ex_runtime ex_search_config)).
      \<exists>cs. prov_Search p ''cat'' zero_SearchOpts = Inr cs \<and> ex_cand ''http://a/3.jpg'' LicenseSafe \<in> set cs)"
proof -
  have c: "ex_cand ''http://a/3.jpg'' LicenseSafe \<in> set (validated (search_seq ex_runtime ex_search_config ''cat'' 5 zero_SearchOpts ()))"
    by (simp add: ex_search)
  from search_sound [OF search_seq_possible c] show ?thesis by (elim conjE) (intro conjI)
qed

lemma results_in:
  assumes "SearchImagesWithOpts rt cfg query n opts st sh \<or> ValidateCandidates rt cfg cs n st sh \<or> FindImages rt cfg fo st sh"
    and "c \<in> set (validated sh)"
  shows "passes_checks rt (defaults rt cfg) c"
  using assms validated_from [of rt "defaults rt cfg" _ _ st _ sh c] endorsed_passes [of rt "defaults rt cfg" c]
  by (auto simp: SearchImagesWithOpts_def ValidateCandidates_def FindImages_def Let_def fresh_def split: if_splits)

text \<open>
  C2: no licensing signal is overruled by any entry point: a returned image with a URL has no Blocked class
  from its provider or caller, none from the configured domain lists, and no stock agency in the
  metadata of its bytes.
\<close>

theorem never_blocked:
  assumes "SearchImagesWithOpts rt cfg query n opts st sh \<or> ValidateCandidates rt cfg cs n st sh \<or> FindImages rt cfg fo st sh"
    and "c \<in> set (validated sh)" and "ImgURL c \<noteq> ''''"
  shows "License c \<noteq> LicenseBlocked
    \<and> (cfg_ExtraBlockedDomains cfg = [] \<or>
       CheckLicenseWith (rt_unicode rt) (ImgURL c) (Source c) (cfg_ExtraBlockedDomains cfg) (cfg_ExtraSafeDomains cfg) \<noteq> LicenseBlocked)
    \<and> \<not> IsStockByMetadata (rt_unicode rt) (ExtractImageMetadata (rt_imagemeta rt) (fst (downloaded rt (defaults rt cfg) c)))"
  using passes_not_blocked [OF results_in [OF assms(1,2)]] assms(3)
  by (auto simp: ext_license_def split: if_splits)

lemma never_blocked_witness: "License (ex_cand ''http://a/3.jpg'' LicenseSafe) \<noteq> LicenseBlocked"
proof (rule never_blocked [THEN conjunct1])
  show "SearchImagesWithOpts ex_runtime ex_search_config ''cat'' 5 zero_SearchOpts ()
        (search_seq ex_runtime ex_search_config ''cat'' 5 zero_SearchOpts ()) \<or>
      ValidateCandidates ex_runtime ex_search_config [] 5 () (search_seq ex_runtime ex_search_config ''cat'' 5 zero_SearchOpts ()) \<or>
      FindImages ex_runtime ex_search_config ex_find () (search_seq ex_runtime ex_search_config ''cat'' 5 zero_SearchOpts ())"
    by (rule disjI1) (rule search_seq_possible)
qed (simp_all add: ex_search, simp add: ex_cand_def)

text \<open>
  C16: with the provider the configuration defaults to, no search returns an image on a built-in
  stock site or found on a page of one.
\<close>

theorem default_search_avoids_stock_sites:
  assumes "cfg_Providers cfg = []" and "SearchImagesWithOpts rt cfg query n opts st sh" and "c \<in> set (validated sh)"
  shows "\<not> isBlockedWith (rt_unicode rt) (ImgURL c) [] \<and> \<not> isBlockedWith (rt_unicode rt) (Source c) []"
proof -
  from search_origin(2) [OF assms(2,3)] assms(1) obtain p cs where "searxng_Search rt p query opts = Inr cs" "c \<in> set cs"
    by (auto simp: resolveProviders_def searxng_provider_def split: if_splits)
  then show ?thesis by (rule searxng.not_on_blocked_site)
qed

lemma default_search_avoids_stock_sites_witness:
  "\<not> isBlockedWith (rt_unicode ex_searx_runtime) (ImgURL ex_searx_cand) [] \<and>
   \<not> isBlockedWith (rt_unicode ex_searx_runtime) (Source ex_searx_cand) []"
  by (rule default_search_avoids_stock_sites [OF _ search_seq_possible, of ex_searx_config ex_searx_cand ex_searx_runtime "''cat''" 5 zero_SearchOpts "()"])
     (simp_all add: ex_searx, simp add: ex_searx_config_def ex_config_def)

text \<open>
  C15: a search, a validation of given candidates and a combined find never return more images than
  asked for; a find asked for none or fewer returns at most three, the others none.
\<close>

theorem results_bounded:
  assumes "SearchImagesWithOpts rt cfg query n opts st a \<or> ValidateCandidates rt cfg cs n st a"
    and "FindImages rt cfg fo st b"
  shows "int (length (validated a)) \<le> max 0 n \<and>
    int (length (validated b)) \<le> (if fo_MaxResults fo \<le> 0 then 3 else fo_MaxResults fo)"
proof -
  have e: "validated (fresh st evs) = []" for evs by (simp add: fresh_def)
  have "int (length (validated a)) \<le> max 0 n"
    using assms(1) validated_returned(1) [of rt "defaults rt cfg" _ n st _ a]
    by (auto simp: SearchImagesWithOpts_def ValidateCandidates_def Let_def e split: if_splits)
  moreover have "int (length (validated b)) \<le> max 0 (find_maxResults fo)"
    using assms(2) validated_returned(1) [of rt "defaults rt cfg" _ "find_maxResults fo" st _ b]
    by (auto simp: FindImages_def Let_def e split: if_splits)
  ultimately show ?thesis by (auto simp: find_maxResults_def findDefaultMaxResults_def split: if_splits)
qed

lemma results_bounded_witness:
  "int (length (validated (search_seq ex_runtime ex_search_config ''cat'' 5 zero_SearchOpts ()))) \<le> 5 \<and>
   int (length (validated (find_seq ex_runtime ex_search_config ex_find ()))) \<le> 3"
  using results_bounded [OF disjI1 [OF search_seq_possible] find_seq_possible,
      of ex_runtime ex_search_config "''cat''" 5 zero_SearchOpts "()" ex_find]
  by (simp add: ex_find_def)

section \<open>Every interleaving\<close>

text \<open>
  Under the sequential schedule the documented order holds: the results of a search stay sorted, safe
  licences before unknown ones.
\<close>

theorem sequential_search_safe_first:
  "sorted (map License (validated (search_seq rt cfg query n opts st)))"
proof -
  have "sorted (map License (validated (validate_seq rt c n (safe_first cs) (fresh st evs))))" for c cs evs
    using validate_seq_subseq [of rt c n "safe_first cs" "fresh st evs"] sorted_subseq [of _ "safe_first cs" License]
    by (auto simp: fresh_def safe_first_def)
  then show ?thesis by (simp add: search_seq_def Let_def fresh_def [of st])
qed

text \<open>
  The order is not kept by every schedule: a goroutine whose candidate comes later can append first.
\<close>

theorem safe_first_not_guaranteed:
  "\<exists>sh. SearchImages ex_runtime ex_two_config ''cat'' 5 () sh \<and> validated sh = [ex_unknown, ex_safe]
     \<and> License ex_safe < License ex_unknown"
proof (intro exI conjI)
  let ?cfg = "defaults ex_runtime ex_two_config"
  let ?sh = "validateOne ex_runtime ?cfg ex_safe 5 (validateOne ex_runtime ?cfg ex_unknown 5 (fresh () []))"
  have g: "safe_first (gatherCandidates (resolveProviders ex_runtime ?cfg) ''cat'' zero_SearchOpts) = [ex_safe, ex_unknown]"
    by (rule ex_two_gathered)
  then have "gatherCandidates (resolveProviders ex_runtime ?cfg) ''cat'' zero_SearchOpts \<noteq> []"
    by (auto simp: safe_first_def)
  moreover have "search_events ?cfg = []" by (simp add: search_events_def ex_two_config_def)
  ultimately show "SearchImages ex_runtime ex_two_config ''cat'' 5 () ?sh"
    using overtaking_possible [of 5 ex_runtime ?cfg ex_safe ex_unknown "()" "[]"] g
    by (auto simp: SearchImages_def SearchImagesWithOpts_def Let_def intro!: exI [of _ "resolveProviders ex_runtime ?cfg"])
  show "validated ?sh = [ex_unknown, ex_safe]" by (rule ex_swapped)
  show "License ex_safe < License ex_unknown" by code_simp
qed

text \<open>
  C8: the results of a call are a selection of the candidates, each used at most as often as it was
  given, and no two of them show the same picture: their hashes differ pairwise by at least the
  threshold, however the goroutines interleave between the filter's mutex and the slice's.
\<close>

theorem selection_without_duplicates:
  assumes "validateCandidates rt cfg cs n st evs sh"
  shows "mset (validated sh) \<subseteq># mset cs \<and> sorted_wrt (\<lambda>a b. \<not> close_to a b) (prints rt cfg (validated sh))"
  using validated_returned(2) [OF assms] validated_apart [OF assms] by blast

lemma selection_without_duplicates_witness:
  "mset [ex_cand ''http://a/1.png'' LicenseSafe, ex_cand ''http://a/3.jpg'' LicenseSafe] \<subseteq># mset ex_cands"
  using selection_without_duplicates [OF validate_seq_possible, of ex_runtime ex_config 5 ex_cands "()" "[]"]
  by (simp only: ex_seq)

text \<open>
  Without a cache the set of images that may be returned is fixed by the candidates alone: each
  result is accepted by the checks and, unless its licence is already known to be safe, by the
  vision model.
\<close>

theorem results_accepted:
  assumes "validateCandidates rt cfg cs n st evs sh" and "cfg_Cache cfg = None" and "c \<in> set (validated sh)"
  shows "accepts rt cfg c"
proof -
  from assms(1) obtain m where m: "runs rt cfg n (start cs st evs) m" "mem m = sh"
    by (auto simp: validateCandidates_def)
  show ?thesis using sound.reached [OF _ _ m(1), of "\<lambda>_. True"] m(2) assms(2,3)
    by (auto simp: fresh_def list_all_iff intro: endorsed_accepts)
qed

lemma results_accepted_witness: "accepts ex_runtime ex_config (ex_cand ''http://a/1.png'' LicenseSafe)"
  by (rule results_accepted [OF validate_seq_possible, of ex_config _ ex_runtime 5 ex_cands "()" "[]"])
     (simp_all add: ex_seq, simp add: ex_config_def)

lemma idle_run:
  assumes "n \<le> 0" and "runs rt cfg n (start cs st evs) m"
  shows "threads m = [] \<and> mem m = fresh st evs"
  using assms(2) unfolding runs_def
proof (induction rule: rtranclp_induct)
  case base
  then show ?case by (simp add: start_def)
next
  case (step m m')
  from step(2,3) assms(1) show ?case by (cases rule: machine_step.cases) (auto simp: fresh_def)
qed

text \<open>
  Asked for no image, a validation does nothing: no candidate is probed, no callback is made and
  the cache is left as it was.
\<close>

theorem nothing_asked_nothing_done:
  assumes "n \<le> 0" and "ValidateCandidates rt cfg cs n st sh"
  shows "sh = fresh st []"
  using assms(2) idle_run [OF assms(1), of rt "defaults rt cfg" cs st "[]"]
  by (auto simp: ValidateCandidates_def validateCandidates_def split: if_splits)

lemma nothing_asked_nothing_done_witness:
  "validate_seq ex_runtime (defaults ex_runtime ex_config) 0 ex_cands (fresh () []) = fresh () []"
proof -
  have "ValidateCandidates ex_runtime ex_config ex_cands 0 () (validate_seq ex_runtime (defaults ex_runtime ex_config) 0 ex_cands (fresh () []))"
    unfolding ValidateCandidates_def
    using validate_seq_possible [of ex_runtime "defaults ex_runtime ex_config" ex_cands 0 "()" "[]"]
    by (simp only: ex_cands_def list.distinct if_False)
  then show ?thesis by (rule nothing_asked_nothing_done [OF order_refl])
qed

section \<open>Two surprises\<close>

text \<open>
  A caller's candidate counts as Safe when its licence is left unset, the zero value, and the
  built-in list of stock sites is then never consulted.
\<close>

theorem external_stock_accepted:
  "\<exists>sh. ValidateCandidates ex_runtime ex_config [ex_stock] 5 () sh \<and> ex_stock \<in> set (validated sh) \<and>
     CheckLicense ex_unicode (ImgURL ex_stock) (Source ex_stock) = LicenseBlocked"
proof (intro exI conjI)
  let ?sh = "validate_seq ex_runtime (defaults ex_runtime ex_config) 5 [ex_stock] (fresh () [])"
  show "ValidateCandidates ex_runtime ex_config [ex_stock] 5 () ?sh"
    unfolding ValidateCandidates_def using validate_seq_possible by (simp only: list.distinct if_False)
  show "ex_stock \<in> set (validated ?sh)" unfolding ex_stock_accepted by simp
qed (rule ex_stock_accepted)

text \<open>
  A candidate that alone would be returned is dropped as the duplicate of a picture that is
  itself rejected.
\<close>

theorem duplicate_of_rejected_lost:
  "\<exists>one both. ValidateCandidates ex_runtime ex_config [ex_twin] 5 () one \<and> validated one = [ex_twin] \<and>
     ValidateCandidates ex_runtime ex_config [ex_rejected, ex_twin] 5 () both \<and> validated both = []"
proof (intro exI conjI)
  let ?v = "\<lambda>cs. validate_seq ex_runtime (defaults ex_runtime ex_config) 5 cs (fresh () [])"
  have v: "ValidateCandidates ex_runtime ex_config (c # cs) 5 () (?v (c # cs))" for c cs
    unfolding ValidateCandidates_def using validate_seq_possible by (simp only: list.distinct if_False)
  show "ValidateCandidates ex_runtime ex_config [ex_twin] 5 () (?v [ex_twin])"
    "ValidateCandidates ex_runtime ex_config [ex_rejected, ex_twin] 5 () (?v [ex_rejected, ex_twin])" by (rule v)+
qed (rule ex_twin_lost)+

end
